(* ===== verification/Prelude.thy ===== *)
theory Prelude
  imports Main "HOL-Library.Sublist" "HOL-Library.Char_ord" "HOL-Library.List_Lexorder"
    "HOL-Library.Product_Lexorder"
begin

text \<open>
  The prelude of the development: the fact collections the component theories fill and use,
  and generic lemmas on lists that more than one component needs. Nothing here models code of
  the repository.

  \<^item> \<open>trace_simps\<close> collects what each effectful wrapper adds to the event log;
  \<^item> \<open>frame_simps\<close> collects which parts of the state an operation leaves alone;
  \<^item> \<open>guard_simps\<close> collects the unfolding equations of request guards.
\<close>

named_theorems trace_simps \<open>how an operation extends the event log\<close>
named_theorems frame_simps \<open>state components an operation leaves unchanged\<close>
named_theorems guard_simps \<open>equations of request guards\<close>

section \<open>Lists\<close>

lemma find_Some_mem: "find P xs = Some x \<Longrightarrow> x \<in> set xs \<and> P x"
  by (metis find_Some_iff nth_mem)

lemma find_distinct_key:
  assumes "distinct (map f xs)" and "x \<in> set xs"
  shows "find (\<lambda>y. f y = f x) xs = Some x"
  using assms by (induction xs) (auto simp: rev_image_eqI)

lemma find_append: "find P (xs @ ys) = (case find P xs of None \<Rightarrow> find P ys | Some x \<Rightarrow> Some x)"
  by (induction xs) auto

lemma find_filter_other:
  assumes "\<And>x. P x \<Longrightarrow> Q x"
  shows "find P (filter Q xs) = find P xs"
  using assms by (induction xs) auto

lemma find_map_preserving:
  assumes "\<And>x. P (f x) = P x"
  shows "find P (map f xs) = map_option f (find P xs)"
  using assms by (induction xs) auto

lemma distinct_map_filter_key: "distinct (map f xs) \<Longrightarrow> distinct (map f (filter P xs))"
  by (induction xs) auto

lemma filter_length_ge2:
  assumes "2 \<le> length (filter P xs)" and "distinct (map f (filter P xs))"
  shows "\<exists>y \<in> set xs. P y \<and> f y \<noteq> k"
proof (rule ccontr)
  assume "\<not> ?thesis"
  then have "set (map f (filter P xs)) \<subseteq> {k}" by auto
  then have "card (set (map f (filter P xs))) \<le> 1"
    using card_mono [of "{k}" "set (map f (filter P xs))"] by simp
  moreover have "card (set (map f (filter P xs))) = length (filter P xs)"
    using distinct_card [OF assms(2)] by (simp only: length_map)
  ultimately show False using assms(1) by linarith
qed

lemma sorted_key_rev_desc:
  fixes f :: "'a \<Rightarrow> 'b::linorder"
  shows "sorted_wrt (\<lambda>x y. f y \<le> f x) (rev (sort_key f xs))"
proof -
  have "sorted_wrt (\<lambda>x y. f x \<le> f y) (sort_key f xs)"
    using sorted_sort_key [of f xs] by (simp add: sorted_map)
  then show ?thesis by (simp add: sorted_wrt_rev)
qed

section \<open>Results\<close>

text \<open>Go's \<open>(value, error)\<close> pairs are sums: \<open>Inl\<close> carries the error.\<close>

definition is_ok :: "'e + 'a \<Rightarrow> bool" where
  "is_ok r = (case r of Inl _ \<Rightarrow> False | Inr _ \<Rightarrow> True)"

lemma is_ok_simps [simp]: "is_ok (Inr a)" "\<not> is_ok (Inl e)"
  by (simp_all add: is_ok_def)

lemma is_ok_iff: "is_ok r \<longleftrightarrow> (\<exists>a. r = Inr a)"
  by (cases r) auto

end
