(* ===== verification/GoLib.thy ===== *)
theory GoLib
  imports Prelude
begin

text \<open>
  The parts of the Go language and standard library that the program uses, on byte strings
  (\<open>string\<close> is \<open>char list\<close>, a \<open>char\<close> is one byte): 64-bit integers, \<open>strings\<close>,
  \<open>strconv\<close>, \<open>path/filepath\<close> (lexical part), \<open>encoding/hex\<close> and \<open>encoding/base64\<close>,
  and floating-point values as far as comparisons and conversions to integers go.
\<close>

section \<open>Machine integers\<close>

text \<open>Go's \<open>int\<close> and \<open>int64\<close> are 64-bit two's complement; \<open>uint64\<close> wraps at \<open>2^64\<close>.\<close>

definition wrap64 :: "int \<Rightarrow> int" where
  "wrap64 x = (x + 2 ^ 63) mod 2 ^ 64 - 2 ^ 63"

definition wrapu64 :: "int \<Rightarrow> int" where
  "wrapu64 x = x mod 2 ^ 64"

definition in_int64 :: "int \<Rightarrow> bool" where
  "in_int64 x \<longleftrightarrow> - (2 ^ 63) \<le> x \<and> x < 2 ^ 63"

lemma wrap64_id: "in_int64 x \<Longrightarrow> wrap64 x = x"
  by (simp add: wrap64_def in_int64_def)

lemma wrap64_range: "in_int64 (wrap64 x)"
proof -
  have "0 \<le> (x + 2 ^ 63) mod 2 ^ 64 \<and> (x + 2 ^ 63) mod 2 ^ 64 < (2::int) ^ 64" by simp
  then show ?thesis by (simp add: wrap64_def in_int64_def)
qed

lemma wrapu64_id: "0 \<le> x \<Longrightarrow> x < 2 ^ 64 \<Longrightarrow> wrapu64 x = x"
  by (simp add: wrapu64_def)

text \<open>Integer division truncates towards zero.\<close>

definition go_div :: "int \<Rightarrow> int \<Rightarrow> int" where
  "go_div a b = sgn a * sgn b * (\<bar>a\<bar> div \<bar>b\<bar>)"

lemma go_div_nonneg: "0 \<le> a \<Longrightarrow> 0 < b \<Longrightarrow> go_div a b = a div b"
  by (cases "a = 0") (simp_all add: go_div_def)

section \<open>Package strings\<close>

abbreviation nl :: char where "nl \<equiv> CHR 0x0A"
abbreviation tab :: char where "tab \<equiv> CHR 0x09"

text \<open>An em dash, as the source's UTF-8 literals contain it.\<close>

definition emdash :: string where
  "emdash = [CHR 0xE2, CHR 0x80, CHR 0x94]"

text \<open>\<open>strings.TrimSpace\<close> on ASCII white space (the two Latin-1 spaces Unicode adds are not bytes).\<close>

definition is_space :: "char \<Rightarrow> bool" where
  "is_space c \<longleftrightarrow> c \<in> set [CHR 0x09, CHR 0x0A, CHR 0x0B, CHR 0x0C, CHR 0x0D, CHR 0x20]"

definition trim_space :: "string \<Rightarrow> string" where
  "trim_space s = rev (dropWhile is_space (rev (dropWhile is_space s)))"

definition trim_suffix :: "string \<Rightarrow> string \<Rightarrow> string" where
  "trim_suffix s suf = (if suffix suf s then take (length s - length suf) s else s)"

definition trim_prefix :: "string \<Rightarrow> string \<Rightarrow> string" where
  "trim_prefix s pre = (if prefix pre s then drop (length pre) s else s)"

text \<open>\<open>strings.HasPrefix s p\<close> is \<open>prefix p s\<close> and \<open>strings.Contains s t\<close> is \<open>sublist t s\<close>.\<close>

text \<open>The verb \<open>%q\<close> on printable ASCII without quotes or backslashes.\<close>

definition quoted :: "string \<Rightarrow> string" where
  "quoted s = CHR 0x22 # s @ [CHR 0x22]"

lemma prefix_stop: "c \<notin> set p \<Longrightarrow> prefix p (l @ c # t) \<Longrightarrow> prefix p l"
proof (induction p arbitrary: l)
  case (Cons a p)
  show ?case
  proof (cases l)
    case Nil
    with Cons.prems show ?thesis by simp
  next
    case (Cons b l')
    with Cons.prems have "a = b" "prefix p (l' @ c # t)" by simp_all
    with Cons.prems(1) Cons.IH [of l'] Cons show ?thesis by simp
  qed
qed simp

text \<open>\<open>strings.Split\<close> with a one-byte separator, and its inverse \<open>strings.Join\<close>.\<close>

fun split_on :: "char \<Rightarrow> string \<Rightarrow> string list" where
  "split_on c [] = [[]]"
| "split_on c (x # xs) =
     (if x = c then [] # split_on c xs
      else (case split_on c xs of [] \<Rightarrow> [[x]] | w # ws \<Rightarrow> (x # w) # ws))"

fun join_with :: "char \<Rightarrow> string list \<Rightarrow> string" where
  "join_with c [] = []"
| "join_with c [w] = w"
| "join_with c (w # v # ws) = w @ c # join_with c (v # ws)"

lemma split_on_nonempty [simp]: "split_on c s \<noteq> []"
  by (cases s) (auto split: list.splits)

lemma split_on_pieces: "w \<in> set (split_on c s) \<Longrightarrow> c \<notin> set w"
  by (induction s arbitrary: w) (auto split: if_splits list.splits)

lemma join_with_Cons: "ws \<noteq> [] \<Longrightarrow> join_with c (w # ws) = w @ c # join_with c ws"
  by (cases ws) auto

lemma join_split: "join_with c (split_on c s) = s"
proof (induction s)
  case (Cons x s)
  obtain w ws where w: "split_on c s = w # ws" by (cases "split_on c s") auto
  with Cons show ?case by (cases ws) (auto simp: join_with_Cons)
qed simp

lemma split_on_no_sep: "c \<notin> set s \<Longrightarrow> split_on c s = [s]"
  by (induction s) auto

lemma split_on_append_sep: "split_on c (a @ c # b) = split_on c a @ split_on c b"
  by (induction a) (auto split: list.splits)

lemma split_join: "ws \<noteq> [] \<Longrightarrow> \<forall>w \<in> set ws. c \<notin> set w \<Longrightarrow> split_on c (join_with c ws) = ws"
proof (induction ws rule: join_with.induct)
  case (3 c w v ws)
  then show ?case by (simp only: join_with.simps split_on_append_sep) (simp add: split_on_no_sep)
qed (auto simp: split_on_no_sep)

lemma set_join_with: "c' \<noteq> c \<Longrightarrow> c' \<in> set (join_with c ws) \<longleftrightarrow> (\<exists>w \<in> set ws. c' \<in> set w)"
  by (induction ws rule: join_with.induct) auto

lemma dropWhile_idem_head: "dropWhile P xs = xs \<longleftrightarrow> xs = [] \<or> \<not> P (hd xs)"
  by (cases xs) (auto dest: arg_cong [where f = length] simp: le_imp_less_Suc length_dropWhile_le
      order.strict_implies_not_eq)

lemma trim_space_id:
  assumes "s = [] \<or> (\<not> is_space (hd s) \<and> \<not> is_space (last s))"
  shows "trim_space s = s"
  using assms by (auto simp: trim_space_def dropWhile_idem_head hd_rev
      iffD2 [OF dropWhile_idem_head])

lemma trim_space_subset: "set (trim_space s) \<subseteq> set s"
  unfolding trim_space_def by (metis set_dropWhileD set_rev subsetI)

lemma trim_space_Nil: "trim_space [] = []"
  by (simp add: trim_space_def)

section \<open>Package strconv\<close>

definition digit_char :: "nat \<Rightarrow> char" where
  "digit_char d = char_of (48 + d)"

definition is_digit :: "char \<Rightarrow> bool" where
  "is_digit c \<longleftrightarrow> 48 \<le> (of_char c :: nat) \<and> (of_char c :: nat) \<le> 57"

definition digit_val :: "char \<Rightarrow> nat" where
  "digit_val c = of_char c - 48"

fun nat_dec :: "nat \<Rightarrow> string" where
  "nat_dec n = (if n < 10 then [digit_char n] else nat_dec (n div 10) @ [digit_char (n mod 10)])"

declare nat_dec.simps [simp del]

definition itoa :: "int \<Rightarrow> string" where
  "itoa i = (if i < 0 then CHR ''-'' # nat_dec (nat (- i)) else nat_dec (nat i))"

definition dec_val :: "string \<Rightarrow> nat" where
  "dec_val s = foldl (\<lambda>n c. 10 * n + digit_val c) 0 s"

datatype num_error = ErrSyntax | ErrRange

text \<open>
  \<open>strconv.Atoi\<close> (and \<open>ParseInt\<close> with base 10 and 64 bits): an optional sign, then decimal
  digits. A syntax error returns 0, a range error the nearest \<open>int64\<close>, both with the error.
\<close>

definition atoi_abs :: "bool \<Rightarrow> string \<Rightarrow> int \<times> num_error option" where
  "atoi_abs neg ds =
     (if ds = [] \<or> \<not> list_all is_digit ds then (0, Some ErrSyntax)
      else let v = int (dec_val ds) in
        if neg then (if v \<le> 2 ^ 63 then (- v, None) else (- (2 ^ 63), Some ErrRange))
        else (if v < 2 ^ 63 then (v, None) else (2 ^ 63 - 1, Some ErrRange)))"

definition atoi :: "string \<Rightarrow> int \<times> num_error option" where
  "atoi s = (case s of [] \<Rightarrow> (0, Some ErrSyntax)
             | c # cs \<Rightarrow> if c = CHR ''-'' then atoi_abs True cs
                         else if c = CHR ''+'' then atoi_abs False cs
                         else atoi_abs False s)"

definition atoi_opt :: "string \<Rightarrow> int option" where
  "atoi_opt s = (case atoi s of (n, None) \<Rightarrow> Some n | (_, Some _) \<Rightarrow> None)"

lemma digit_char_props:
  assumes "d < 10"
  shows "is_digit (digit_char d)" and "digit_val (digit_char d) = d"
  using assms by (simp_all add: is_digit_def digit_val_def digit_char_def)

lemma nat_dec_digits: "list_all is_digit (nat_dec n)"
proof (induction n rule: nat_dec.induct)
  case (1 n)
  then show ?case
    by (subst nat_dec.simps) (auto simp: digit_char_props)
qed

lemma nat_dec_nonempty [simp]: "nat_dec n \<noteq> []"
  by (subst nat_dec.simps) simp

lemma dec_val_nat_dec: "dec_val (nat_dec n) = n"
proof (induction n rule: nat_dec.induct)
  case (1 n)
  then show ?case
    by (subst nat_dec.simps) (auto simp: dec_val_def digit_char_props)
qed

lemma nat_dec_hd: "is_digit (hd (nat_dec n))"
  using nat_dec_digits [of n] nat_dec_nonempty [of n] by (cases "nat_dec n") auto

lemma is_digit_not_sign: "is_digit c \<Longrightarrow> c \<noteq> CHR ''-'' \<and> c \<noteq> CHR ''+''"
  by (auto simp: is_digit_def)

lemma atoi_itoa: "in_int64 n \<Longrightarrow> atoi (itoa n) = (n, None)"
proof (cases "n < 0")
  case True
  assume "in_int64 n"
  with True show ?thesis
    by (simp add: atoi_def itoa_def atoi_abs_def nat_dec_digits dec_val_nat_dec in_int64_def)
next
  case False
  assume "in_int64 n"
  obtain c cs where c: "nat_dec (nat n) = c # cs" using nat_dec_nonempty by (cases "nat_dec (nat n)") auto
  then have "c \<noteq> CHR ''-''" "c \<noteq> CHR ''+''"
    using nat_dec_hd [of "nat n"] is_digit_not_sign by auto
  with False \<open>in_int64 n\<close> c show ?thesis
    using nat_dec_digits [of "nat n"] dec_val_nat_dec [of "nat n"]
    by (simp add: atoi_def itoa_def atoi_abs_def in_int64_def)
qed

lemma atoi_opt_itoa: "in_int64 n \<Longrightarrow> atoi_opt (itoa n) = Some n"
  by (simp add: atoi_opt_def atoi_itoa)

lemma itoa_inject: "in_int64 m \<Longrightarrow> in_int64 n \<Longrightarrow> itoa m = itoa n \<longleftrightarrow> m = n"
  by (metis atoi_opt_itoa option.inject)

end
