(* ===== verification/GoPath.thy ===== *)
theory GoPath
  imports GoLib
begin

text \<open>
  The lexical part of \<open>path/filepath\<close> on Linux (\<open>Clean\<close>, \<open>Join\<close>; \<open>ToSlash\<close> and
  \<open>FromSlash\<close> are the identity there) and the two codecs the handlers use (\<open>encoding/hex\<close>,
  \<open>encoding/base64\<close>).
\<close>

section \<open>filepath.Clean and filepath.Join\<close>

abbreviation slash :: char where "slash \<equiv> CHR ''/''"

text \<open>\<open>Clean\<close> walks the components left to right with a stack of the kept ones (last on top).\<close>

definition clean_step :: "bool \<Rightarrow> string list \<Rightarrow> string \<Rightarrow> string list" where
  "clean_step rooted st c =
     (if c = [] \<or> c = ''.'' then st
      else if c = ''..'' then
        (case st of [] \<Rightarrow> if rooted then [] else [''..'']
         | t # ts \<Rightarrow> if t = ''..'' then ''..'' # st else ts)
      else c # st)"

definition clean_stack :: "bool \<Rightarrow> string list \<Rightarrow> string list" where
  "clean_stack rooted cs = foldl (clean_step rooted) [] cs"

definition rooted :: "string \<Rightarrow> bool" where
  "rooted p = prefix ''/'' p"

definition clean :: "string \<Rightarrow> string" where
  "clean p =
     (if p = [] then ''.''
      else let out = rev (clean_stack (rooted p) (split_on slash p)) in
        if rooted p then slash # join_with slash out
        else if out = [] then ''.'' else join_with slash out)"

text \<open>\<open>filepath.Join\<close> of two elements: empty elements are dropped, the rest joined and cleaned.\<close>

definition path_join :: "string \<Rightarrow> string \<Rightarrow> string" where
  "path_join a b =
     (if a = [] \<and> b = [] then [] else if a = [] then clean b else if b = [] then clean a
      else clean (a @ slash # b))"

text \<open>An ordinary component: one that \<open>Clean\<close> keeps as it is.\<close>

definition plain_comp :: "string \<Rightarrow> bool" where
  "plain_comp c \<longleftrightarrow> c \<noteq> [] \<and> c \<noteq> ''.'' \<and> c \<noteq> ''..'' \<and> slash \<notin> set c"

lemma clean_step_plain [simp]: "plain_comp c \<Longrightarrow> clean_step r st c = c # st"
  by (simp add: clean_step_def plain_comp_def)

lemma clean_step_Nil [simp]: "clean_step r st [] = st"
  by (simp add: clean_step_def)

lemma clean_stack_append:
  "clean_stack r (cs @ ds) = foldl (clean_step r) (clean_stack r cs) ds"
  by (simp add: clean_stack_def)

lemma clean_stack_Nil_head [simp]: "clean_stack r ([] # cs) = clean_stack r cs"
  by (simp add: clean_stack_def)

lemma foldl_clean_step_plain:
  "list_all plain_comp cs \<Longrightarrow> foldl (clean_step r) st cs = rev cs @ st"
  by (induction cs arbitrary: st) auto

lemma clean_stack_plain: "list_all plain_comp cs \<Longrightarrow> clean_stack r cs = rev cs"
  by (simp add: clean_stack_def foldl_clean_step_plain)

lemma clean_step_rooted_plain:
  "list_all plain_comp st \<Longrightarrow> slash \<notin> set c \<Longrightarrow> list_all plain_comp (clean_step True st c)"
  by (auto simp: clean_step_def plain_comp_def split: list.splits)

lemma clean_stack_rooted_plain:
  assumes "\<forall>c \<in> set cs. slash \<notin> set c"
  shows "list_all plain_comp (clean_stack True cs)"
proof -
  have "list_all plain_comp st \<Longrightarrow> list_all plain_comp (foldl (clean_step True) st cs)" for st
    using assms by (induction cs arbitrary: st) (auto simp: clean_step_rooted_plain)
  then show ?thesis by (simp add: clean_stack_def)
qed

lemma rooted_iff: "rooted p \<longleftrightarrow> (\<exists>q. p = slash # q)"
  by (cases p) (auto simp: rooted_def)

text \<open>The components of a path, and of a cleaned rooted path: ordinary ones only.\<close>

definition clean_comps :: "string \<Rightarrow> string list" where
  "clean_comps p = rev (clean_stack (rooted p) (split_on slash p))"

lemma clean_comps_plain: "rooted p \<Longrightarrow> list_all plain_comp (clean_comps p)"
  using clean_stack_rooted_plain [of "split_on slash p"] split_on_pieces [of _ slash p]
  by (auto simp: clean_comps_def list_all_iff)

lemma clean_rooted: "rooted p \<Longrightarrow> clean p = slash # join_with slash (clean_comps p)"
  by (auto simp: clean_def clean_comps_def rooted_iff Let_def)

lemma rooted_clean: "rooted p \<Longrightarrow> rooted (clean p)"
  by (simp add: clean_rooted rooted_iff)

lemma split_join_plain:
  "list_all plain_comp cs \<Longrightarrow> cs \<noteq> [] \<Longrightarrow> split_on slash (join_with slash cs) = cs"
  by (rule split_join) (auto simp: list_all_iff plain_comp_def)

lemma clean_comps_of_plain:
  assumes "list_all plain_comp cs"
  shows "clean_comps (slash # join_with slash cs) = cs"
proof (cases "cs = []")
  case True
  then show ?thesis by (simp add: clean_comps_def clean_stack_def)
next
  case False
  with assms show ?thesis
    by (simp add: clean_comps_def split_join_plain clean_stack_plain rooted_def)
qed

lemma clean_comps_clean: "rooted p \<Longrightarrow> clean_comps (clean p) = clean_comps p"
  by (simp add: clean_rooted clean_comps_of_plain clean_comps_plain)

lemma clean_idem_rooted: "rooted p \<Longrightarrow> clean (clean p) = clean p"
  by (metis clean_comps_clean clean_rooted rooted_clean)

lemma clean_of_plain:
  "list_all plain_comp cs \<Longrightarrow> clean (slash # join_with slash cs) = slash # join_with slash cs"
  by (simp add: clean_rooted rooted_iff clean_comps_of_plain)

text \<open>Joining an ordinary component to a rooted directory appends exactly that component.\<close>

lemma clean_comps_join:
  assumes "rooted d" and "plain_comp n"
  shows "clean_comps (d @ slash # n) = clean_comps d @ [n]"
proof -
  have "rooted (d @ slash # n)" using assms(1) by (auto simp: rooted_iff)
  moreover have "split_on slash n = [n]"
    using assms(2) by (simp add: split_on_no_sep plain_comp_def)
  ultimately show ?thesis using assms
    by (simp add: clean_comps_def split_on_append_sep clean_stack_append)
qed

lemma path_join_comps:
  assumes "rooted d" and "plain_comp n"
  shows "path_join d n = slash # join_with slash (clean_comps d @ [n])"
proof -
  have "rooted (d @ slash # n)" "d \<noteq> []" "n \<noteq> []"
    using assms by (auto simp: rooted_iff plain_comp_def)
  then show ?thesis using assms by (simp add: path_join_def clean_rooted clean_comps_join)
qed

lemma path_join_inject:
  assumes "rooted d" "plain_comp m" "plain_comp n" and "path_join d m = path_join d n"
  shows "m = n"
proof -
  have "clean_comps (path_join d c) = clean_comps d @ [c]" if "plain_comp c" for c
  proof -
    have "list_all plain_comp (clean_comps d @ [c])"
      using clean_comps_plain [OF assms(1)] that by simp
    then show ?thesis
      by (simp only: path_join_comps [OF assms(1) that] clean_comps_of_plain)
  qed
  then have "clean_comps d @ [m] = clean_comps d @ [n]"
    using assms(2-4) by metis
  then show ?thesis by (simp only: append_same_eq same_append_eq list.inject simp_thms)
qed

section \<open>encoding/hex\<close>

definition hex_digit :: "nat \<Rightarrow> char" where
  "hex_digit n = (if n < 10 then char_of (48 + n) else char_of (87 + n))"

definition hex_encode :: "string \<Rightarrow> string" where
  "hex_encode bs = concat (map (\<lambda>c. [hex_digit (of_char c div 16), hex_digit (of_char c mod 16)]) bs)"

lemma length_hex_encode: "length (hex_encode bs) = 2 * length bs"
  by (induction bs) (auto simp: hex_encode_def)

lemma of_char_hex_digit: "n < 16 \<Longrightarrow> (of_char (hex_digit n) :: nat) = (if n < 10 then 48 + n else 87 + n)"
  by (simp only: hex_digit_def of_char_of if_distrib [of of_char] split: if_split) auto

lemma div_lt_64: "(n::nat) < 256 \<Longrightarrow> n div 4 < 64 \<and> n div 16 < 16 \<and> n div 64 < 4"
  by linarith

lemma char_div [simp]:
  shows char_div_4: "(of_char c :: nat) div 4 < 64"
    and char_div_16: "(of_char c :: nat) div 16 < 16"
    and char_div_64: "(of_char c :: nat) div 64 < 4"
  by (rule div_lt_64 [OF nat_of_char_less_256, THEN conjunct1]
      div_lt_64 [OF nat_of_char_less_256, THEN conjunct2, THEN conjunct1]
      div_lt_64 [OF nat_of_char_less_256, THEN conjunct2, THEN conjunct2])+

lemma sextet [simp]:
  "p < 4 \<Longrightarrow> q < 16 \<Longrightarrow> 16 * p + q < (64::nat)"
  "p < 16 \<Longrightarrow> q < 4 \<Longrightarrow> 4 * p + q < (64::nat)"
  by linarith+

lemma hex_digit_inject: "m < 16 \<Longrightarrow> n < 16 \<Longrightarrow> hex_digit m = hex_digit n \<longleftrightarrow> m = n"
proof
  assume lt: "m < 16" "n < 16" and "hex_digit m = hex_digit n"
  then have "(if m < 10 then 48 + m else 87 + m) = (if n < 10 then 48 + n else 87 + n)"
    by (metis of_char_hex_digit)
  with lt show "m = n" by (simp split: if_split_asm)
qed simp

lemma div_mod_16_eq: "(m::nat) div 16 = n div 16 \<and> m mod 16 = n mod 16 \<longleftrightarrow> m = n"
  by (metis div_mult_mod_eq)

lemma hex_encode_inject: "hex_encode a = hex_encode b \<longleftrightarrow> a = b"
proof (induction a arbitrary: b)
  case Nil
  then show ?case by (cases b) (auto simp: hex_encode_def)
next
  case (Cons x a)
  show ?case
  proof (cases b)
    case Nil
    then show ?thesis by (simp add: hex_encode_def)
  next
    case (Cons y ys)
    have "hex_encode (x # a) = hex_encode (y # ys) \<longleftrightarrow>
      (hex_digit (of_char x div 16) = hex_digit (of_char y div 16)
        \<and> hex_digit (of_char x mod 16) = hex_digit (of_char y mod 16)) \<and> hex_encode a = hex_encode ys"
      by (simp add: hex_encode_def)
    also have "\<dots> \<longleftrightarrow> (of_char x :: nat) = of_char y \<and> hex_encode a = hex_encode ys"
      by (simp only: hex_digit_inject char_div pos_mod_bound zero_less_numeral mod_less_divisor
          div_mod_16_eq)
    finally show ?thesis using Cons.IH [of ys] Cons by simp
  qed
qed

section \<open>encoding/base64 (StdEncoding)\<close>

definition b64_char :: "nat \<Rightarrow> char" where
  "b64_char v = (if v < 26 then char_of (65 + v) else if v < 52 then char_of (71 + v)
     else if v < 62 then char_of (v - 4) else if v = 62 then CHR ''+'' else CHR ''/'')"

definition b64_val :: "char \<Rightarrow> nat option" where
  "b64_val c = (let n = of_char c in
     if 65 \<le> n \<and> n \<le> 90 then Some (n - 65) else if 97 \<le> n \<and> n \<le> 122 then Some (n - 71)
     else if 48 \<le> n \<and> n \<le> 57 then Some (n + 4) else if n = 43 then Some 62
     else if n = 47 then Some 63 else None)"

text \<open>
  \<open>DecodeString\<close>: carriage returns and newlines are skipped, then groups of four characters;
  padding only in the last group. Trailing bits under the padding are ignored, as the
  non-strict \<open>StdEncoding\<close> does.
\<close>

fun b64_groups :: "string \<Rightarrow> string option" where
  "b64_groups [] = Some []"
| "b64_groups (a # b # c # d # rest) =
     (if d = CHR ''='' then
        (if rest \<noteq> [] then None
         else if c = CHR ''='' then
           (case (b64_val a, b64_val b) of
              (Some x, Some y) \<Rightarrow> Some [char_of (4 * x + y div 16)] | _ \<Rightarrow> None)
         else
           (case (b64_val a, b64_val b, b64_val c) of
              (Some x, Some y, Some z) \<Rightarrow>
                Some [char_of (4 * x + y div 16), char_of (16 * (y mod 16) + z div 4)]
            | _ \<Rightarrow> None))
      else
        (case (b64_val a, b64_val b, b64_val c, b64_val d) of
           (Some x, Some y, Some z, Some w) \<Rightarrow>
             map_option (\<lambda>bs. char_of (4 * x + y div 16) # char_of (16 * (y mod 16) + z div 4)
                              # char_of (64 * (z mod 4) + w) # bs) (b64_groups rest)
         | _ \<Rightarrow> None))"
| "b64_groups _ = None"

definition b64_decode :: "string \<Rightarrow> string option" where
  "b64_decode s = b64_groups (filter (\<lambda>c. c \<noteq> CHR 0x0D \<and> c \<noteq> CHR 0x0A) s)"

text \<open>The client's side: what an upload of the bytes \<open>bs\<close> looks like.\<close>

fun b64_encode :: "string \<Rightarrow> string" where
  "b64_encode [] = []"
| "b64_encode [a] = (let p = of_char a in
     [b64_char (p div 4), b64_char (16 * (p mod 4)), CHR ''='', CHR ''=''])"
| "b64_encode [a, b] = (let p = of_char a; q = of_char b in
     [b64_char (p div 4), b64_char (16 * (p mod 4) + q div 16), b64_char (4 * (q mod 16)), CHR ''=''])"
| "b64_encode (a # b # c # rest) = (let p = of_char a; q = of_char b; r = of_char c in
     b64_char (p div 4) # b64_char (16 * (p mod 4) + q div 16)
     # b64_char (4 * (q mod 16) + r div 64) # b64_char (r mod 64) # b64_encode rest)"

lemma b64_val_char: "v < 64 \<Longrightarrow> b64_val (b64_char v) = Some v"
  by (auto simp: b64_val_def b64_char_def Let_def)

lemma b64_char_not_special: "v < 64 \<Longrightarrow> b64_char v \<noteq> CHR ''='' \<and> b64_char v \<noteq> CHR 0x0D \<and> b64_char v \<noteq> CHR 0x0A"
  using b64_val_char [of v] by (auto simp: b64_val_def)

lemma b64_fst: "(4 * (p div 4) + (16 * (p mod 4) + q div 16) div 16 :: nat) = p" if "q < 256"
proof -
  have "(16 * (p mod 4) + q div 16) div 16 = p mod 4" using that by simp
  then show ?thesis by simp
qed

lemma b64_snd: "(16 * ((16 * (p mod 4) + q div 16) mod 16) + (4 * (q mod 16) + r div 64) div 4 :: nat) = q"
  if "q < 256" "r < 256"
proof -
  have "(16 * (p mod 4) + q div 16) mod 16 = q div 16" using that by simp
  moreover have "(4 * (q mod 16) + r div 64) div 4 = q mod 16" using that by simp
  ultimately show ?thesis by simp
qed

lemma b64_trd: "(64 * ((4 * (q mod 16) + r div 64) mod 4) + r mod 64 :: nat) = r" if "r < 256"
proof -
  have "(4 * (q mod 16) + r div 64) mod 4 = r div 64" using that by simp
  then show ?thesis by simp
qed

lemma b64_groups_encode: "b64_groups (b64_encode bs) = Some bs"
proof (induction bs rule: b64_encode.induct)
  case 1
  then show ?case by simp
next
  case (2 a)
  have p: "(of_char a :: nat) < 256" by simp
  show ?case
    using p b64_fst [of 0 "of_char a"] by (simp add: Let_def b64_val_char)
next
  case (3 a b)
  have p: "(of_char a :: nat) < 256" "(of_char b :: nat) < 256" by simp_all
  have "b64_char (4 * (of_char b mod 16)) \<noteq> CHR ''=''" by (rule b64_char_not_special [THEN conjunct1]) simp
  then show ?case
    using p b64_fst [of "of_char b" "of_char a"] b64_snd [of "of_char b" 0 "of_char a"]
    by (simp add: Let_def b64_val_char)
next
  case (4 a b c rest)
  have p: "(of_char a :: nat) < 256" "(of_char b :: nat) < 256" "(of_char c :: nat) < 256" by simp_all
  have "b64_char (of_char c mod 64) \<noteq> CHR ''=''" by (rule b64_char_not_special [THEN conjunct1]) simp
  then show ?case
    using p 4 b64_fst [of "of_char b" "of_char a"] b64_snd [of "of_char b" "of_char c" "of_char a"]
      b64_trd [of "of_char c" "of_char b"]
    by (simp add: Let_def b64_val_char)
qed

lemma b64_encode_no_newline:
  "c \<in> set (b64_encode bs) \<Longrightarrow> c \<noteq> CHR 0x0D \<and> c \<noteq> CHR 0x0A"
proof (induction bs rule: b64_encode.induct)
  case (2 a)
  have "(of_char a :: nat) < 256" by simp
  with 2 show ?case by (auto simp: Let_def b64_char_not_special)
next
  case (3 a b)
  have "(of_char a :: nat) < 256" "(of_char b :: nat) < 256" by simp_all
  with 3 show ?case by (auto simp: Let_def b64_char_not_special)
next
  case (4 a b c' rest)
  have "(of_char a :: nat) < 256" "(of_char b :: nat) < 256" "(of_char c' :: nat) < 256" by simp_all
  with 4 show ?case by (auto simp: Let_def b64_char_not_special)
qed simp

lemma b64_decode_encode: "b64_decode (b64_encode bs) = Some bs"
proof -
  have "filter (\<lambda>c. c \<noteq> CHR 0x0D \<and> c \<noteq> CHR 0x0A) (b64_encode bs) = b64_encode bs"
    by (simp add: filter_id_conv b64_encode_no_newline)
  then show ?thesis by (simp add: b64_decode_def b64_groups_encode)
qed

end
