(* ===== verification/Store.thy ===== *)
theory Store
  imports GoLib
begin

text \<open>
  \<open>internal/db/db.go\<close>: the two SQLite tables and the SQL statements of the program, as pure
  operations on the table contents. \<open>Database\<close> adds the calls' other failures.

  A table is the list of its rows in insertion order together with its \<open>AUTOINCREMENT\<close>
  counter. The statements are the source's: \<open>INSERT\<close> with the schema's \<open>UNIQUE\<close> columns,
  \<open>SELECT ... WHERE\<close>, \<open>DELETE ... WHERE\<close>, \<open>UPDATE ... WHERE\<close> and \<open>ORDER BY\<close>. Among rows with the
  same \<open>created_at\<close> SQL leaves the order of \<open>ListVaults\<close> open; the model keeps the newest row
  first and nothing depends on it.
\<close>

section \<open>Rows, tables, errors\<close>

record vault =
  v_id :: int
  v_name :: string
  v_path :: string
  v_size :: int
  v_mount :: string
  v_mapper :: string
  v_created :: string

record api_token =
  t_id :: int
  t_name :: string
  t_hash :: string
  t_created :: string
  t_used :: string

record db_state =
  vaults :: "vault list"
  vault_seq :: int
  tokens :: "api_token list"
  token_seq :: int

text \<open>What a database call can fail with; \<open>db_error_text\<close> is the driver's message for it.\<close>

datatype db_error = ErrNoRows | UniqueViolation string | EngineError string

fun db_error_text :: "db_error \<Rightarrow> string" where
  "db_error_text ErrNoRows = ''sql: no rows in result set''"
| "db_error_text (UniqueViolation col) =
     ''constraint failed: UNIQUE constraint failed: '' @ col @ '' (2067)''"
| "db_error_text (EngineError e) = e"

text \<open>\<open>migrate\<close>: both tables are created if they do not exist; an existing table keeps its rows.\<close>

definition empty_db :: db_state where
  "empty_db = \<lparr>vaults = [], vault_seq = 0, tokens = [], token_seq = 0\<rparr>"

definition migrate :: "db_state option \<Rightarrow> db_state" where
  "migrate file = (case file of None \<Rightarrow> empty_db | Some d \<Rightarrow> d)"

section \<open>Table vaults\<close>

definition new_vault_row :: "string \<Rightarrow> string \<Rightarrow> string \<Rightarrow> int \<Rightarrow> string \<Rightarrow> string \<Rightarrow> db_state \<Rightarrow> vault" where
  "new_vault_row now name path sizeGB mountPoint mapperName d =
     \<lparr>v_id = vault_seq d + 1, v_name = name, v_path = path, v_size = sizeGB,
      v_mount = mountPoint, v_mapper = mapperName, v_created = now\<rparr>"

definition insert_vault ::
    "string \<Rightarrow> string \<Rightarrow> string \<Rightarrow> int \<Rightarrow> string \<Rightarrow> string \<Rightarrow> db_state \<Rightarrow> db_error + (int \<times> db_state)" where
  "insert_vault now name path sizeGB mountPoint mapperName d =
     (if list_ex (\<lambda>v. v_name v = name) (vaults d) then Inl (UniqueViolation ''vaults.name'')
      else let r = new_vault_row now name path sizeGB mountPoint mapperName d in
        Inr (v_id r, d\<lparr>vaults := vaults d @ [r], vault_seq := v_id r\<rparr>))"

definition select_vaults :: "db_state \<Rightarrow> vault list" where
  "select_vaults d = rev (sort_key v_created (vaults d))"

definition row_or_none :: "'r option \<Rightarrow> db_error + 'r" where
  "row_or_none r = (case r of None \<Rightarrow> Inl ErrNoRows | Some v \<Rightarrow> Inr v)"

definition select_vault :: "int \<Rightarrow> db_state \<Rightarrow> db_error + vault" where
  "select_vault i d = row_or_none (find (\<lambda>v. v_id v = i) (vaults d))"

definition select_vault_by_name :: "string \<Rightarrow> db_state \<Rightarrow> db_error + vault" where
  "select_vault_by_name n d = row_or_none (find (\<lambda>v. v_name v = n) (vaults d))"

definition delete_vault :: "int \<Rightarrow> db_state \<Rightarrow> db_state" where
  "delete_vault i d = d\<lparr>vaults := filter (\<lambda>v. v_id v \<noteq> i) (vaults d)\<rparr>"

definition update_vault_size :: "int \<Rightarrow> int \<Rightarrow> db_state \<Rightarrow> db_state" where
  "update_vault_size i sizeGB d =
     d\<lparr>vaults := map (\<lambda>v. if v_id v = i then v\<lparr>v_size := sizeGB\<rparr> else v) (vaults d)\<rparr>"

section \<open>Table api_tokens\<close>

definition new_token_row :: "string \<Rightarrow> string \<Rightarrow> string \<Rightarrow> db_state \<Rightarrow> api_token" where
  "new_token_row now name hash d =
     \<lparr>t_id = token_seq d + 1, t_name = name, t_hash = hash, t_created = now, t_used = []\<rparr>"

definition insert_token ::
    "string \<Rightarrow> string \<Rightarrow> string \<Rightarrow> db_state \<Rightarrow> db_error + (int \<times> db_state)" where
  "insert_token now name hash d =
     (if list_ex (\<lambda>t. t_name t = name) (tokens d) then Inl (UniqueViolation ''api_tokens.name'')
      else if list_ex (\<lambda>t. t_hash t = hash) (tokens d)
        then Inl (UniqueViolation ''api_tokens.token_hash'')
      else let r = new_token_row now name hash d in
        Inr (t_id r, d\<lparr>tokens := tokens d @ [r], token_seq := t_id r\<rparr>))"

definition select_tokens :: "db_state \<Rightarrow> api_token list" where
  "select_tokens d = rev (sort_key (\<lambda>t. (t_created t, t_id t)) (tokens d))"

definition select_token_by_hash :: "string \<Rightarrow> db_state \<Rightarrow> db_error + api_token" where
  "select_token_by_hash h d = row_or_none (find (\<lambda>t. t_hash t = h) (tokens d))"

definition delete_token :: "int \<Rightarrow> db_state \<Rightarrow> db_state" where
  "delete_token i d = d\<lparr>tokens := filter (\<lambda>t. t_id t \<noteq> i) (tokens d)\<rparr>"

definition token_rows_affected :: "int \<Rightarrow> db_state \<Rightarrow> nat" where
  "token_rows_affected i d = length (filter (\<lambda>t. t_id t = i) (tokens d))"

definition touch_token :: "string \<Rightarrow> int \<Rightarrow> db_state \<Rightarrow> db_state" where
  "touch_token now i d =
     d\<lparr>tokens := map (\<lambda>t. if t_id t = i then t\<lparr>t_used := now\<rparr> else t) (tokens d)\<rparr>"

section \<open>The contract of a keyed table\<close>

text \<open>
  What the handlers rely on, whichever table they use: an insert appends one row under a key
  that no earlier row ever had, a delete removes exactly the rows of its key, and a lookup
  finds the row of a key.
\<close>

locale keyed_table =
  fixes rows :: "'s \<Rightarrow> 'r list"
    and key :: "'r \<Rightarrow> int"
    and seq :: "'s \<Rightarrow> int"
    and ins :: "'a \<Rightarrow> 's \<Rightarrow> db_error + (int \<times> 's)"
    and del :: "int \<Rightarrow> 's \<Rightarrow> 's"
  assumes ins_rows: "ins a s = Inr (i, s') \<Longrightarrow> \<exists>r. rows s' = rows s @ [r] \<and> key r = i"
    and ins_seq: "ins a s = Inr (i, s') \<Longrightarrow> i = seq s + 1 \<and> seq s' = i"
    and del_rows: "rows (del i s) = filter (\<lambda>r. key r \<noteq> i) (rows s)"
    and del_seq: "seq (del i s) = seq s"
begin

definition keys_ok :: "'s \<Rightarrow> bool" where
  "keys_ok s \<longleftrightarrow> distinct (map key (rows s)) \<and> (\<forall>r \<in> set (rows s). key r \<le> seq s)"

lemma keys_ok_ins:
  assumes "keys_ok s" and "ins a s = Inr (i, s')"
  shows "keys_ok s'"
proof -
  obtain r where r: "rows s' = rows s @ [r]" "key r = i" using ins_rows [OF assms(2)] by blast
  have i: "i = seq s + 1" "seq s' = i" using ins_seq [OF assms(2)] by auto
  from assms(1) have le: "\<forall>r \<in> set (rows s). key r \<le> seq s" by (simp add: keys_ok_def)
  then have "i \<notin> key ` set (rows s)" using i by force
  with assms(1) r i le show ?thesis by (force simp: keys_ok_def)
qed

lemma keys_ok_del: "keys_ok s \<Longrightarrow> keys_ok (del i s)"
  by (auto simp: keys_ok_def del_rows del_seq distinct_map_filter_key)

lemma find_ins_new:
  assumes "keys_ok s" and "ins a s = Inr (i, s')"
  shows "\<exists>r. rows s' = rows s @ [r] \<and> find (\<lambda>x. key x = i) (rows s') = Some r"
proof -
  obtain r where r: "rows s' = rows s @ [r]" "key r = i" using ins_rows [OF assms(2)] by blast
  have "find (\<lambda>x. key x = key r) (rows s') = Some r"
    using keys_ok_ins [OF assms] r by (intro find_distinct_key) (simp_all add: keys_ok_def)
  with r show ?thesis by blast
qed

lemma find_ins_other:
  assumes "ins a s = Inr (i, s')" and "j \<noteq> i"
  shows "find (\<lambda>x. key x = j) (rows s') = find (\<lambda>x. key x = j) (rows s)"
  using ins_rows [OF assms(1)] assms(2) by (auto simp: find_append split: option.splits)

lemma find_del_same: "find (\<lambda>x. key x = i) (rows (del i s)) = None"
  by (auto simp: del_rows find_None_iff)

lemma find_del_other: "j \<noteq> i \<Longrightarrow> find (\<lambda>x. key x = j) (rows (del i s)) = find (\<lambda>x. key x = j) (rows s)"
  unfolding del_rows by (rule find_filter_other) simp

text \<open>A key is never given out twice, whatever was deleted in between.\<close>

lemma ins_key_fresh:
  assumes "ins a s = Inr (i, s')" and "seq s' \<le> seq t" and "ins b t = Inr (j, t')"
  shows "i < j"
  using ins_seq [OF assms(1)] ins_seq [OF assms(3)] assms(2) by simp

end

text \<open>The two tables keep the contract.\<close>

definition insert_vault_args ::
    "string \<times> string \<times> string \<times> int \<times> string \<times> string \<Rightarrow> db_state \<Rightarrow> db_error + (int \<times> db_state)" where
  "insert_vault_args = (\<lambda>(now, name, path, sizeGB, mountPoint, mapperName).
     insert_vault now name path sizeGB mountPoint mapperName)"

definition insert_token_args :: "string \<times> string \<times> string \<Rightarrow> db_state \<Rightarrow> db_error + (int \<times> db_state)" where
  "insert_token_args = (\<lambda>(now, name, hash). insert_token now name hash)"

interpretation vt: keyed_table vaults v_id vault_seq insert_vault_args delete_vault
  by unfold_locales
    (auto simp: insert_vault_args_def insert_vault_def new_vault_row_def delete_vault_def Let_def
      split: if_splits)

interpretation tt: keyed_table tokens t_id token_seq insert_token_args delete_token
  by unfold_locales
    (auto simp: insert_token_args_def insert_token_def new_token_row_def delete_token_def Let_def
      split: if_splits)

section \<open>The invariant of the database\<close>

text \<open>The schema's keys and \<open>UNIQUE\<close> columns, and counters no smaller than any key.\<close>

definition db_ok :: "db_state \<Rightarrow> bool" where
  "db_ok d \<longleftrightarrow> vt.keys_ok d \<and> distinct (map v_name (vaults d))
     \<and> tt.keys_ok d \<and> distinct (map t_name (tokens d)) \<and> distinct (map t_hash (tokens d))"

lemmas keys_ok_defs = vt.keys_ok_def tt.keys_ok_def

lemma insert_vault_eq_args:
  "insert_vault now name path sizeGB mp mapper d = insert_vault_args (now, name, path, sizeGB, mp, mapper) d"
  by (simp add: insert_vault_args_def)

lemma insert_token_eq_args: "insert_token now name hash d = insert_token_args (now, name, hash) d"
  by (simp add: insert_token_args_def)

lemma insert_vault_Inr:
  "insert_vault now name path sizeGB mp mapper d = Inr (i, d') \<longleftrightarrow>
     (\<forall>v \<in> set (vaults d). v_name v \<noteq> name) \<and> i = vault_seq d + 1 \<and>
     d' = d\<lparr>vaults := vaults d @ [new_vault_row now name path sizeGB mp mapper d], vault_seq := vault_seq d + 1\<rparr>"
  by (auto simp: insert_vault_def new_vault_row_def Let_def list_ex_iff)

lemma insert_token_Inr:
  "insert_token now name hash d = Inr (i, d') \<longleftrightarrow>
     (\<forall>t \<in> set (tokens d). t_name t \<noteq> name \<and> t_hash t \<noteq> hash) \<and> i = token_seq d + 1 \<and>
     d' = d\<lparr>tokens := tokens d @ [new_token_row now name hash d], token_seq := token_seq d + 1\<rparr>"
  by (auto simp: insert_token_def new_token_row_def Let_def list_ex_iff)

lemma db_ok_empty: "db_ok empty_db"
  by (simp add: db_ok_def keys_ok_defs empty_db_def)

lemma db_ok_insert_vault:
  assumes "db_ok d" and "insert_vault now name path sizeGB mp mapper d = Inr (i, d')"
  shows "db_ok d'"
proof -
  have "vt.keys_ok d'"
    using assms vt.keys_ok_ins by (auto simp: db_ok_def insert_vault_eq_args)
  moreover have "distinct (map v_name (vaults d'))" "tokens d' = tokens d" "token_seq d' = token_seq d"
    using assms by (auto simp: db_ok_def insert_vault_Inr new_vault_row_def)
  ultimately show ?thesis using assms(1) by (simp add: db_ok_def tt.keys_ok_def)
qed

lemma db_ok_insert_token:
  assumes "db_ok d" and "insert_token now name hash d = Inr (i, d')"
  shows "db_ok d'"
proof -
  have "tt.keys_ok d'"
    using assms tt.keys_ok_ins by (auto simp: db_ok_def insert_token_eq_args)
  moreover have "distinct (map t_name (tokens d'))" "distinct (map t_hash (tokens d'))"
      "vaults d' = vaults d" "vault_seq d' = vault_seq d"
    using assms by (auto simp: db_ok_def insert_token_Inr new_token_row_def)
  ultimately show ?thesis using assms(1) by (simp add: db_ok_def vt.keys_ok_def)
qed

lemma db_ok_delete_vault: "db_ok d \<Longrightarrow> db_ok (delete_vault i d)"
  using vt.keys_ok_del [of d i]
  by (auto simp: db_ok_def delete_vault_def tt.keys_ok_def distinct_map_filter_key)

lemma db_ok_delete_token: "db_ok d \<Longrightarrow> db_ok (delete_token i d)"
  using tt.keys_ok_del [of d i]
  by (auto simp: db_ok_def delete_token_def vt.keys_ok_def distinct_map_filter_key)

lemma map_update_key [simp]:
  assumes "\<And>x. f (g x) = f x"
  shows "map f (map (\<lambda>x. if P x then g x else x) xs) = map f xs"
  using assms by simp

lemma db_ok_update_vault_size: "db_ok d \<Longrightarrow> db_ok (update_vault_size i n d)"
  by (auto simp: db_ok_def update_vault_size_def keys_ok_defs comp_def if_distrib cong: if_cong)

lemma db_ok_touch_token: "db_ok d \<Longrightarrow> db_ok (touch_token now i d)"
  by (auto simp: db_ok_def touch_token_def keys_ok_defs comp_def if_distrib cong: if_cong)

lemmas db_ok_intros = db_ok_empty db_ok_insert_vault db_ok_insert_token db_ok_delete_vault
  db_ok_delete_token db_ok_update_vault_size db_ok_touch_token

section \<open>Lookups\<close>

lemma set_select_vaults [simp]: "set (select_vaults d) = set (vaults d)"
  by (simp add: select_vaults_def)

lemma select_vaults_distinct: "db_ok d \<Longrightarrow> distinct (map v_id (select_vaults d))"
  by (auto simp: db_ok_def vt.keys_ok_def select_vaults_def distinct_map)

lemma select_vault_Inr:
  "select_vault i d = Inr v \<Longrightarrow> v \<in> set (vaults d) \<and> v_id v = i"
  by (auto simp: select_vault_def row_or_none_def dest: find_Some_mem split: option.splits)

lemma select_vault_iff:
  assumes "db_ok d"
  shows "select_vault i d = Inr v \<longleftrightarrow> v \<in> set (vaults d) \<and> v_id v = i"
proof
  assume "v \<in> set (vaults d) \<and> v_id v = i"
  with assms have "find (\<lambda>x. v_id x = v_id v) (vaults d) = Some v"
    by (intro find_distinct_key) (auto simp: db_ok_def vt.keys_ok_def)
  with \<open>v \<in> set (vaults d) \<and> v_id v = i\<close> show "select_vault i d = Inr v"
    by (simp add: select_vault_def row_or_none_def)
qed (rule select_vault_Inr)

lemma select_vault_NoRows:
  "select_vault i d = Inl e \<longleftrightarrow> e = ErrNoRows \<and> (\<forall>v \<in> set (vaults d). v_id v \<noteq> i)"
  by (auto simp: select_vault_def row_or_none_def find_None_iff split: option.splits
      dest: find_Some_mem)

lemma select_token_by_hash_iff:
  assumes "db_ok d"
  shows "select_token_by_hash h d = Inr t \<longleftrightarrow> t \<in> set (tokens d) \<and> t_hash t = h"
proof
  assume a: "t \<in> set (tokens d) \<and> t_hash t = h"
  with assms have "find (\<lambda>x. t_hash x = t_hash t) (tokens d) = Some t"
    by (intro find_distinct_key) (auto simp: db_ok_def)
  with a show "select_token_by_hash h d = Inr t"
    by (simp add: select_token_by_hash_def row_or_none_def)
next
  assume "select_token_by_hash h d = Inr t"
  then show "t \<in> set (tokens d) \<and> t_hash t = h"
    by (auto simp: select_token_by_hash_def row_or_none_def dest: find_Some_mem split: option.splits)
qed

lemma select_vault_insert:
  assumes "db_ok d" and "insert_vault now name path sizeGB mp mapper d = Inr (i, d')"
  shows "select_vault i d' = Inr (new_vault_row now name path sizeGB mp mapper d)"
  using select_vault_iff [OF db_ok_insert_vault [OF assms]] assms(2)
  by (simp add: insert_vault_Inr new_vault_row_def)

end
