(* ===== verification/Host.thy ===== *)
theory Host
  imports GoPath Store
begin

text \<open>
  The program's surroundings. Everything outside the repository (the kernel, \<open>cryptsetup\<close>,
  \<open>mount\<close>, \<open>mkfs.ext4\<close>, \<open>dd\<close>, the SQLite engine, the clock, the random source, the reader of a
  progress channel) is a parameter of the model: a record of functions over an abstract world
  \<open>'w\<close>, named after the call it answers. Nothing is assumed about these functions unless a
  theorem says so.

  The state of a run is the world, the program's database contents and the log of the calls
  with an effect, in the order the program made them. The log is a history variable: no
  definition reads it, theorems are stated over it.
\<close>

section \<open>Calls and their results\<close>

text \<open>\<open>os.IsNotExist\<close> singles out one kind of file-system error.\<close>

datatype os_error = NotExist (os_error_text: string) | OtherError (os_error_text: string)

text \<open>
  A subprocess: whether it is bound to the caller's context (\<open>exec.CommandContext\<close>) or not
  (\<open>exec.Command\<close>), its argument vector and its standard input.
\<close>

datatype cmd = Cmd (bounded: bool) (argv: "string list") (stdin: string)

text \<open>\<open>statfs(2)\<close>'s fields as the program uses them.\<close>

record statfs =
  f_bsize :: int
  f_blocks :: int
  f_bfree :: int
  f_bavail :: int

text \<open>The SQL statements the program executes; each can fail in the engine.\<close>

datatype sql_call = ExecInsertVault | LastInsertId | QueryVaults | QueryVault | QueryVaultByName
  | ExecDeleteVault | ExecUpdateVaultSize | ExecInsertToken | QueryTokens | QueryTokenByHash
  | ExecDeleteToken | RowsAffected | ExecTouchToken | PingDb | OpenConn | ExecPragma string
  | ExecCreateTable string

text \<open>
  What the loop of \<open>createFile\<close> sees of a \<open>dd\<close> process: the file sizes it reads at its
  ticks (\<open>None\<close> when the stat fails), then the end: the process exited, or the context was
  cancelled first.
\<close>

datatype dd_end = Exited "string option" | Cancelled string

text \<open>
  \<open>h_stat\<close> gives the size of an existing file; \<open>h_send\<close> says whether a progress channel
  takes a non-blocking send, \<open>h_deliver\<close> whether a blocking one goes through before its
  deadline or the shutdown.
\<close>

record 'w host =
  h_stat :: "string \<Rightarrow> 'w \<Rightarrow> os_error + int"
  h_mounts :: "'w \<Rightarrow> string"
  h_statfs :: "string \<Rightarrow> 'w \<Rightarrow> string + statfs"
  h_symlinks :: "string \<Rightarrow> 'w \<Rightarrow> string option"
  h_now :: "'w \<Rightarrow> int"
  h_timestamp :: "'w \<Rightarrow> string"
  h_run :: "cmd \<Rightarrow> 'w \<Rightarrow> (string \<times> string option) \<times> 'w"
  h_dd :: "string list \<Rightarrow> 'w \<Rightarrow> (string + (int option list \<times> dd_end)) \<times> 'w"
  h_mkdir :: "string \<Rightarrow> 'w \<Rightarrow> os_error option \<times> 'w"
  h_remove :: "string \<Rightarrow> 'w \<Rightarrow> os_error option \<times> 'w"
  h_chmod :: "string \<Rightarrow> int \<Rightarrow> 'w \<Rightarrow> os_error option \<times> 'w"
  h_temp :: "'w \<Rightarrow> (os_error + string) \<times> 'w"
  h_write :: "string \<Rightarrow> string \<Rightarrow> 'w \<Rightarrow> os_error option \<times> 'w"
  h_close :: "string \<Rightarrow> 'w \<Rightarrow> os_error option \<times> 'w"
  h_rand :: "nat \<Rightarrow> 'w \<Rightarrow> string option \<times> 'w"
  h_sql :: "sql_call \<Rightarrow> 'w \<Rightarrow> string option \<times> 'w"
  h_send :: "'w \<Rightarrow> bool \<times> 'w"
  h_deliver :: "'w \<Rightarrow> bool \<times> 'w"

section \<open>The state of a run\<close>

datatype event =
    Ran cmd bool
  | RanDd "string list" bool
  | MkdirAll string bool
  | Removed string bool
  | Chmod string int bool
  | TempCreated string
  | Wrote string string bool
  | Closed string bool
  | LogError string

record 'w sys =
  sworld :: "'w"
  sevents :: "event list"
  sdb :: db_state

definition emit :: "event \<Rightarrow> ('w, 'z) sys_scheme \<Rightarrow> ('w, 'z) sys_scheme" where
  "emit e s = s\<lparr>sevents := sevents s @ [e]\<rparr>"

definition step_world :: "'w \<Rightarrow> event \<Rightarrow> ('w, 'z) sys_scheme \<Rightarrow> ('w, 'z) sys_scheme" where
  "step_world w e s = s\<lparr>sworld := w, sevents := sevents s @ [e]\<rparr>"

definition run :: "'w host \<Rightarrow> cmd \<Rightarrow> ('w, 'z) sys_scheme \<Rightarrow> (string \<times> string option) \<times> ('w, 'z) sys_scheme" where
  "run H c s = (case h_run H c (sworld s) of
     ((out, err), w) \<Rightarrow> ((out, err), step_world w (Ran c (err = None)) s))"

definition dd_ok :: "string + (int option list \<times> dd_end) \<Rightarrow> bool" where
  "dd_ok r = (case r of Inr (_, Exited None) \<Rightarrow> True | _ \<Rightarrow> False)"

definition run_dd :: "'w host \<Rightarrow> string list \<Rightarrow> ('w, 'z) sys_scheme \<Rightarrow>
    (string + (int option list \<times> dd_end)) \<times> ('w, 'z) sys_scheme" where
  "run_dd H args s = (case h_dd H args (sworld s) of
     (r, w) \<Rightarrow> (r, step_world w (RanDd args (dd_ok r)) s))"

definition mkdir_all :: "'w host \<Rightarrow> string \<Rightarrow> ('w, 'z) sys_scheme \<Rightarrow> os_error option \<times> ('w, 'z) sys_scheme" where
  "mkdir_all H p s = (case h_mkdir H p (sworld s) of
     (err, w) \<Rightarrow> (err, step_world w (MkdirAll p (err = None)) s))"

definition remove :: "'w host \<Rightarrow> string \<Rightarrow> ('w, 'z) sys_scheme \<Rightarrow> os_error option \<times> ('w, 'z) sys_scheme" where
  "remove H p s = (case h_remove H p (sworld s) of
     (err, w) \<Rightarrow> (err, step_world w (Removed p (err = None)) s))"

definition chmod :: "'w host \<Rightarrow> string \<Rightarrow> int \<Rightarrow> ('w, 'z) sys_scheme \<Rightarrow> os_error option \<times> ('w, 'z) sys_scheme" where
  "chmod H p m s = (case h_chmod H p m (sworld s) of
     (err, w) \<Rightarrow> (err, step_world w (Chmod p m (err = None)) s))"

definition create_temp :: "'w host \<Rightarrow> ('w, 'z) sys_scheme \<Rightarrow> (os_error + string) \<times> ('w, 'z) sys_scheme" where
  "create_temp H s = (case h_temp H (sworld s) of
     (Inl e, w) \<Rightarrow> (Inl e, s\<lparr>sworld := w\<rparr>)
   | (Inr p, w) \<Rightarrow> (Inr p, step_world w (TempCreated p) s))"

definition write_file :: "'w host \<Rightarrow> string \<Rightarrow> string \<Rightarrow> ('w, 'z) sys_scheme \<Rightarrow> os_error option \<times> ('w, 'z) sys_scheme" where
  "write_file H p data s = (case h_write H p data (sworld s) of
     (err, w) \<Rightarrow> (err, step_world w (Wrote p data (err = None)) s))"

definition close_file :: "'w host \<Rightarrow> string \<Rightarrow> ('w, 'z) sys_scheme \<Rightarrow> os_error option \<times> ('w, 'z) sys_scheme" where
  "close_file H p s = (case h_close H p (sworld s) of
     (err, w) \<Rightarrow> (err, step_world w (Closed p (err = None)) s))"

text \<open>\<open>crypto/rand.Read\<close> of \<open>n\<close> bytes: \<open>None\<close> when the source fails.\<close>

definition rand_read :: "'w host \<Rightarrow> nat \<Rightarrow> ('w, 'z) sys_scheme \<Rightarrow> string option \<times> ('w, 'z) sys_scheme" where
  "rand_read H n s = (case h_rand H n (sworld s) of (r, w) \<Rightarrow> (r, s\<lparr>sworld := w\<rparr>))"

text \<open>The engine's own verdict on a statement, before its effect on the tables.\<close>

definition sql :: "'w host \<Rightarrow> sql_call \<Rightarrow> ('w, 'z) sys_scheme \<Rightarrow> string option \<times> ('w, 'z) sys_scheme" where
  "sql H c s = (case h_sql H c (sworld s) of (e, w) \<Rightarrow> (e, s\<lparr>sworld := w\<rparr>))"

text \<open>\<open>os.Stat(p)\<close> succeeds.\<close>

definition exists :: "'w host \<Rightarrow> string \<Rightarrow> ('w, 'z) sys_scheme \<Rightarrow> bool" where
  "exists H p s = is_ok (h_stat H p (sworld s))"

section \<open>What the calls do to the state\<close>

lemmas call_defs = run_def run_dd_def mkdir_all_def remove_def chmod_def create_temp_def
  write_file_def close_file_def rand_read_def sql_def emit_def step_world_def

lemma runD [trace_simps]:
  "run H c s = ((out, err), s') \<Longrightarrow>
     sevents s' = sevents s @ [Ran c (err = None)] \<and> sdb s' = sdb s \<and> sys.more s' = sys.more s"
  by (auto simp: run_def step_world_def split: prod.splits)

lemma run_ddD [trace_simps]:
  "run_dd H args s = (r, s') \<Longrightarrow>
     sevents s' = sevents s @ [RanDd args (dd_ok r)]
     \<and> sdb s' = sdb s \<and> sys.more s' = sys.more s"
  by (auto simp: run_dd_def step_world_def split: prod.splits)

lemma mkdir_allD [trace_simps]:
  "mkdir_all H p s = (err, s') \<Longrightarrow>
     sevents s' = sevents s @ [MkdirAll p (err = None)] \<and> sdb s' = sdb s \<and> sys.more s' = sys.more s"
  by (auto simp: mkdir_all_def step_world_def split: prod.splits)

lemma removeD [trace_simps]:
  "remove H p s = (err, s') \<Longrightarrow>
     sevents s' = sevents s @ [Removed p (err = None)] \<and> sdb s' = sdb s \<and> sys.more s' = sys.more s"
  by (auto simp: remove_def step_world_def split: prod.splits)

lemma chmodD [trace_simps]:
  "chmod H p m s = (err, s') \<Longrightarrow>
     sevents s' = sevents s @ [Chmod p m (err = None)] \<and> sdb s' = sdb s \<and> sys.more s' = sys.more s"
  by (auto simp: chmod_def step_world_def split: prod.splits)

lemma create_tempD [trace_simps]:
  "create_temp H s = (r, s') \<Longrightarrow>
     sevents s' = sevents s @ (case r of Inl _ \<Rightarrow> [] | Inr p \<Rightarrow> [TempCreated p])
     \<and> sdb s' = sdb s \<and> sys.more s' = sys.more s"
  by (auto simp: create_temp_def step_world_def split: prod.splits sum.splits)

lemma write_fileD [trace_simps]:
  "write_file H p data s = (err, s') \<Longrightarrow>
     sevents s' = sevents s @ [Wrote p data (err = None)] \<and> sdb s' = sdb s \<and> sys.more s' = sys.more s"
  by (auto simp: write_file_def step_world_def split: prod.splits)

lemma close_fileD [trace_simps]:
  "close_file H p s = (err, s') \<Longrightarrow>
     sevents s' = sevents s @ [Closed p (err = None)] \<and> sdb s' = sdb s \<and> sys.more s' = sys.more s"
  by (auto simp: close_file_def step_world_def split: prod.splits)

lemma rand_readD [trace_simps]:
  "rand_read H n s = (r, s') \<Longrightarrow> sevents s' = sevents s \<and> sdb s' = sdb s \<and> sys.more s' = sys.more s"
  by (auto simp: rand_read_def split: prod.splits)

lemma sqlD [trace_simps]:
  "sql H c s = (e, s') \<Longrightarrow> sevents s' = sevents s \<and> sdb s' = sdb s \<and> sys.more s' = sys.more s"
  by (auto simp: sql_def split: prod.splits)

lemma emit_simps [simp]:
  "sevents (emit e s) = sevents s @ [e]" "sdb (emit e s) = sdb s" "sworld (emit e s) = sworld s"
  "sys.more (emit e s) = sys.more s"
  by (simp_all add: emit_def)

lemmas call_dests = runD run_ddD mkdir_allD removeD chmodD create_tempD write_fileD close_fileD
  rand_readD sqlD

text \<open>The commands of a log, and the files it removes.\<close>

definition cmds :: "event list \<Rightarrow> cmd list" where
  "cmds es = List.map_filter (\<lambda>e. case e of Ran c _ \<Rightarrow> Some c | _ \<Rightarrow> None) es"

definition event_argv :: "event \<Rightarrow> string list" where
  "event_argv e = (case e of Ran c _ \<Rightarrow> argv c | RanDd a _ \<Rightarrow> a | _ \<Rightarrow> [])"

lemma event_argv_simps [simp]:
  "event_argv (Ran c ok) = argv c" "event_argv (RanDd a ok) = a" "event_argv (MkdirAll p ok) = []"
  "event_argv (Removed p ok) = []" "event_argv (Chmod p m ok) = []" "event_argv (TempCreated p) = []"
  "event_argv (Wrote p d ok) = []" "event_argv (Closed p ok) = []" "event_argv (LogError l) = []"
  by (simp_all add: event_argv_def)

end
