(* ===== verification/Database.thy ===== *)
theory Database
  imports Host
begin

text \<open>
  \<open>internal/db/db.go\<close>, the methods of \<open>DB\<close>: the statements of \<open>Store\<close> on the program's
  database, each of which the engine may refuse (\<open>sql\<close>), and the errors they return.
\<close>

definition CreateVault :: "'w host \<Rightarrow> string \<Rightarrow> string \<Rightarrow> int \<Rightarrow> string \<Rightarrow> string \<Rightarrow>
    ('w, 'z) sys_scheme \<Rightarrow> (db_error + vault) \<times> ('w, 'z) sys_scheme" where
  "CreateVault H name path sizeGB mountPoint mapperName s =
     (case sql H ExecInsertVault s of
        (Some e, s1) \<Rightarrow> (Inl (EngineError e), s1)
      | (None, s1) \<Rightarrow>
     (case insert_vault (h_timestamp H (sworld s1)) name path sizeGB mountPoint mapperName (sdb s1) of
        Inl e \<Rightarrow> (Inl e, s1)
      | Inr (i, d) \<Rightarrow>
     (case sql H LastInsertId (s1\<lparr>sdb := d\<rparr>) of
        (Some e, s2) \<Rightarrow> (Inl (EngineError e), s2)
      | (None, s2) \<Rightarrow>
          (Inr \<lparr>v_id = i, v_name = name, v_path = path, v_size = sizeGB, v_mount = mountPoint,
                v_mapper = mapperName, v_created = []\<rparr>, s2))))"

definition ListVaults :: "'w host \<Rightarrow> ('w, 'z) sys_scheme \<Rightarrow> (db_error + vault list) \<times> ('w, 'z) sys_scheme" where
  "ListVaults H s = (case sql H QueryVaults s of
     (Some e, s1) \<Rightarrow> (Inl (EngineError e), s1) | (None, s1) \<Rightarrow> (Inr (select_vaults (sdb s1)), s1))"

definition GetVault :: "'w host \<Rightarrow> int \<Rightarrow> ('w, 'z) sys_scheme \<Rightarrow> (db_error + vault) \<times> ('w, 'z) sys_scheme" where
  "GetVault H i s = (case sql H QueryVault s of
     (Some e, s1) \<Rightarrow> (Inl (EngineError e), s1) | (None, s1) \<Rightarrow> (select_vault i (sdb s1), s1))"

definition GetVaultByName :: "'w host \<Rightarrow> string \<Rightarrow> ('w, 'z) sys_scheme \<Rightarrow> (db_error + vault) \<times> ('w, 'z) sys_scheme" where
  "GetVaultByName H n s = (case sql H QueryVaultByName s of
     (Some e, s1) \<Rightarrow> (Inl (EngineError e), s1) | (None, s1) \<Rightarrow> (select_vault_by_name n (sdb s1), s1))"

definition DeleteVault :: "'w host \<Rightarrow> int \<Rightarrow> ('w, 'z) sys_scheme \<Rightarrow> db_error option \<times> ('w, 'z) sys_scheme" where
  "DeleteVault H i s = (case sql H ExecDeleteVault s of
     (Some e, s1) \<Rightarrow> (Some (EngineError e), s1) | (None, s1) \<Rightarrow> (None, s1\<lparr>sdb := delete_vault i (sdb s1)\<rparr>))"

definition UpdateVaultSize :: "'w host \<Rightarrow> int \<Rightarrow> int \<Rightarrow> ('w, 'z) sys_scheme \<Rightarrow> db_error option \<times> ('w, 'z) sys_scheme" where
  "UpdateVaultSize H i sizeGB s = (case sql H ExecUpdateVaultSize s of
     (Some e, s1) \<Rightarrow> (Some (EngineError e), s1)
   | (None, s1) \<Rightarrow> (None, s1\<lparr>sdb := update_vault_size i sizeGB (sdb s1)\<rparr>))"

definition CreateAPIToken :: "'w host \<Rightarrow> string \<Rightarrow> string \<Rightarrow> ('w, 'z) sys_scheme \<Rightarrow>
    (db_error + api_token) \<times> ('w, 'z) sys_scheme" where
  "CreateAPIToken H name tokenHash s =
     (case sql H ExecInsertToken s of
        (Some e, s1) \<Rightarrow> (Inl (EngineError e), s1)
      | (None, s1) \<Rightarrow>
     (case insert_token (h_timestamp H (sworld s1)) name tokenHash (sdb s1) of
        Inl e \<Rightarrow> (Inl e, s1)
      | Inr (i, d) \<Rightarrow>
     (case sql H LastInsertId (s1\<lparr>sdb := d\<rparr>) of
        (Some e, s2) \<Rightarrow> (Inl (EngineError e), s2)
      | (None, s2) \<Rightarrow>
          (Inr \<lparr>t_id = i, t_name = name, t_hash = tokenHash, t_created = [], t_used = []\<rparr>, s2))))"

definition ListAPITokens :: "'w host \<Rightarrow> ('w, 'z) sys_scheme \<Rightarrow> (db_error + api_token list) \<times> ('w, 'z) sys_scheme" where
  "ListAPITokens H s = (case sql H QueryTokens s of
     (Some e, s1) \<Rightarrow> (Inl (EngineError e), s1) | (None, s1) \<Rightarrow> (Inr (select_tokens (sdb s1)), s1))"

definition GetAPITokenByHash :: "'w host \<Rightarrow> string \<Rightarrow> ('w, 'z) sys_scheme \<Rightarrow> (db_error + api_token) \<times> ('w, 'z) sys_scheme" where
  "GetAPITokenByHash H h s = (case sql H QueryTokenByHash s of
     (Some e, s1) \<Rightarrow> (Inl (EngineError e), s1) | (None, s1) \<Rightarrow> (select_token_by_hash h (sdb s1), s1))"

text \<open>\<open>DeleteAPIToken\<close> returns the count together with an error of \<open>RowsAffected\<close>.\<close>

definition DeleteAPIToken :: "'w host \<Rightarrow> int \<Rightarrow> ('w, 'z) sys_scheme \<Rightarrow> (bool \<times> db_error option) \<times> ('w, 'z) sys_scheme" where
  "DeleteAPIToken H i s = (case sql H ExecDeleteToken s of
     (Some e, s1) \<Rightarrow> ((False, Some (EngineError e)), s1)
   | (None, s1) \<Rightarrow>
       (let n = token_rows_affected i (sdb s1) in
        case sql H RowsAffected (s1\<lparr>sdb := delete_token i (sdb s1)\<rparr>) of
          (Some e, s2) \<Rightarrow> ((False, Some (EngineError e)), s2)
        | (None, s2) \<Rightarrow> ((0 < n, None), s2)))"

definition TouchAPIToken :: "'w host \<Rightarrow> int \<Rightarrow> ('w, 'z) sys_scheme \<Rightarrow> db_error option \<times> ('w, 'z) sys_scheme" where
  "TouchAPIToken H i s = (case sql H ExecTouchToken s of
     (Some e, s1) \<Rightarrow> (Some (EngineError e), s1)
   | (None, s1) \<Rightarrow> (None, s1\<lparr>sdb := touch_token (h_timestamp H (sworld s1)) i (sdb s1)\<rparr>))"

definition Ping :: "'w host \<Rightarrow> ('w, 'z) sys_scheme \<Rightarrow> db_error option \<times> ('w, 'z) sys_scheme" where
  "Ping H s = (case sql H PingDb s of (Some e, s1) \<Rightarrow> (Some (EngineError e), s1) | (None, s1) \<Rightarrow> (None, s1))"

text \<open>
  \<open>Open\<close>: connect, then \<open>migrate\<close>, statement by statement. \<open>file\<close> is what the database file
  holds, \<open>None\<close> when it is new.
\<close>

fun exec_pragmas :: "'w host \<Rightarrow> string list \<Rightarrow> ('w, 'z) sys_scheme \<Rightarrow> string option \<times> ('w, 'z) sys_scheme" where
  "exec_pragmas H [] s = (None, s)"
| "exec_pragmas H (p # ps) s =
     (case sql H (ExecPragma p) s of
        (Some e, s1) \<Rightarrow> (Some (''pragma '' @ quoted p @ '': '' @ e), s1)
      | (None, s1) \<Rightarrow> exec_pragmas H ps s1)"

definition run_migrate :: "'w host \<Rightarrow> db_state option \<Rightarrow> ('w, 'z) sys_scheme \<Rightarrow> string option \<times> ('w, 'z) sys_scheme" where
  "run_migrate H file s =
     (case exec_pragmas H [''PRAGMA journal_mode=WAL'', ''PRAGMA synchronous=NORMAL''] s of
        (Some e, s1) \<Rightarrow> (Some e, s1)
      | (None, s1) \<Rightarrow>
     (case sql H (ExecCreateTable ''vaults'') s1 of
        (Some e, s2) \<Rightarrow> (Some e, s2)
      | (None, s2) \<Rightarrow>
     (case sql H (ExecCreateTable ''api_tokens'') s2 of
        (Some e, s3) \<Rightarrow> (Some e, s3)
      | (None, s3) \<Rightarrow> (None, s3\<lparr>sdb := migrate file\<rparr>))))"

definition Open :: "'w host \<Rightarrow> db_state option \<Rightarrow> ('w, 'z) sys_scheme \<Rightarrow> string option \<times> ('w, 'z) sys_scheme" where
  "Open H file s =
     (case sql H OpenConn s of
        (Some e, s1) \<Rightarrow> (Some (''open: '' @ e), s1)
      | (None, s1) \<Rightarrow>
     (case run_migrate H file s1 of
        (Some e, s2) \<Rightarrow> (Some (''migrate: '' @ e), s2)
      | (None, s2) \<Rightarrow> (None, s2)))"

section \<open>What the methods do to the state\<close>

lemmas db_op_defs = CreateVault_def ListVaults_def GetVault_def GetVaultByName_def DeleteVault_def
  UpdateVaultSize_def CreateAPIToken_def ListAPITokens_def GetAPITokenByHash_def DeleteAPIToken_def
  TouchAPIToken_def Ping_def

lemma GetVaultD:
  "GetVault H i s = (r, s') \<Longrightarrow> sevents s' = sevents s \<and> sdb s' = sdb s \<and> sys.more s' = sys.more s
     \<and> (\<forall>v. r = Inr v \<longrightarrow> select_vault i (sdb s) = Inr v)"
  by (auto simp: GetVault_def split: prod.splits option.splits dest!: sqlD)

lemma GetVaultByNameD:
  "GetVaultByName H n s = (r, s') \<Longrightarrow> sevents s' = sevents s \<and> sdb s' = sdb s \<and> sys.more s' = sys.more s
     \<and> (\<forall>v. r = Inr v \<longrightarrow> select_vault_by_name n (sdb s) = Inr v)"
  by (auto simp: GetVaultByName_def split: prod.splits option.splits dest!: sqlD)

lemma ListVaultsD:
  "ListVaults H s = (r, s') \<Longrightarrow> sevents s' = sevents s \<and> sdb s' = sdb s \<and> sys.more s' = sys.more s
     \<and> (\<forall>vs. r = Inr vs \<longrightarrow> vs = select_vaults (sdb s))"
  by (auto simp: ListVaults_def split: prod.splits option.splits dest!: sqlD)

lemma GetAPITokenByHashD:
  "GetAPITokenByHash H h s = (r, s') \<Longrightarrow> sevents s' = sevents s \<and> sdb s' = sdb s \<and> sys.more s' = sys.more s
     \<and> (\<forall>t. r = Inr t \<longrightarrow> select_token_by_hash h (sdb s) = Inr t)"
  by (auto simp: GetAPITokenByHash_def split: prod.splits option.splits dest!: sqlD)

lemma ListAPITokensD:
  "ListAPITokens H s = (r, s') \<Longrightarrow> sevents s' = sevents s \<and> sdb s' = sdb s \<and> sys.more s' = sys.more s
     \<and> (\<forall>ts. r = Inr ts \<longrightarrow> ts = select_tokens (sdb s))"
  by (auto simp: ListAPITokens_def split: prod.splits option.splits dest!: sqlD)

lemma DeleteVaultD:
  "DeleteVault H i s = (r, s') \<Longrightarrow> sevents s' = sevents s \<and> sys.more s' = sys.more s
     \<and> sdb s' = (if r = None then delete_vault i (sdb s) else sdb s)"
  by (auto simp: DeleteVault_def split: prod.splits option.splits dest!: sqlD)

lemma UpdateVaultSizeD:
  "UpdateVaultSize H i n s = (r, s') \<Longrightarrow> sevents s' = sevents s \<and> sys.more s' = sys.more s
     \<and> sdb s' = (if r = None then update_vault_size i n (sdb s) else sdb s)"
  by (auto simp: UpdateVaultSize_def split: prod.splits option.splits dest!: sqlD)

lemma CreateVaultD:
  "CreateVault H name path sizeGB mp mapper s = (r, s') \<Longrightarrow>
     sevents s' = sevents s \<and> sys.more s' = sys.more s
     \<and> (sdb s' = sdb s \<and> \<not> is_ok r
        \<or> (\<exists>now i. insert_vault now name path sizeGB mp mapper (sdb s) = Inr (i, sdb s')
             \<and> (\<forall>v. r = Inr v \<longrightarrow> v = \<lparr>v_id = i, v_name = name, v_path = path, v_size = sizeGB,
                  v_mount = mp, v_mapper = mapper, v_created = []\<rparr>)))"
  by (auto simp: CreateVault_def split: prod.splits option.splits sum.splits dest!: sqlD)

lemma CreateVault_Inr:
  "CreateVault H name path sizeGB mp mapper s = (Inr v, s') \<Longrightarrow>
     \<exists>now. insert_vault now name path sizeGB mp mapper (sdb s) = Inr (v_id v, sdb s')
       \<and> v_name v = name \<and> v_path v = path \<and> v_mount v = mp \<and> v_mapper v = mapper \<and> v_size v = sizeGB"
  by (auto dest!: CreateVaultD)

text \<open>The \<open>UNIQUE\<close> columns make \<open>CreateVault\<close> fail on a taken name, without a trace.\<close>

lemma CreateVault_taken:
  assumes "v \<in> set (vaults (sdb s))"
  shows "\<exists>e. CreateVault H (v_name v) path sizeGB mp mapper s = (Inl e, snd (CreateVault H (v_name v) path sizeGB mp mapper s))
     \<and> sdb (snd (CreateVault H (v_name v) path sizeGB mp mapper s)) = sdb s"
proof -
  obtain r s' where c: "CreateVault H (v_name v) path sizeGB mp mapper s = (r, s')" by fastforce
  with CreateVaultD [OF c] assms show ?thesis
    by (cases r) (auto simp: insert_vault_Inr)
qed

lemma db_ok_CreateVault: "CreateVault H n p z m k s = (r, s') \<Longrightarrow> db_ok (sdb s) \<Longrightarrow> db_ok (sdb s')"
  by (auto dest!: CreateVaultD intro: db_ok_insert_vault)

lemma db_ok_DeleteVault: "DeleteVault H i s = (r, s') \<Longrightarrow> db_ok (sdb s) \<Longrightarrow> db_ok (sdb s')"
  by (auto dest!: DeleteVaultD intro: db_ok_delete_vault)

lemma db_ok_UpdateVaultSize: "UpdateVaultSize H i n s = (r, s') \<Longrightarrow> db_ok (sdb s) \<Longrightarrow> db_ok (sdb s')"
  by (auto dest!: UpdateVaultSizeD intro: db_ok_update_vault_size)

lemma CreateAPITokenD:
  "CreateAPIToken H name hash s = (r, s') \<Longrightarrow>
     sevents s' = sevents s \<and> sys.more s' = sys.more s
     \<and> (sdb s' = sdb s \<and> \<not> is_ok r
        \<or> (\<exists>now i. insert_token now name hash (sdb s) = Inr (i, sdb s')
             \<and> (\<forall>t. r = Inr t \<longrightarrow> t = \<lparr>t_id = i, t_name = name, t_hash = hash, t_created = [], t_used = []\<rparr>)))"
  by (auto simp: CreateAPIToken_def split: prod.splits option.splits sum.splits dest!: sqlD)

lemma DeleteAPITokenD:
  "DeleteAPIToken H i s = (r, s') \<Longrightarrow> sevents s' = sevents s \<and> sys.more s' = sys.more s
     \<and> (sdb s' = sdb s \<and> fst r = False \<and> snd r \<noteq> None
        \<or> sdb s' = delete_token i (sdb s) \<and> (fst r \<longrightarrow> (\<exists>t \<in> set (tokens (sdb s)). t_id t = i))
           \<and> (snd r = None \<and> \<not> fst r \<longrightarrow> (\<forall>t \<in> set (tokens (sdb s)). t_id t \<noteq> i)))"
  by (auto simp: DeleteAPIToken_def token_rows_affected_def Let_def filter_empty_conv
      split: prod.splits option.splits dest!: sqlD)

lemma TouchAPITokenD:
  "TouchAPIToken H i s = (r, s') \<Longrightarrow> sevents s' = sevents s \<and> sys.more s' = sys.more s
     \<and> (sdb s' = sdb s \<or> (\<exists>now. sdb s' = touch_token now i (sdb s)))"
  by (auto simp: TouchAPIToken_def split: prod.splits option.splits dest!: sqlD)

lemma exec_pragmasD:
  "exec_pragmas H ps s = (r, s') \<Longrightarrow> sevents s' = sevents s \<and> sdb s' = sdb s \<and> sys.more s' = sys.more s"
  by (induction ps arbitrary: s) (fastforce split: prod.splits option.splits dest: sqlD)+

text \<open>Opening an existing database keeps its rows; a new one starts empty.\<close>

lemma OpenD:
  "Open H file s = (r, s') \<Longrightarrow> sevents s' = sevents s \<and> sys.more s' = sys.more s
     \<and> sdb s' = (if r = None then migrate file else sdb s)"
  by (auto simp: Open_def run_migrate_def split: prod.splits option.splits dest!: sqlD exec_pragmasD)

lemmas db_dests = GetVaultD GetVaultByNameD ListVaultsD GetAPITokenByHashD ListAPITokensD DeleteVaultD
  UpdateVaultSizeD CreateVaultD CreateAPITokenD DeleteAPITokenD TouchAPITokenD

end
