(* ===== verification/GoFloat.thy ===== *)
theory GoFloat
  imports Complex_Main GoLib
begin

text \<open>
  Go's \<open>float64\<close> as far as the program uses it: values read from text or JSON, compared with a
  constant and converted to an integer. A finite value is the rational number it denotes; the
  rounding of products is not modelled.
\<close>

datatype gofloat = Fin rat | PosInf | NegInf | NaN

text \<open>The ordered comparisons are false on \<open>NaN\<close>.\<close>

fun flt_less :: "gofloat \<Rightarrow> gofloat \<Rightarrow> bool" where
  "flt_less NaN _ = False"
| "flt_less _ NaN = False"
| "flt_less (Fin x) (Fin y) = (x < y)"
| "flt_less NegInf y = (y \<noteq> NegInf)"
| "flt_less x NegInf = False"
| "flt_less PosInf y = False"
| "flt_less x PosInf = True"

fun flt_le :: "gofloat \<Rightarrow> gofloat \<Rightarrow> bool" where
  "flt_le NaN _ = False"
| "flt_le _ NaN = False"
| "flt_le (Fin x) (Fin y) = (x \<le> y)"
| "flt_le NegInf y = True"
| "flt_le x NegInf = False"
| "flt_le PosInf y = (y = PosInf)"
| "flt_le x PosInf = True"

text \<open>
  Conversion to \<open>int64\<close> truncates towards zero. Where the value does not fit, the language
  leaves the result to the implementation: \<open>oor\<close> stands for it.
\<close>

definition trunc_rat :: "rat \<Rightarrow> int" where
  "trunc_rat x = (if 0 \<le> x then floor x else - floor (- x))"

definition float_to_int :: "(gofloat \<Rightarrow> int) \<Rightarrow> gofloat \<Rightarrow> int" where
  "float_to_int oor x =
     (case x of Fin q \<Rightarrow> if in_int64 (trunc_rat q) then trunc_rat q else oor x | _ \<Rightarrow> oor x)"

lemma trunc_rat_of_int [simp]: "trunc_rat (of_int n) = n"
  by (simp add: trunc_rat_def)

lemma float_to_int_of_int: "in_int64 n \<Longrightarrow> float_to_int oor (Fin (of_int n)) = n"
  by (simp add: float_to_int_def)

lemma trunc_rat_mono: "x \<le> y \<Longrightarrow> trunc_rat x \<le> trunc_rat y"
  by (auto simp: trunc_rat_def floor_mono) (meson le_floor_iff neg_le_0_iff_le nle_le of_int_0_le_iff
      order_trans neg_0_le_iff_le zero_le_floor floor_mono)

end
