(* ===== verification/LuksDump.thy ===== *)
theory LuksDump
  imports GoFloat Host
begin

text \<open>
  \<open>internal/vault/luksdump.go\<close>: reading a LUKS header through \<open>cryptsetup luksDump\<close>. The two
  regular expressions of the source are scanners anchored at line starts; \<open>encoding/json\<close> on
  the LUKS2 metadata is the parameter \<open>unmarshal\<close>, from the text to the fields the source
  declares. A Go map is an association list with distinct keys.
\<close>

section \<open>Header summaries\<close>

record keyslot =
  ks_index :: int
  ks_type :: string
  ks_status :: string

record luks_details =
  d_version :: string
  d_cipher :: string
  d_hash :: string
  d_bits :: int
  d_uuid :: string
  d_slots :: "keyslot list"

section \<open>Fields of the text dump\<close>

text \<open>The class \<open>\s\<close> of Go's regular expressions.\<close>

definition is_ws :: "char \<Rightarrow> bool" where
  "is_ws c \<longleftrightarrow> c \<in> set [CHR 0x09, CHR 0x0A, CHR 0x0C, CHR 0x0D, CHR 0x20]"

text \<open>All matches of a pattern anchored at a line start (\<open>(?m)^\<close>), in order.\<close>

fun line_matches :: "(string \<Rightarrow> 'a option) \<Rightarrow> bool \<Rightarrow> string \<Rightarrow> 'a list" where
  "line_matches f bol [] = (if bol then (case f [] of Some v \<Rightarrow> [v] | None \<Rightarrow> []) else [])"
| "line_matches f bol (c # cs) =
     (if bol then (case f (c # cs) of Some v \<Rightarrow> [v] | None \<Rightarrow> []) else [])
     @ line_matches f (c = nl) cs"

text \<open>\<open>label:\s+(\S+)\<close> at the head of a text: the captured value.\<close>

definition field_at :: "string \<Rightarrow> string \<Rightarrow> string option" where
  "field_at label t =
     (if prefix (label @ '':'') t then
        (let r = drop (length label + 1) t; v = dropWhile is_ws r in
         if r \<noteq> [] \<and> is_ws (hd r) \<and> v \<noteq> [] then Some (takeWhile (\<lambda>c. \<not> is_ws c) v) else None)
      else None)"

definition dumpField :: "string \<Rightarrow> string \<Rightarrow> string" where
  "dumpField txt label = (case line_matches (field_at label) True txt of [] \<Rightarrow> [] | v # _ \<Rightarrow> v)"

section \<open>LUKS2 metadata\<close>

datatype jvalue = JNum rat | JStr string | JOther

record luks2_slot =
  l2_key_size :: jvalue
  l2_kdf_type :: string

record luks2_header =
  h2_keyslots :: "(string \<times> luks2_slot) list"
  h2_digests :: "(string \<times> string) list"
  h2_segments :: "(string \<times> string) list"

text \<open>What the source takes from outside: the JSON decoder and the out-of-range conversion.\<close>

record luks_lib =
  unmarshal :: "string \<Rightarrow> string + luks2_header"
  out_of_range :: "gofloat \<Rightarrow> int"

definition atoiSafe :: "string \<Rightarrow> int" where
  "atoiSafe s = fst (atoi (trim_space s))"

definition asInt :: "luks_lib \<Rightarrow> jvalue \<Rightarrow> int" where
  "asInt L v = (case v of JNum x \<Rightarrow> float_to_int (out_of_range L) (Fin x)
                | JStr s \<Rightarrow> atoiSafe s | JOther \<Rightarrow> 0)"

definition sortedIndexes :: "(string \<times> 'v) list \<Rightarrow> int list" where
  "sortedIndexes m = sort (List.map_filter (\<lambda>(k, _). atoi_opt k) m)"

text \<open>A missing key of a Go map reads as the zero value.\<close>

definition map_get :: "'v \<Rightarrow> (string \<times> 'v) list \<Rightarrow> string \<Rightarrow> 'v" where
  "map_get zero m k = (case map_of m k of Some v \<Rightarrow> v | None \<Rightarrow> zero)"

definition zero_slot :: luks2_slot where
  "zero_slot = \<lparr>l2_key_size = JOther, l2_kdf_type = []\<rparr>"

definition luks2_step :: "luks_lib \<Rightarrow> luks2_header \<Rightarrow> luks_details \<Rightarrow> int \<Rightarrow> luks_details" where
  "luks2_step L hdr d idx =
     (let ks = map_get zero_slot (h2_keyslots hdr) (itoa idx);
          d1 = d\<lparr>d_slots := d_slots d @ [\<lparr>ks_index = idx, ks_type = l2_kdf_type ks, ks_status = ''valid''\<rparr>]\<rparr>
      in if d_bits d1 = 0 then d1\<lparr>d_bits := wrap64 (asInt L (l2_key_size ks) * 8)\<rparr> else d1)"

definition fill_header :: "luks_lib \<Rightarrow> luks2_header \<Rightarrow> luks_details \<Rightarrow> luks_details" where
  "fill_header L hdr d =
     (let d1 = foldl (luks2_step L hdr) d (sortedIndexes (h2_keyslots hdr));
          d2 = (case sortedIndexes (h2_digests hdr) of [] \<Rightarrow> d1
                | idx # _ \<Rightarrow> d1\<lparr>d_hash := map_get [] (h2_digests hdr) (itoa idx)\<rparr>)
      in (case sortedIndexes (h2_segments hdr) of [] \<Rightarrow> d2
          | idx # _ \<Rightarrow> d2\<lparr>d_cipher := map_get [] (h2_segments hdr) (itoa idx)\<rparr>))"

definition parseLUKS2Metadata :: "luks_lib \<Rightarrow> luks_details \<Rightarrow> string \<Rightarrow> string + luks_details" where
  "parseLUKS2Metadata L d raw =
     (case unmarshal L raw of
        Inl e \<Rightarrow> Inl (''parse LUKS2 metadata: '' @ e)
      | Inr hdr \<Rightarrow> Inr (fill_header L hdr d))"

section \<open>LUKS1 text\<close>

text \<open>\<open>Key Slot (\d+): (ENABLED|DISABLED)\<close> at the head of a text.\<close>

definition slot_at :: "string \<Rightarrow> (string \<times> string) option" where
  "slot_at t =
     (if prefix ''Key Slot '' t then
        (let r = drop 9 t; ds = takeWhile is_digit r; q = dropWhile is_digit r in
         if ds = [] then None
         else if prefix '': ENABLED'' q then Some (ds, ''ENABLED'')
         else if prefix '': DISABLED'' q then Some (ds, ''DISABLED'')
         else None)
      else None)"

definition to_lower :: "string \<Rightarrow> string" where
  "to_lower s = map (\<lambda>c. if 65 \<le> (of_char c :: nat) \<and> (of_char c :: nat) \<le> 90
     then char_of ((of_char c :: nat) + 32) else c) s"

definition parseLUKS1 :: "luks_details \<Rightarrow> string \<Rightarrow> luks_details" where
  "parseLUKS1 d txt =
     (let name = dumpField txt ''Cipher name''; mode = dumpField txt ''Cipher mode'' in
      d\<lparr>d_hash := dumpField txt ''Hash spec'',
        d_bits := atoiSafe (dumpField txt ''MK bits''),
        d_cipher := trim_suffix (name @ ''-'' @ mode) ''-'',
        d_slots := d_slots d @ map (\<lambda>(ds, st). \<lparr>ks_index = atoiSafe ds, ks_type = ''pbkdf2'',
            ks_status = to_lower st\<rparr>) (line_matches slot_at True txt)\<rparr>)"

section \<open>DumpDetails\<close>

definition fillLUKS2 :: "'w host \<Rightarrow> luks_lib \<Rightarrow> luks_details \<Rightarrow> string \<Rightarrow> ('w, 'z) sys_scheme \<Rightarrow>
    (string + luks_details) \<times> ('w, 'z) sys_scheme" where
  "fillLUKS2 H L d path s =
     (case run H (Cmd False [''cryptsetup'', ''luksDump'', ''--dump-json-metadata'', path] []) s of
        ((out, Some _), s1) \<Rightarrow> (Inl (''luksDump --dump-json-metadata: '' @ trim_space out), s1)
      | ((out, None), s1) \<Rightarrow> (parseLUKS2Metadata L d out, s1))"

definition DumpDetails :: "'w host \<Rightarrow> luks_lib \<Rightarrow> vault \<Rightarrow> ('w, 'z) sys_scheme \<Rightarrow>
    (string + luks_details) \<times> ('w, 'z) sys_scheme" where
  "DumpDetails H L v s =
     (case run H (Cmd False [''cryptsetup'', ''luksDump'', v_path v] []) s of
        ((out, Some _), s1) \<Rightarrow> (Inl (''luksDump: '' @ trim_space out), s1)
      | ((out, None), s1) \<Rightarrow>
          (let d = \<lparr>d_version = dumpField out ''Version'', d_cipher = [], d_hash = [], d_bits = 0,
                    d_uuid = dumpField out ''UUID'', d_slots = []\<rparr> in
           if d_version d = ''2'' then fillLUKS2 H L d (v_path v) s1
           else if d_version d = ''1'' then (Inr (parseLUKS1 d out), s1)
           else (Inl (''unrecognized LUKS header version '' @ quoted (d_version d)), s1)))"

section \<open>Lemmas: scanning\<close>

definition unlines :: "string list \<Rightarrow> string" where
  "unlines ls = concat (map (\<lambda>l. l @ [nl]) ls)"

lemma unlines_simps [simp]: "unlines [] = []" "unlines (l # ls) = l @ nl # unlines ls"
  by (simp_all add: unlines_def)

lemma line_matches_skip:
  "nl \<notin> set l \<Longrightarrow> line_matches f False (l @ nl # t) = line_matches f True t"
  by (induction l) auto

lemma line_matches_line:
  assumes "nl \<notin> set l"
  shows "line_matches f True (l @ nl # t) = (case f (l @ nl # t) of Some v \<Rightarrow> [v] | None \<Rightarrow> [])
    @ line_matches f True t"
  using assms line_matches_skip [of _ f t] by (cases l) auto

lemma field_at_other:
  assumes "\<not> prefix (label @ '':'') l" and "nl \<notin> set label"
  shows "field_at label (l @ nl # t) = None"
proof -
  have "nl \<notin> set (label @ '':'')" using assms(2) by simp
  then have "\<not> prefix (label @ '':'') (l @ nl # t)"
    using assms(1) by (blast dest: prefix_stop)
  then show ?thesis by (simp add: field_at_def)
qed

lemma is_ws_nl [simp]: "is_ws nl"
  by (simp add: is_ws_def)

lemma takeWhile_word: "\<forall>c \<in> set v. \<not> is_ws c \<Longrightarrow> takeWhile (\<lambda>c. \<not> is_ws c) (v @ nl # t) = v"
  by (induction v) auto

lemma dropWhile_pad: "\<forall>c \<in> set pad. is_ws c \<Longrightarrow> dropWhile is_ws (pad @ t) = dropWhile is_ws t"
  by (induction pad) auto

lemma field_at_hit:
  assumes "\<forall>c \<in> set pad. is_ws c" "pad \<noteq> []" "v \<noteq> []" "\<forall>c \<in> set v. \<not> is_ws c"
  shows "field_at label (label @ '':'' @ pad @ v @ nl # t) = Some v"
proof -
  have "dropWhile is_ws (pad @ v @ nl # t) = v @ nl # t"
    using assms by (cases v) (simp_all add: dropWhile_pad)
  moreover have "is_ws (hd (pad @ v @ nl # t))" using assms by (cases pad) auto
  ultimately show ?thesis
    using assms(4) by (simp add: field_at_def Let_def takeWhile_word del: dropWhile_eq_Nil_conv)
qed

lemma line_matches_other:
  assumes "nl \<notin> set l" and "\<not> prefix (label @ '':'') l" and "nl \<notin> set label"
  shows "line_matches (field_at label) True (l @ nl # t) = line_matches (field_at label) True t"
  unfolding line_matches_line [OF assms(1)] field_at_other [OF assms(2,3)] by simp

lemma dumpField_lines:
  assumes "\<forall>l \<in> set ls. nl \<notin> set l \<and> \<not> prefix (label @ '':'') l" and "nl \<notin> set label"
  shows "line_matches (field_at label) True (unlines ls @ t) = line_matches (field_at label) True t"
  using assms(1)
proof (induction ls)
  case Nil
  show ?case by simp
next
  case (Cons l ls)
  have "nl \<notin> set l" "\<not> prefix (label @ '':'') l" using Cons.prems by auto
  note other = line_matches_other [OF this assms(2), of "unlines ls @ t"]
  have "\<forall>l \<in> set ls. nl \<notin> set l \<and> \<not> prefix (label @ '':'') l" using Cons.prems by auto
  note ih = Cons.IH [OF this]
  have "unlines (l # ls) @ t = l @ nl # (unlines ls @ t)" by simp
  then show ?case by (simp only: other ih)
qed

lemma dumpField_first:
  assumes "\<forall>l \<in> set ls. nl \<notin> set l \<and> \<not> prefix (label @ '':'') l" and "nl \<notin> set label"
    and "\<forall>c \<in> set pad. is_ws c \<and> c \<noteq> nl" "pad \<noteq> []" "v \<noteq> []" "\<forall>c \<in> set v. \<not> is_ws c"
  shows "dumpField (unlines ls @ label @ '':'' @ pad @ v @ nl # t) label = v"
proof -
  have "nl \<notin> set pad" using assms(3) by blast
  moreover have "nl \<notin> set v" using assms(6) is_ws_nl by blast
  ultimately have n: "nl \<notin> set (label @ '':'' @ pad @ v)" using assms(2) by simp
  have "\<forall>c \<in> set pad. is_ws c" using assms(3) by blast
  note hit = field_at_hit [OF this assms(4-6), of label t]
  have "line_matches (field_at label) True ((label @ '':'' @ pad @ v) @ nl # t) =
      v # line_matches (field_at label) True t"
    unfolding line_matches_line [OF n] using hit by simp
  then have "line_matches (field_at label) True (unlines ls @ label @ '':'' @ pad @ v @ nl # t) =
      v # line_matches (field_at label) True t"
    by (simp only: dumpField_lines [OF assms(1,2)] append_assoc)
  then show ?thesis by (simp only: dumpField_def list.case)
qed

lemma dumpField_absent:
  assumes "\<forall>l \<in> set ls. nl \<notin> set l \<and> \<not> prefix (label @ '':'') l" and "nl \<notin> set label"
  shows "dumpField (unlines ls) label = []"
proof -
  have "line_matches (field_at label) True (unlines ls @ []) = []"
    using dumpField_lines [OF assms, of "[]"] by (simp only: field_at_def line_matches.simps) simp
  then show ?thesis by (simp add: dumpField_def)
qed

section \<open>Lemmas: LUKS2 metadata\<close>

text \<open>Headers as the on-disk format writes them: every key is the decimal form of an index.\<close>

definition canonical_keys :: "(string \<times> 'v) list \<Rightarrow> int list \<Rightarrow> bool" where
  "canonical_keys m is \<longleftrightarrow> map fst m = map itoa is \<and> distinct is \<and> (\<forall>i \<in> set is. in_int64 i)"

lemma sortedIndexes_canonical:
  assumes "canonical_keys m is"
  shows "sortedIndexes m = sort is"
proof -
  have "List.map_filter (\<lambda>(k, _). atoi_opt k) m = List.map_filter atoi_opt (map fst m)"
    by (simp add: List.map_filter_def comp_def filter_map case_prod_beta)
  also have "\<dots> = is"
    using assms by (auto simp: canonical_keys_def List.map_filter_def comp_def filter_map
        atoi_opt_itoa intro!: map_idI)
  finally show ?thesis by (simp add: sortedIndexes_def)
qed

lemma sortedIndexes_strict:
  assumes "canonical_keys m is"
  shows "sorted_wrt (<) (sortedIndexes m) \<and> set (sortedIndexes m) = set is"
  using assms unfolding sortedIndexes_canonical [OF assms]
  by (simp add: canonical_keys_def strict_sorted_iff)

lemma map_get_mem: "distinct (map fst m) \<Longrightarrow> (k, v) \<in> set m \<Longrightarrow> map_get z m k = v"
  by (simp add: map_get_def map_of_eq_Some_iff)

lemma foldl_luks2_step:
  "foldl (luks2_step L hdr) d is =
     d\<lparr>d_slots := d_slots d @ map (\<lambda>i. \<lparr>ks_index = i,
          ks_type = l2_kdf_type (map_get zero_slot (h2_keyslots hdr) (itoa i)), ks_status = ''valid''\<rparr>) is,
       d_bits := d_bits (foldl (luks2_step L hdr) d is)\<rparr>"
proof (induction "is" arbitrary: d)
  case (Cons i "is")
  show ?case
    by (simp only: foldl_Cons, subst Cons.IH) (simp add: luks2_step_def Let_def)
qed simp

lemma fill_header_slots:
  "d_slots (fill_header L hdr d) =
     d_slots d @ map (\<lambda>i. \<lparr>ks_index = i,
          ks_type = l2_kdf_type (map_get zero_slot (h2_keyslots hdr) (itoa i)), ks_status = ''valid''\<rparr>)
       (sortedIndexes (h2_keyslots hdr))"
  by (subst fill_header_def, subst foldl_luks2_step) (auto simp: Let_def split: list.splits)

lemma fill_header_frame:
  "d_version (fill_header L hdr d) = d_version d" "d_uuid (fill_header L hdr d) = d_uuid d"
  by (subst fill_header_def, subst foldl_luks2_step, auto simp: Let_def split: list.splits)+

end
