(* ===== verification/Keys.thy ===== *)
theory Keys
  imports LuksDump
begin

text \<open>
  \<open>internal/vault/keys.go\<close>: adding and removing keyslots through \<open>cryptsetup\<close>, and the check
  that keeps the last valid slot. Errors are the texts the source formats.
\<close>

definition MaxKeySlot :: int where "MaxKeySlot = 31"
definition MaxKeyFileSize :: nat where "MaxKeyFileSize = 1024 * 1024"
definition MinKeyFileSize :: nat where "MinKeyFileSize = 8"

section \<open>luksAddKey\<close>

definition slot_args :: "int \<Rightarrow> string list" where
  "slot_args slot = (if 0 \<le> slot then [''--key-slot'', itoa slot] else [])"

text \<open>Standard input of a password \<open>luksAddKey\<close>: the existing line, then the new one.\<close>

definition addkey_stdin :: "string \<Rightarrow> string \<Rightarrow> string" where
  "addkey_stdin oldPassword newPassword = oldPassword @ [nl] @ newPassword @ [nl]"

definition AddKey :: "'w host \<Rightarrow> vault \<Rightarrow> string \<Rightarrow> string \<Rightarrow> int \<Rightarrow> ('w, 'z) sys_scheme \<Rightarrow>
    string option \<times> ('w, 'z) sys_scheme" where
  "AddKey H v oldPassword newPassword slot s =
     (case run H (Cmd False ([''cryptsetup'', ''luksAddKey'', ''--batch-mode'', v_path v] @ slot_args slot)
                    (addkey_stdin oldPassword newPassword)) s of
        ((out, Some _), s1) \<Rightarrow> (Some (''luksAddKey: '' @ trim_space out), s1)
      | ((out, None), s1) \<Rightarrow> (None, s1))"

text \<open>\<open>--keyfile-size\<close> pins the number of bytes \<open>cryptsetup\<close> reads from standard input.\<close>

definition keyfile_args :: "string \<Rightarrow> string list" where
  "keyfile_args key = [''--key-file=-'', ''--keyfile-size='' @ itoa (int (length key))]"

text \<open>The deferred clean-up of the temporary key file: overwrite with zeros, then remove.\<close>

definition wipe_temp :: "'w host \<Rightarrow> string \<Rightarrow> nat \<Rightarrow> ('w, 'z) sys_scheme \<Rightarrow> ('w, 'z) sys_scheme" where
  "wipe_temp H tmpPath n s =
     (let s1 = snd (write_file H tmpPath (replicate n CHR 0x00) s) in snd (remove H tmpPath s1))"

text \<open>What happens between the creation of the temporary file and its clean-up.\<close>

definition addkeyfile_body :: "'w host \<Rightarrow> vault \<Rightarrow> string \<Rightarrow> string \<Rightarrow> int \<Rightarrow> string \<Rightarrow>
    ('w, 'z) sys_scheme \<Rightarrow> string option \<times> ('w, 'z) sys_scheme" where
  "addkeyfile_body H v existing newKey slot tmpPath s =
     (case chmod H tmpPath 0x180 s of
        (Some e, s1) \<Rightarrow> (Some (''secure temp key file: '' @ os_error_text e), snd (close_file H tmpPath s1))
      | (None, s1) \<Rightarrow>
     (case write_file H tmpPath newKey s1 of
        (Some e, s2) \<Rightarrow> (Some (''write temp key file: '' @ os_error_text e), snd (close_file H tmpPath s2))
      | (None, s2) \<Rightarrow>
     (case close_file H tmpPath s2 of
        (Some e, s3) \<Rightarrow> (Some (''write temp key file: '' @ os_error_text e), s3)
      | (None, s3) \<Rightarrow>
     (case run H (Cmd False ([''cryptsetup'', ''luksAddKey'', ''--batch-mode''] @ keyfile_args existing
                    @ slot_args slot @ [v_path v, tmpPath]) existing) s3 of
        ((out, Some _), s4) \<Rightarrow> (Some (''luksAddKey: '' @ trim_space out), s4)
      | ((out, None), s4) \<Rightarrow> (None, s4)))))"

definition AddKeyFile :: "'w host \<Rightarrow> vault \<Rightarrow> string \<Rightarrow> string \<Rightarrow> int \<Rightarrow> ('w, 'z) sys_scheme \<Rightarrow>
    string option \<times> ('w, 'z) sys_scheme" where
  "AddKeyFile H v existing newKey slot s =
     (case create_temp H s of
        (Inl e, s1) \<Rightarrow> (Some (''create temp key file: '' @ os_error_text e), s1)
      | (Inr tmpPath, s1) \<Rightarrow>
          (case addkeyfile_body H v existing newKey slot tmpPath s1 of
             (r, s2) \<Rightarrow> (r, wipe_temp H tmpPath (length newKey) s2)))"

section \<open>luksKillSlot\<close>

definition KillSlot :: "'w host \<Rightarrow> vault \<Rightarrow> string \<Rightarrow> int \<Rightarrow> ('w, 'z) sys_scheme \<Rightarrow>
    string option \<times> ('w, 'z) sys_scheme" where
  "KillSlot H v remainingPassword slot s =
     (case run H (Cmd False [''cryptsetup'', ''luksKillSlot'', v_path v, itoa slot] remainingPassword) s of
        ((out, Some _), s1) \<Rightarrow> (Some (''luksKillSlot: '' @ trim_space out), s1)
      | ((out, None), s1) \<Rightarrow> (None, s1))"

definition KillSlotKeyFile :: "'w host \<Rightarrow> vault \<Rightarrow> string \<Rightarrow> int \<Rightarrow> ('w, 'z) sys_scheme \<Rightarrow>
    string option \<times> ('w, 'z) sys_scheme" where
  "KillSlotKeyFile H v key slot s =
     (case run H (Cmd False ([''cryptsetup'', ''luksKillSlot''] @ keyfile_args key @ [v_path v, itoa slot]) key) s of
        ((out, Some _), s1) \<Rightarrow> (Some (''luksKillSlot: '' @ trim_space out), s1)
      | ((out, None), s1) \<Rightarrow> (None, s1))"

section \<open>ValidateKillSlot\<close>

definition valid_slot :: "keyslot \<Rightarrow> bool" where
  "valid_slot ks \<longleftrightarrow> ks_status ks = ''valid'' \<or> ks_status ks = ''enabled''"

text \<open>The loop of the source: the number of valid slots seen, and whether \<open>slot\<close> is one of them.\<close>

fun count_slots :: "keyslot list \<Rightarrow> int \<Rightarrow> nat \<times> bool \<Rightarrow> nat \<times> bool" where
  "count_slots [] slot acc = acc"
| "count_slots (ks # kss) slot (valid, found) =
     count_slots kss slot
       (if valid_slot ks then (valid + 1, if ks_index ks = slot then True else found) else (valid, found))"

definition ValidateKillSlot :: "luks_details \<Rightarrow> int \<Rightarrow> string option" where
  "ValidateKillSlot d slot =
     (case count_slots (d_slots d) slot (0, False) of (valid, found) \<Rightarrow>
        if \<not> found then Some (''keyslot '' @ itoa slot @ '' is not a valid keyslot'')
        else if valid \<le> 1 then Some (''cannot remove the last valid keyslot '' @ emdash
               @ '' the vault would become permanently inaccessible'')
        else None)"

section \<open>Lemmas\<close>

lemma count_slots_eq:
  "count_slots kss slot (n, b) =
     (n + length (filter valid_slot kss), b \<or> (\<exists>ks \<in> set kss. valid_slot ks \<and> ks_index ks = slot))"
  by (induction kss arbitrary: n b) auto

lemma ValidateKillSlot_None:
  "ValidateKillSlot d slot = None \<longleftrightarrow>
     (\<exists>ks \<in> set (d_slots d). valid_slot ks \<and> ks_index ks = slot) \<and> 2 \<le> length (filter valid_slot (d_slots d))"
  by (auto simp: ValidateKillSlot_def count_slots_eq)

text \<open>The slots a header still has after \<open>luksKillSlot\<close> of an index.\<close>

definition slots_after_kill :: "luks_details \<Rightarrow> int \<Rightarrow> keyslot list" where
  "slots_after_kill d slot = filter (\<lambda>ks. ks_index ks \<noteq> slot) (d_slots d)"

lemma ValidateKillSlot_remaining:
  assumes "ValidateKillSlot d slot = None" and "distinct (map ks_index (filter valid_slot (d_slots d)))"
  shows "\<exists>ks \<in> set (slots_after_kill d slot). valid_slot ks"
  using filter_length_ge2 [OF _ assms(2), of slot] assms(1)
  by (auto simp: ValidateKillSlot_None slots_after_kill_def)

lemma addkey_stdin_lines:
  assumes "nl \<notin> set oldPassword" "nl \<notin> set newPassword"
  shows "split_on nl (addkey_stdin oldPassword newPassword) = [oldPassword, newPassword, []]"
  using assms by (simp add: addkey_stdin_def split_on_append_sep split_on_no_sep)

lemma AddKeyD:
  "AddKey H v old new slot s = (r, s') \<Longrightarrow>
     sevents s' = sevents s @ [Ran (Cmd False ([''cryptsetup'', ''luksAddKey'', ''--batch-mode'', v_path v] @ slot_args slot)
        (addkey_stdin old new)) (r = None)] \<and> sdb s' = sdb s \<and> sys.more s' = sys.more s"
  by (auto simp: AddKey_def split: prod.splits option.splits dest!: runD)

lemma KillSlotD:
  "KillSlot H v pw slot s = (r, s') \<Longrightarrow>
     sevents s' = sevents s @ [Ran (Cmd False [''cryptsetup'', ''luksKillSlot'', v_path v, itoa slot] pw) (r = None)]
       \<and> sdb s' = sdb s \<and> sys.more s' = sys.more s"
  by (auto simp: KillSlot_def split: prod.splits option.splits dest!: runD)

lemma KillSlotKeyFileD:
  "KillSlotKeyFile H v key slot s = (r, s') \<Longrightarrow>
     sevents s' = sevents s @ [Ran (Cmd False ([''cryptsetup'', ''luksKillSlot''] @ keyfile_args key @ [v_path v, itoa slot]) key) (r = None)]
       \<and> sdb s' = sdb s \<and> sys.more s' = sys.more s"
  by (auto simp: KillSlotKeyFile_def split: prod.splits option.splits dest!: runD)

lemma wipe_tempD:
  "\<exists>a b. sevents (wipe_temp H p n s) = sevents s @ [Wrote p (replicate n CHR 0x00) a, Removed p b]
     \<and> sdb (wipe_temp H p n s) = sdb s \<and> sys.more (wipe_temp H p n s) = sys.more s"
proof -
  obtain e1 s1 where w: "write_file H p (replicate n CHR 0x00) s = (e1, s1)" by fastforce
  obtain e2 s2 where r: "remove H p s1 = (e2, s2)" by fastforce
  show ?thesis using write_fileD [OF w] removeD [OF r] by (auto simp: wipe_temp_def w r)
qed

text \<open>
  The logs the body can leave: it restricts the file's mode before it writes the key into it,
  and \<open>luksAddKey\<close> runs only after the file was written and closed.
\<close>

definition addkeyfile_log :: "string \<Rightarrow> string \<Rightarrow> cmd \<Rightarrow> bool \<Rightarrow> event list \<Rightarrow> bool" where
  "addkeyfile_log tmp newKey c okay es \<longleftrightarrow>
     (\<exists>b. es = [Chmod tmp 0x180 False, Closed tmp b] \<and> \<not> okay)
     \<or> (\<exists>b. es = [Chmod tmp 0x180 True, Wrote tmp newKey False, Closed tmp b] \<and> \<not> okay)
     \<or> es = [Chmod tmp 0x180 True, Wrote tmp newKey True, Closed tmp False] \<and> \<not> okay
     \<or> es = [Chmod tmp 0x180 True, Wrote tmp newKey True, Closed tmp True, Ran c okay]"

definition addkeyfile_cmd :: "vault \<Rightarrow> string \<Rightarrow> int \<Rightarrow> string \<Rightarrow> cmd" where
  "addkeyfile_cmd v existing slot tmp = Cmd False ([''cryptsetup'', ''luksAddKey'', ''--batch-mode'']
     @ keyfile_args existing @ slot_args slot @ [v_path v, tmp]) existing"

lemma close_file_sndD:
  "\<exists>b. sevents (snd (close_file H p t)) = sevents t @ [Closed p b]
      \<and> sdb (snd (close_file H p t)) = sdb t \<and> sys.more (snd (close_file H p t)) = sys.more t"
  using close_fileD [of H p t] by (cases "close_file H p t") auto

lemma addkeyfile_bodyD:
  assumes "addkeyfile_body H v existing newKey slot tmp s = (r, s')"
  shows "sdb s' = sdb s \<and> sys.more s' = sys.more s \<and>
    (\<exists>es. sevents s' = sevents s @ es \<and> addkeyfile_log tmp newKey (addkeyfile_cmd v existing slot tmp) (r = None) es)"
proof -
  obtain e1 s1 where c: "chmod H tmp 0x180 s = (e1, s1)" by fastforce
  obtain e2 s2 where w: "write_file H tmp newKey s1 = (e2, s2)" by fastforce
  obtain e3 s3 where l: "close_file H tmp s2 = (e3, s3)" by fastforce
  obtain out e4 s4 where x: "run H (addkeyfile_cmd v existing slot tmp) s3 = ((out, e4), s4)"
    by (metis surj_pair)
  note D = chmodD [OF c] write_fileD [OF w] close_fileD [OF l] runD [OF x]
  show ?thesis
  proof (cases e1)
    case Some
    then show ?thesis using assms c D(1) close_file_sndD [of H tmp s1]
      by (auto simp: addkeyfile_body_def addkeyfile_log_def)
  next
    case e1: None
    show ?thesis
    proof (cases e2)
      case Some
      then show ?thesis using assms c w e1 D(1,2) close_file_sndD [of H tmp s2]
        by (auto simp: addkeyfile_body_def addkeyfile_log_def)
    next
      case e2: None
      then show ?thesis using assms c w l x e1 D
        by (cases e3; cases e4) (auto simp: addkeyfile_body_def addkeyfile_log_def addkeyfile_cmd_def)
    qed
  qed
qed

lemma AddKeyFileD:
  assumes "AddKeyFile H v existing newKey slot s = (r, s')"
  shows "sdb s' = sdb s \<and> sys.more s' = sys.more s \<and>
    (sevents s' = sevents s \<and> r \<noteq> None
     \<or> (\<exists>tmp es a b. sevents s' = sevents s @ TempCreated tmp # es
          @ [Wrote tmp (replicate (length newKey) CHR 0x00) a, Removed tmp b]
          \<and> addkeyfile_log tmp newKey (addkeyfile_cmd v existing slot tmp) (r = None) es))"
proof -
  obtain t s1 where t: "create_temp H s = (t, s1)" by fastforce
  show ?thesis
  proof (cases t)
    case (Inl e)
    then show ?thesis using assms t create_tempD [OF t] by (auto simp: AddKeyFile_def)
  next
    case (Inr tmp)
    obtain r2 s2 where b: "addkeyfile_body H v existing newKey slot tmp s1 = (r2, s2)" by fastforce
    show ?thesis
      using assms t Inr b create_tempD [OF t] addkeyfile_bodyD [OF b]
        wipe_tempD [of H tmp "length newKey" s2]
      by (auto simp: AddKeyFile_def)
  qed
qed

end
