(* ===== verification/Mounts.thy ===== *)
theory Mounts
  imports Host
begin

text \<open>
  \<open>internal/vault/vault.go\<close>, the status functions: how the program tells from
  \<open>/proc/mounts\<close> and \<open>/dev/mapper\<close> whether a vault is unlocked and mounted.
\<close>

section \<open>The functions of the source\<close>

text \<open>\<open>strings.NewReplacer\<close> with one-byte patterns replaces each byte once, left to right.\<close>

definition escape_char :: "char \<Rightarrow> string" where
  "escape_char c =
     (if c = CHR 0x5C then CHR 0x5C # ''134''
      else if c = CHR '' '' then CHR 0x5C # ''040''
      else if c = tab then CHR 0x5C # ''011''
      else if c = nl then CHR 0x5C # ''012''
      else [c])"

definition procMountsEscape :: "string \<Rightarrow> string" where
  "procMountsEscape s = concat (map escape_char s)"

definition mountedIn :: "string \<Rightarrow> string \<Rightarrow> bool" where
  "mountedIn mountPoint mounts = sublist ('' '' @ procMountsEscape mountPoint @ '' '') mounts"

definition mapper_path :: "string \<Rightarrow> string" where
  "mapper_path m = ''/dev/mapper/'' @ m"

definition ReadMounts :: "'w host \<Rightarrow> ('w, 'z) sys_scheme \<Rightarrow> string" where
  "ReadMounts H s = h_mounts H (sworld s)"

definition StatusIn :: "'w host \<Rightarrow> vault \<Rightarrow> string \<Rightarrow> ('w, 'z) sys_scheme \<Rightarrow> bool \<times> bool" where
  "StatusIn H v mounts s =
     (let mounted = mountedIn (v_mount v) mounts;
          unlocked = (if exists H (mapper_path (v_mapper v)) s then True else mounted)
      in (unlocked, mounted))"

definition IsMounted :: "'w host \<Rightarrow> vault \<Rightarrow> ('w, 'z) sys_scheme \<Rightarrow> bool" where
  "IsMounted H v s = mountedIn (v_mount v) (ReadMounts H s)"

definition IsUnlocked :: "'w host \<Rightarrow> vault \<Rightarrow> ('w, 'z) sys_scheme \<Rightarrow> bool" where
  "IsUnlocked H v s = (if exists H (mapper_path (v_mapper v)) s then True else IsMounted H v s)"

section \<open>Escaping is a faithful encoding\<close>

text \<open>The kernel's reading of the escapes: a backslash introduces three octal digits.\<close>

fun unescape :: "string \<Rightarrow> string" where
  "unescape (c # a # b # d # rest) =
     (if c = CHR 0x5C then char_of (64 * digit_val a + 8 * digit_val b + digit_val d) # unescape rest
      else c # unescape (a # b # d # rest))"
| "unescape (c # rest) = c # unescape rest"
| "unescape [] = []"

lemma procMountsEscape_simps [simp]:
  "procMountsEscape [] = []" "procMountsEscape (c # s) = escape_char c @ procMountsEscape s"
  by (simp_all add: procMountsEscape_def)

lemma unescape_plain: "c \<noteq> CHR 0x5C \<Longrightarrow> unescape (c # s) = c # unescape s"
  by (cases "c # s" rule: unescape.cases) auto

lemma unescape_codes:
  "digit_val CHR ''0'' = 0" "digit_val CHR ''1'' = 1" "digit_val CHR ''2'' = 2"
  "digit_val CHR ''3'' = 3" "digit_val CHR ''4'' = 4"
  "char_of (92::nat) = CHR 0x5C" "char_of (32::nat) = CHR '' ''" "char_of (9::nat) = tab"
  "char_of (10::nat) = nl"
  by code_simp+

lemma unescape_escape_char: "unescape (escape_char c @ s) = c # unescape s"
  by (simp add: escape_char_def unescape_plain unescape_codes)

lemma unescape_escape: "unescape (procMountsEscape s) = s"
  by (induction s) (simp_all add: unescape_escape_char)

lemma procMountsEscape_inject: "procMountsEscape a = procMountsEscape b \<longleftrightarrow> a = b"
  by (metis unescape_escape)

lemma procMountsEscape_chars:
  "CHR '' '' \<notin> set (procMountsEscape s)" "nl \<notin> set (procMountsEscape s)" "tab \<notin> set (procMountsEscape s)"
  by (induction s) (auto simp: escape_char_def)

lemma procMountsEscape_hd: "procMountsEscape (slash # s) = slash # procMountsEscape s"
  by (simp add: escape_char_def)

section \<open>The mount table and the substring test\<close>

text \<open>
  A line of \<open>/proc/mounts\<close> (proc(5), fstab(5)): device, mount point, type, options and two
  numbers, separated by single spaces; the mount point is escaped as above.
\<close>

record mount_entry =
  m_dev :: string
  m_dir :: string
  m_type :: string
  m_opts :: string

definition mount_line :: "mount_entry \<Rightarrow> string" where
  "mount_line e = m_dev e @ '' '' @ procMountsEscape (m_dir e) @ '' '' @ m_type e @ '' '' @ m_opts e @ '' 0 0'' @ [nl]"

definition render_mounts :: "mount_entry list \<Rightarrow> string" where
  "render_mounts es = concat (map mount_line es)"

text \<open>A well-formed entry: the other fields hold no blank, and type and options are no path.\<close>

definition blank_free :: "string \<Rightarrow> bool" where
  "blank_free s \<longleftrightarrow> CHR '' '' \<notin> set s \<and> nl \<notin> set s"

definition entry_ok :: "mount_entry \<Rightarrow> bool" where
  "entry_ok e \<longleftrightarrow> blank_free (m_dev e) \<and> blank_free (m_type e) \<and> blank_free (m_opts e)
     \<and> \<not> prefix ''/'' (m_type e) \<and> \<not> prefix ''/'' (m_opts e)"

text \<open>
  A word between two separators: the first separator either starts the occurrence, and then the
  word is the next field, or the occurrence lies behind it.
\<close>

lemma sublist_first_sep:
  "c \<notin> set x \<Longrightarrow> sublist (c # u) (x @ c # t) \<longleftrightarrow> prefix u t \<or> sublist (c # u) t"
  by (induction x) (auto simp: sublist_Cons_right)

lemma sublist_no_sep: "c \<notin> set x \<Longrightarrow> \<not> sublist (c # u) x"
  by (auto simp: sublist_def)

lemma prefix_field:
  "c \<notin> set w \<Longrightarrow> c \<notin> set y \<Longrightarrow> prefix (w @ [c]) (y @ c # t) \<longleftrightarrow> w = y"
proof (induction w arbitrary: y)
  case Nil
  then show ?case by (cases y) auto
next
  case (Cons a w)
  then show ?case by (cases y) auto
qed

lemma sublist_field:
  assumes "c \<notin> set x" "c \<notin> set y" "c \<notin> set w"
  shows "sublist (c # w @ [c]) (x @ c # y @ c # t) \<longleftrightarrow> w = y \<or> sublist (c # w @ [c]) (y @ c # t)"
  using assms by (simp add: sublist_first_sep prefix_field)

lemma sublist_last_field:
  assumes "c \<notin> set x" "c \<notin> set y"
  shows "\<not> sublist (c # w @ [c]) (x @ c # y)"
proof -
  have "\<not> prefix (w @ [c]) y" using assms(2) by (auto simp: prefix_def)
  then show ?thesis using assms by (simp add: sublist_first_sep sublist_no_sep)
qed

text \<open>Walking through the lines, with what is left of the line before in front.\<close>

lemma sublist_render:
  assumes "prefix ''/'' w" "CHR '' '' \<notin> set w" "nl \<notin> set w"
    and "\<forall>e \<in> set es. entry_ok e" "CHR '' '' \<notin> set x"
  shows "sublist (CHR '' '' # w @ '' '') (x @ render_mounts es)
    \<longleftrightarrow> (\<exists>e \<in> set es. w = procMountsEscape (m_dir e))"
  using assms(4,5)
proof (induction es arbitrary: x)
  case Nil
  then show ?case by (simp add: render_mounts_def sublist_no_sep)
next
  case (Cons e es)
  let ?P = "sublist (CHR '' '' # w @ '' '')"
  have ok: "entry_ok e" using Cons.prems by simp
  then have free: "CHR '' '' \<notin> set (m_dev e)" "CHR '' '' \<notin> set (m_type e)" "CHR '' '' \<notin> set (m_opts e)"
    by (auto simp: entry_ok_def blank_free_def)
  have neq: "w \<noteq> m_type e" "w \<noteq> m_opts e" "w \<noteq> ''0''"
    using ok assms(1) by (auto simp: entry_ok_def)
  let ?sp = "CHR '' ''" and ?esc = "procMountsEscape (m_dir e)"
  let ?r = "''0'' @ CHR '' '' # ''0'' @ nl # render_mounts es"
  have "?P ((x @ m_dev e) @ ?sp # ?esc @ ?sp # m_type e @ ?sp # m_opts e @ ?sp # ?r)
      \<longleftrightarrow> w = ?esc \<or> ?P (?esc @ ?sp # m_type e @ ?sp # m_opts e @ ?sp # ?r)"
    using free Cons.prems(2) assms(2) procMountsEscape_chars(1) by (intro sublist_field) auto
  moreover have "?P (?esc @ ?sp # m_type e @ ?sp # m_opts e @ ?sp # ?r)
      \<longleftrightarrow> w = m_type e \<or> ?P (m_type e @ ?sp # m_opts e @ ?sp # ?r)"
    using free assms(2) procMountsEscape_chars(1) by (intro sublist_field) auto
  moreover have "?P (m_type e @ ?sp # m_opts e @ ?sp # ?r)
      \<longleftrightarrow> w = m_opts e \<or> ?P (m_opts e @ ?sp # ?r)"
    using free assms(2) by (intro sublist_field) auto
  moreover have "?P (m_opts e @ ?sp # ?r) \<longleftrightarrow> w = ''0'' \<or> ?P ?r"
    using free assms(2) by (intro sublist_field) auto
  moreover have "x @ render_mounts (e # es)
      = (x @ m_dev e) @ ?sp # ?esc @ ?sp # m_type e @ ?sp # m_opts e @ ?sp # ?r"
    by (simp add: render_mounts_def mount_line_def)
  ultimately have "?P (x @ render_mounts (e # es)) \<longleftrightarrow> w = ?esc \<or> ?P ?r"
    using neq by metis
  also have "?P (''0'' @ CHR '' '' # ''0'' @ nl # render_mounts es) \<longleftrightarrow>
      (\<exists>e \<in> set es. w = procMountsEscape (m_dir e))"
  proof (cases es)
    case Nil
    then show ?thesis
      using sublist_last_field [of "CHR '' ''" "''0''" "[CHR ''0'', nl]" w] by (simp add: render_mounts_def)
  next
    case (Cons f fs)
    have ok': "entry_ok f" using Cons.prems Cons by simp
    then have free': "CHR '' '' \<notin> set (''0'' @ nl # m_dev f)" by (auto simp: entry_ok_def blank_free_def)
    have neq': "w \<noteq> ''0'' @ nl # m_dev f" using assms(3) by auto
    obtain t where t: "''0'' @ nl # render_mounts es = (''0'' @ nl # m_dev f) @ CHR '' '' # t"
      using Cons by (simp add: render_mounts_def mount_line_def)
    have "?P (''0'' @ CHR '' '' # ''0'' @ nl # render_mounts es)
        \<longleftrightarrow> ?P ((''0'' @ [nl]) @ render_mounts es)"
      using sublist_field [of "CHR '' ''" "''0''" "''0'' @ nl # m_dev f" w t] free' neq' assms(2) t
      by simp
    also have "\<dots> \<longleftrightarrow> (\<exists>e \<in> set es. w = procMountsEscape (m_dir e))"
      using Cons.prems by (intro Cons.IH) auto
    finally show ?thesis .
  qed
  finally show ?case by auto
qed

lemma mountedIn_render:
  assumes "prefix ''/'' mp" and "\<forall>e \<in> set es. entry_ok e"
  shows "mountedIn mp (render_mounts es) \<longleftrightarrow> (\<exists>e \<in> set es. m_dir e = mp)"
proof -
  have "prefix ''/'' (procMountsEscape mp)"
    using assms(1) by (cases mp) (auto simp: escape_char_def)
  then have "sublist (CHR '' '' # procMountsEscape mp @ '' '') ([] @ render_mounts es)
      \<longleftrightarrow> (\<exists>e \<in> set es. procMountsEscape mp = procMountsEscape (m_dir e))"
    using assms(2) procMountsEscape_chars by (intro sublist_render) simp_all
  then show ?thesis by (auto simp: mountedIn_def procMountsEscape_inject)
qed

section \<open>Status\<close>

lemma StatusIn_simps:
  "snd (StatusIn H v mounts s) = mountedIn (v_mount v) mounts"
  "fst (StatusIn H v mounts s) = (exists H (mapper_path (v_mapper v)) s \<or> mountedIn (v_mount v) mounts)"
  by (auto simp: StatusIn_def Let_def)

lemma StatusIn_live:
  "StatusIn H v (ReadMounts H s) s = (IsUnlocked H v s, IsMounted H v s)"
  by (simp add: StatusIn_def IsUnlocked_def IsMounted_def Let_def)

end
