(* ===== verification/Resize.thy ===== *)
theory Resize
  imports Keys Mounts
begin

text \<open>
  \<open>internal/vault/resize.go\<close>, \<open>diskspace_linux.go\<close> and \<open>diskusage_linux.go\<close>: growing a vault and
  the free-space arithmetic, at the widths of the source.
\<close>

section \<open>Free space and usage\<close>

definition gib :: int where "gib = 1024 * 1024 * 1024"

text \<open>\<open>%.1f\<close> of a byte count in GiB: nearest tenth, ties to even.\<close>

definition fmt_gib :: "int \<Rightarrow> string" where
  "fmt_gib n = (let q = (n * 10) div gib; r = (n * 10) mod gib;
       t = (if gib < 2 * r \<or> (gib = 2 * r \<and> odd q) then q + 1 else q)
     in itoa (t div 10) @ ''.'' @ itoa (t mod 10))"

definition available_bytes :: "statfs \<Rightarrow> int" where
  "available_bytes st = wrapu64 (f_bavail st * wrapu64 (f_bsize st))"

definition required_bytes :: "int \<Rightarrow> int" where
  "required_bytes sizeGB = wrapu64 (wrapu64 sizeGB * 1024 * 1024 * 1024)"

definition checkDiskSpace :: "'w host \<Rightarrow> string \<Rightarrow> int \<Rightarrow> ('w, 'z) sys_scheme \<Rightarrow> string option" where
  "checkDiskSpace H path sizeGB s =
     (case h_statfs H path (sworld s) of
        Inl e \<Rightarrow> Some (''stat filesystem at '' @ path @ '': '' @ e)
      | Inr st \<Rightarrow>
          if available_bytes st < required_bytes sizeGB
          then Some (''insufficient space: need '' @ itoa sizeGB @ '' GB, only ''
                 @ fmt_gib (available_bytes st) @ '' GB available'')
          else None)"

definition DiskUsage :: "'w host \<Rightarrow> string \<Rightarrow> ('w, 'z) sys_scheme \<Rightarrow> int \<times> int" where
  "DiskUsage H mountPoint s =
     (case h_statfs H mountPoint (sworld s) of
        Inl e \<Rightarrow> (0, 0)
      | Inr st \<Rightarrow>
          (let bsize = wrap64 (f_bsize st);
               total = wrap64 (wrap64 (f_blocks st) * bsize);
               used = wrap64 (wrap64 (wrap64 (f_blocks st) - wrap64 (f_bfree st)) * bsize)
           in (used, total)))"

section \<open>Grow\<close>

definition size_bytes :: "int \<Rightarrow> int" where
  "size_bytes sizeGB = wrap64 (sizeGB * 1024 * 1024 * 1024)"

definition fallocate_argv :: "int \<Rightarrow> string \<Rightarrow> string list" where
  "fallocate_argv sizeGB path = [''fallocate'', ''-l'', itoa (size_bytes sizeGB), path]"

definition append_offset_mb :: "int \<Rightarrow> int" where
  "append_offset_mb sz = go_div sz (1024 * 1024)"

definition append_argv :: "string \<Rightarrow> int \<Rightarrow> int \<Rightarrow> string list" where
  "append_argv path sz deltaGB = [''dd'', ''if=/dev/zero'', ''of='' @ path, ''bs=1M'',
     ''seek='' @ itoa (append_offset_mb sz), ''count='' @ itoa (wrap64 (deltaGB * 1024)), ''conv=notrunc'']"

definition appendFile :: "'w host \<Rightarrow> string \<Rightarrow> int \<Rightarrow> ('w, 'z) sys_scheme \<Rightarrow>
    string option \<times> ('w, 'z) sys_scheme" where
  "appendFile H path deltaGB s =
     (case h_stat H path (sworld s) of
        Inl e \<Rightarrow> (Some (os_error_text e), s)
      | Inr sz \<Rightarrow>
          (case run H (Cmd True (append_argv path sz deltaGB) []) s of
             ((out, Some _), s1) \<Rightarrow> (Some (trim_space out), s1)
           | ((out, None), s1) \<Rightarrow> (None, s1)))"

definition resize_argv :: "vault \<Rightarrow> string \<Rightarrow> string list" where
  "resize_argv v key = [''cryptsetup'', ''resize''] @ keyfile_args key @ [v_mapper v]"

text \<open>Steps 2 and 3: the LUKS device, then the file system.\<close>

definition grow_device :: "'w host \<Rightarrow> vault \<Rightarrow> string \<Rightarrow> ('w, 'z) sys_scheme \<Rightarrow>
    string option \<times> ('w, 'z) sys_scheme" where
  "grow_device H v key s =
     (case run H (Cmd True (resize_argv v key) key) s of
        ((out, Some _), s1) \<Rightarrow> (Some (''cryptsetup resize: '' @ trim_space out), s1)
      | ((out, None), s1) \<Rightarrow>
          (case run H (Cmd True [''resize2fs'', mapper_path (v_mapper v)] []) s1 of
             ((out2, Some _), s2) \<Rightarrow> (Some (''resize2fs: '' @ trim_space out2), s2)
           | ((out2, None), s2) \<Rightarrow> (None, s2)))"

definition Grow :: "'w host \<Rightarrow> vault \<Rightarrow> int \<Rightarrow> string \<Rightarrow> ('w, 'z) sys_scheme \<Rightarrow>
    string option \<times> ('w, 'z) sys_scheme" where
  "Grow H v sizeGB key s =
     (let delta = wrap64 (sizeGB - v_size v) in
      if delta \<le> 0
      then (Some (''new size must be greater than the current size of '' @ itoa (v_size v) @ '' GB''), s)
      else (case checkDiskSpace H (v_path v) delta s of
        Some e \<Rightarrow> (Some e, s)
      | None \<Rightarrow>
     (case run H (Cmd True (fallocate_argv sizeGB (v_path v)) []) s of
        ((out, Some _), s1) \<Rightarrow>
          (case appendFile H (v_path v) delta s1 of
             (Some e, s2) \<Rightarrow> (Some (''extend image ('' @ trim_space out @ ''): '' @ e), s2)
           | (None, s2) \<Rightarrow> grow_device H v key s2)
      | ((out, None), s1) \<Rightarrow> grow_device H v key s1)))"

section \<open>Lemmas\<close>

lemma required_bytes_exact: "0 \<le> n \<Longrightarrow> n < 2 ^ 34 \<Longrightarrow> required_bytes n = n * gib"
  by (simp add: required_bytes_def wrapu64_def gib_def)

lemma size_bytes_exact: "0 \<le> n \<Longrightarrow> n < 2 ^ 33 \<Longrightarrow> size_bytes n = n * gib"
  by (simp add: size_bytes_def wrap64_id in_int64_def gib_def)

lemma available_bytes_le:
  assumes "0 \<le> f_bavail st" "0 \<le> f_bsize st"
  shows "available_bytes st \<le> f_bavail st * f_bsize st"
proof -
  have "available_bytes st \<le> f_bavail st * wrapu64 (f_bsize st)"
    using assms(1) by (simp add: available_bytes_def wrapu64_def zmod_le_nonneg_dividend)
  also have "\<dots> \<le> f_bavail st * f_bsize st"
    using assms by (intro mult_left_mono) (simp_all add: wrapu64_def zmod_le_nonneg_dividend)
  finally show ?thesis .
qed

lemma append_offset_floor:
  assumes "0 \<le> sz"
  shows "append_offset_mb sz * (1024 * 1024) \<le> sz"
    and "append_offset_mb sz * (1024 * 1024) = sz \<longleftrightarrow> (1024 * 1024) dvd sz"
  using assms by (auto simp: append_offset_mb_def go_div_nonneg dvd_eq_mod_eq_0 minus_mod_eq_div_mult [symmetric])

lemma appendFileD:
  "appendFile H path n s = (r, s') \<Longrightarrow>
     (\<exists>sz. h_stat H path (sworld s) = Inr sz \<and>
        sevents s' = sevents s @ [Ran (Cmd True (append_argv path sz n) []) (r = None)] \<and> sdb s' = sdb s \<and> sys.more s' = sys.more s)
     \<or> (\<exists>e. h_stat H path (sworld s) = Inl e \<and> r \<noteq> None \<and> s' = s)"
  by (auto simp: appendFile_def split: prod.splits option.splits sum.splits dest!: runD)

lemma grow_deviceD:
  assumes "grow_device H v key s = (r, s')"
  shows "sdb s' = sdb s \<and> sys.more s' = sys.more s \<and>
    (sevents s' = sevents s @ [Ran (Cmd True (resize_argv v key) key) False] \<and> r \<noteq> None
     \<or> sevents s' = sevents s @ [Ran (Cmd True (resize_argv v key) key) True,
          Ran (Cmd True [''resize2fs'', mapper_path (v_mapper v)] []) (r = None)])"
  using assms by (auto simp: grow_device_def split: prod.splits option.splits dest!: runD)

end
