(* ===== verification/Create.thy ===== *)
theory Create
  imports Database Resize
begin

text \<open>
  \<open>internal/vault/vault.go\<close>, the creation pipeline: preflight checks, image allocation
  (\<open>fallocate\<close> or \<open>dd\<close>), \<open>luksFormat\<close>, \<open>luksOpen\<close>, \<open>mkfs.ext4\<close>, mount, \<open>chmod\<close>, database record,
  with the progress events it streams and the clean-up of every failure.
\<close>

section \<open>Progress events\<close>

record progress =
  p_step :: string
  p_message :: string
  p_percent :: int
  p_error :: string
  p_done :: bool
  p_vault :: int

definition progress_event :: "string \<Rightarrow> string \<Rightarrow> int \<Rightarrow> progress" where
  "progress_event st msg pct =
     \<lparr>p_step = st, p_message = msg, p_percent = pct, p_error = [], p_done = False, p_vault = 0\<rparr>"

definition error_event :: "string \<Rightarrow> progress" where
  "error_event e = \<lparr>p_step = [], p_message = [], p_percent = 0, p_error = e, p_done = False, p_vault = 0\<rparr>"

definition done_event :: "int \<Rightarrow> progress" where
  "done_event i = \<lparr>p_step = ''done'', p_message = ''Vault created and mounted successfully!'',
     p_percent = 100, p_error = [], p_done = True, p_vault = i\<rparr>"

text \<open>The state of a creation: the program's state and what its channel has accepted so far.\<close>

record 'w csys = "'w sys" +
  chan :: "progress list"

text \<open>\<open>send\<close> drops the event when the channel has no room; \<open>sendTerminal\<close> waits.\<close>

definition send :: "'w host \<Rightarrow> string \<Rightarrow> string \<Rightarrow> int \<Rightarrow> 'w csys \<Rightarrow> 'w csys" where
  "send H st msg pct s = (case h_send H (sworld s) of (taken, w) \<Rightarrow>
     s\<lparr>sworld := w, chan := chan s @ (if taken then [progress_event st msg pct] else [])\<rparr>)"

definition sendTerminal :: "'w host \<Rightarrow> progress \<Rightarrow> 'w csys \<Rightarrow> 'w csys" where
  "sendTerminal H ev s = (case h_deliver H (sworld s) of (delivered, w) \<Rightarrow>
     s\<lparr>sworld := w, chan := chan s @ (if delivered then [ev] else [])\<rparr>)"

definition fail :: "'w host \<Rightarrow> string \<Rightarrow> string \<Rightarrow> 'w csys \<Rightarrow> 'w csys" where
  "fail H ctx err s = sendTerminal H (error_event (ctx @ '': '' @ err)) (emit (LogError ctx) s)"

section \<open>Loop devices and the image file\<close>

definition loopControlPath :: string where
  "loopControlPath = ''/dev/loop-control''"

definition loop_error :: string where
  "loop_error = ''no loop device support ('' @ loopControlPath
     @ '' missing): file-backed LUKS needs loop devices '' @ emdash
     @ '' on the NAS host run `modprobe loop` once (persist with `echo loop > /etc/modules-load.d/loop.conf`), then retry vault creation''"

definition ensureLoopSupport :: "'w host \<Rightarrow> ('w, 'z) sys_scheme \<Rightarrow> string option \<times> ('w, 'z) sys_scheme" where
  "ensureLoopSupport H s =
     (if exists H loopControlPath s then (None, s)
      else (let s1 = snd (run H (Cmd True [''modprobe'', ''loop''] []) s) in
        if exists H loopControlPath s1 then (None, s1) else (Some loop_error, s1)))"

definition dd_argv :: "string \<Rightarrow> int \<Rightarrow> string list" where
  "dd_argv imgPath sizeGB = [''dd'', ''if=/dev/zero'', ''of='' @ imgPath, ''bs=1M'',
     ''count='' @ itoa (wrap64 (sizeGB * 1024))]"

text \<open>The percentage of a tick: \<open>size / total * 60\<close> truncated, at most 60.\<close>

definition dd_percent :: "int \<Rightarrow> int \<Rightarrow> int" where
  "dd_percent sz totalBytes = (let pct = go_div (sz * 60) totalBytes in if 60 < pct then 60 else pct)"

fun dd_ticks :: "'w host \<Rightarrow> int \<Rightarrow> int option list \<Rightarrow> 'w csys \<Rightarrow> 'w csys" where
  "dd_ticks H totalBytes [] s = s"
| "dd_ticks H totalBytes (None # ts) s = dd_ticks H totalBytes ts s"
| "dd_ticks H totalBytes (Some sz # ts) s =
     (let pct = dd_percent sz totalBytes in
      dd_ticks H totalBytes ts
        (send H ''creating'' (''Creating container file... '' @ itoa pct @ ''%'') pct s))"

definition createFile :: "'w host \<Rightarrow> string \<Rightarrow> int \<Rightarrow> 'w csys \<Rightarrow> string option \<times> 'w csys" where
  "createFile H imgPath sizeGB s =
     (case run_dd H (dd_argv imgPath sizeGB) s of
        (Inl e, s1) \<Rightarrow> (Some e, s1)
      | (Inr (ticks, fin), s1) \<Rightarrow>
          (let s2 = dd_ticks H (size_bytes sizeGB) ticks s1 in
           case fin of Exited err \<Rightarrow> (err, s2) | Cancelled e \<Rightarrow> (Some e, s2)))"

definition allocateFile :: "'w host \<Rightarrow> string \<Rightarrow> int \<Rightarrow> 'w csys \<Rightarrow> string option \<times> 'w csys" where
  "allocateFile H imgPath sizeGB s =
     (case run H (Cmd True (fallocate_argv sizeGB imgPath) []) s of
        ((out, None), s1) \<Rightarrow> (None, send H ''creating'' ''Container file allocated.'' 60 s1)
      | ((out, Some _), s1) \<Rightarrow> createFile H imgPath sizeGB (snd (remove H imgPath s1)))"

section \<open>Create\<close>

text \<open>
  How far a creation came, and so what its failure has to undo: nothing, the image, an open
  mapper device, also a mount point directory, also a mounted file system.
\<close>

datatype undo = UndoNothing | UndoImage | UndoOpen | UndoMountPoint | UndoMounted

text \<open>The stages in their order: a later one has everything of an earlier one to undo.\<close>

primrec undo_rank :: "undo \<Rightarrow> nat" where
  "undo_rank UndoNothing = 0"
| "undo_rank UndoImage = 1"
| "undo_rank UndoOpen = 2"
| "undo_rank UndoMountPoint = 3"
| "undo_rank UndoMounted = 4"

lemma undo_rank_inject: "undo_rank u = undo_rank v \<Longrightarrow> u = v"
  by (cases u; cases v) simp_all

instantiation undo :: linorder
begin

definition less_eq_undo :: "undo \<Rightarrow> undo \<Rightarrow> bool" where
  "u \<le> v \<longleftrightarrow> undo_rank u \<le> undo_rank v"

definition less_undo :: "undo \<Rightarrow> undo \<Rightarrow> bool" where
  "u < v \<longleftrightarrow> undo_rank u < undo_rank v"

instance
  by standard (auto simp: less_eq_undo_def less_undo_def intro: undo_rank_inject)

end

declare less_eq_undo_def [simp] less_undo_def [simp]

datatype failure = Failure (f_undo: undo) (f_ctx: string) (f_err: string)

definition umount_cmd :: "bool \<Rightarrow> string \<Rightarrow> cmd" where
  "umount_cmd b mp = Cmd b [''umount'', mp] []"

definition luksClose_cmd :: "bool \<Rightarrow> string \<Rightarrow> cmd" where
  "luksClose_cmd b mapper = Cmd b [''cryptsetup'', ''luksClose'', mapper] []"

definition mount_cmd :: "bool \<Rightarrow> string \<Rightarrow> string \<Rightarrow> cmd" where
  "mount_cmd b mapper mp = Cmd b [''mount'', mapper_path mapper, mp] []"

definition luksFormat_cmd :: "string \<Rightarrow> string \<Rightarrow> cmd" where
  "luksFormat_cmd imgPath password = Cmd True [''cryptsetup'', ''luksFormat'', ''--batch-mode'', imgPath] password"

definition luksOpen_cmd :: "string \<Rightarrow> string \<Rightarrow> string \<Rightarrow> cmd" where
  "luksOpen_cmd imgPath mapper password = Cmd True [''cryptsetup'', ''luksOpen'', imgPath, mapper] password"

definition mkfs_cmd :: "string \<Rightarrow> cmd" where
  "mkfs_cmd name = Cmd True [''mkfs.ext4'', ''-L'', take 16 name, mapper_path name] []"

definition with_output :: "string \<Rightarrow> string \<Rightarrow> string" where
  "with_output what out = what @ '' ('' @ trim_space out @ '')''"

text \<open>The checks before anything is created.\<close>

definition create_preflight :: "'w host \<Rightarrow> string \<Rightarrow> string \<Rightarrow> string \<Rightarrow> int \<Rightarrow> 'w csys \<Rightarrow>
    failure option \<times> 'w csys" where
  "create_preflight H name path imgPath sizeGB s =
     (case mkdir_all H path s of
        (Some e, s1) \<Rightarrow> (Some (Failure UndoNothing ''create storage directory'' (os_error_text e)), s1)
      | (None, s1) \<Rightarrow>
     (case checkDiskSpace H path sizeGB s1 of
        Some e \<Rightarrow> (Some (Failure UndoNothing ''disk space check'' e), s1)
      | None \<Rightarrow>
     (case ensureLoopSupport H s1 of
        (Some e, s2) \<Rightarrow> (Some (Failure UndoNothing ''loop device support'' e), s2)
      | (None, s2) \<Rightarrow>
        if exists H imgPath s2
        then (Some (Failure UndoNothing ''create container file'' (''file '' @ imgPath @ '' already exists'')), s2)
        else if exists H (mapper_path name) s2
        then (Some (Failure UndoNothing ''open LUKS device'' (mapper_path name @ '' already exists '' @ emdash
               @ '' close it first or choose a different vault name'')), s2)
        else (None, s2))))"

text \<open>Steps 1 to 3: the image, its LUKS header, the mapper device.\<close>

definition create_luks :: "'w host \<Rightarrow> string \<Rightarrow> string \<Rightarrow> int \<Rightarrow> string \<Rightarrow> 'w csys \<Rightarrow>
    failure option \<times> 'w csys" where
  "create_luks H name imgPath sizeGB password s =
     (case allocateFile H imgPath sizeGB
             (send H ''creating'' (''Allocating '' @ itoa sizeGB @ '' GB container file...'') 0 s) of
        (Some e, s1) \<Rightarrow> (Some (Failure UndoImage ''create container file'' e), s1)
      | (None, s1) \<Rightarrow>
     (case run H (luksFormat_cmd imgPath password)
             (send H ''encrypting'' ''Encrypting vault with LUKS...'' 62 s1) of
        ((out, Some e), s2) \<Rightarrow> (Some (Failure UndoImage (with_output ''luksFormat'' out) e), s2)
      | ((out, None), s2) \<Rightarrow>
     (case run H (luksOpen_cmd imgPath name password)
             (send H ''opening'' ''Opening LUKS device...'' 75 s2) of
        ((out, Some e), s3) \<Rightarrow> (Some (Failure UndoImage (with_output ''luksOpen'' out) e), s3)
      | ((out, None), s3) \<Rightarrow> (None, s3))))"

text \<open>Steps 4 and 5: the file system and its mount.\<close>

definition create_mount :: "'w host \<Rightarrow> string \<Rightarrow> string \<Rightarrow> 'w csys \<Rightarrow> failure option \<times> 'w csys" where
  "create_mount H name mountPoint s =
     (case run H (mkfs_cmd name) (send H ''formatting'' ''Formatting ext4 filesystem...'' 85 s) of
        ((out, Some e), s1) \<Rightarrow> (Some (Failure UndoOpen (with_output ''mkfs.ext4'' out) e), s1)
      | ((out, None), s1) \<Rightarrow>
     (case mkdir_all H mountPoint (send H ''mounting'' ''Mounting filesystem...'' 95 s1) of
        (Some e, s2) \<Rightarrow> (Some (Failure UndoOpen ''create mount point'' (os_error_text e)), s2)
      | (None, s2) \<Rightarrow>
     (case run H (mount_cmd True name mountPoint) s2 of
        ((out, Some e), s3) \<Rightarrow> (Some (Failure UndoMountPoint (with_output ''mount'' out) e), s3)
      | ((out, None), s3) \<Rightarrow>
     (case chmod H mountPoint 0x1FF s3 of
        (Some e, s4) \<Rightarrow> (Some (Failure UndoMounted ''set mount point permissions'' (os_error_text e)), s4)
      | (None, s4) \<Rightarrow> (None, s4)))))"

text \<open>The failure paths, in the source's order: release the device, report, remove the files.\<close>

definition create_undo :: "'w host \<Rightarrow> string \<Rightarrow> string \<Rightarrow> string \<Rightarrow> failure \<Rightarrow> 'w csys \<Rightarrow> 'w csys" where
  "create_undo H name imgPath mountPoint f s =
     (let u = f_undo f;
          s1 = (if UndoMounted \<le> u then snd (run H (umount_cmd False mountPoint) s) else s);
          s2 = (if UndoOpen \<le> u
                then snd (run H (luksClose_cmd False name) s1) else s1);
          s3 = fail H (f_ctx f) (f_err f) s2;
          s4 = (if UndoImage \<le> u then snd (remove H imgPath s3) else s3)
      in if UndoMountPoint \<le> u then snd (remove H mountPoint s4) else s4)"

definition create_prepare :: "'w host \<Rightarrow> string \<Rightarrow> string \<Rightarrow> string \<Rightarrow> int \<Rightarrow> string \<Rightarrow> string \<Rightarrow> 'w csys \<Rightarrow>
    failure option \<times> 'w csys" where
  "create_prepare H name path imgPath sizeGB password mountPoint s =
     (case create_preflight H name path imgPath sizeGB s of
        (Some f, s1) \<Rightarrow> (Some f, s1)
      | (None, s1) \<Rightarrow>
     (case create_luks H name imgPath sizeGB password s1 of
        (Some f, s2) \<Rightarrow> (Some f, s2)
      | (None, s2) \<Rightarrow> create_mount H name mountPoint s2))"

text \<open>Step 6: the database record.\<close>

definition create_commit :: "'w host \<Rightarrow> string \<Rightarrow> string \<Rightarrow> int \<Rightarrow> string \<Rightarrow> 'w csys \<Rightarrow>
    (failure + vault) \<times> 'w csys" where
  "create_commit H name imgPath sizeGB mountPoint s =
     (case CreateVault H name imgPath sizeGB mountPoint name s of
        (Inl e, s1) \<Rightarrow> (Inl (Failure UndoMounted ''save vault to database'' (db_error_text e)), s1)
      | (Inr v, s1) \<Rightarrow> (Inr v, s1))"

definition create_finish :: "'w host \<Rightarrow> string \<Rightarrow> string \<Rightarrow> string \<Rightarrow> (failure + vault) \<Rightarrow> 'w csys \<Rightarrow> 'w csys" where
  "create_finish H name imgPath mountPoint r s =
     (case r of Inl f \<Rightarrow> create_undo H name imgPath mountPoint f s
      | Inr v \<Rightarrow> sendTerminal H (done_event (v_id v)) s)"

definition image_path :: "string \<Rightarrow> string \<Rightarrow> string" where
  "image_path path name = path_join path (name @ ''.img'')"

text \<open>The pipeline up to its outcome, and the whole function.\<close>

definition create_outcome :: "'w host \<Rightarrow> string \<Rightarrow> string \<Rightarrow> int \<Rightarrow> string \<Rightarrow> string \<Rightarrow> 'w csys \<Rightarrow>
    (failure + vault) \<times> 'w csys" where
  "create_outcome H name path sizeGB password mountPoint s =
     (case create_prepare H name path (image_path path name) sizeGB password mountPoint s of
        (Some f, s1) \<Rightarrow> (Inl f, s1)
      | (None, s1) \<Rightarrow> create_commit H name (image_path path name) sizeGB mountPoint s1)"

definition Create :: "'w host \<Rightarrow> string \<Rightarrow> string \<Rightarrow> int \<Rightarrow> string \<Rightarrow> string \<Rightarrow> 'w csys \<Rightarrow> 'w csys" where
  "Create H name path sizeGB password mountPoint s =
     (case create_outcome H name path sizeGB password mountPoint s of
        (r, s1) \<Rightarrow> create_finish H name (image_path path name) mountPoint r s1)"

section \<open>What the stages add to the log\<close>

lemma csys_runD:
  "run H c s = ((out, err), s') \<Longrightarrow> chan (s' :: 'w csys) = chan s"
  by (auto simp: run_def step_world_def split: prod.splits)

lemma csys_mkdirD: "mkdir_all H p s = (err, s') \<Longrightarrow> chan (s' :: 'w csys) = chan s"
  by (auto simp: mkdir_all_def step_world_def split: prod.splits)

lemma csys_removeD: "remove H p s = (err, s') \<Longrightarrow> chan (s' :: 'w csys) = chan s"
  by (auto simp: remove_def step_world_def split: prod.splits)

lemma csys_chmodD: "chmod H p m s = (err, s') \<Longrightarrow> chan (s' :: 'w csys) = chan s"
  by (auto simp: chmod_def step_world_def split: prod.splits)

lemma csys_run_ddD: "run_dd H a s = (r, s') \<Longrightarrow> chan (s' :: 'w csys) = chan s"
  by (auto simp: run_dd_def step_world_def split: prod.splits)

lemma csys_sqlD: "sql H c s = (r, s') \<Longrightarrow> chan (s' :: 'w csys) = chan s"
  by (auto simp: sql_def split: prod.splits)

lemmas csys_chanD = csys_runD csys_mkdirD csys_removeD csys_chmodD csys_run_ddD csys_sqlD

lemma send_frame [simp]: "sevents (send H st msg pct s) = sevents s" "sdb (send H st msg pct s) = sdb s"
  by (simp_all add: send_def split: prod.splits)

lemma sendTerminal_frame [simp]: "sevents (sendTerminal H ev s) = sevents s" "sdb (sendTerminal H ev s) = sdb s"
  by (simp_all add: sendTerminal_def split: prod.splits)

lemma fail_frame [simp]: "sevents (fail H c e s) = sevents s @ [LogError c]" "sdb (fail H c e s) = sdb s"
  by (simp_all add: fail_def)

lemma dd_ticks_frame [simp]: "sevents (dd_ticks H t ts s) = sevents s" "sdb (dd_ticks H t ts s) = sdb s"
  by (induction H t ts s rule: dd_ticks.induct) (simp_all add: Let_def)

lemma run_snd [simp]:
  "sdb (snd (run H c s)) = sdb s"
  "sevents (snd (run H c s)) = sevents s @ [Ran c (snd (fst (run H c s)) = None)]"
  by (cases "run H c s"; auto dest!: runD)+

lemma remove_snd [simp]:
  "sdb (snd (remove H p s)) = sdb s"
  "sevents (snd (remove H p s)) = sevents s @ [Removed p (fst (remove H p s) = None)]"
  by (cases "remove H p s"; auto dest!: removeD)+

lemma ensureLoopSupportD:
  "ensureLoopSupport H s = (r, s') \<Longrightarrow> sdb s' = sdb s \<and>
     (\<exists>es. sevents s' = sevents s @ es \<and> (es = [] \<or> (\<exists>ok. es = [Ran (Cmd True [''modprobe'', ''loop''] []) ok])))"
  by (auto simp: ensureLoopSupport_def Let_def split: if_splits)

text \<open>The logs of an allocation: \<open>fallocate\<close>, or its failed attempt removed and \<open>dd\<close>.\<close>

definition alloc_log :: "string \<Rightarrow> int \<Rightarrow> event list \<Rightarrow> bool" where
  "alloc_log img n es \<longleftrightarrow> es = [Ran (Cmd True (fallocate_argv n img) []) True]
     \<or> (\<exists>a b. es = [Ran (Cmd True (fallocate_argv n img) []) False, Removed img a, RanDd (dd_argv img n) b])"

lemma createFileD:
  "createFile H img n s = (r, s') \<Longrightarrow> sdb s' = sdb s \<and> (\<exists>b. sevents s' = sevents s @ [RanDd (dd_argv img n) b])"
  by (auto simp: createFile_def Let_def split: prod.splits sum.splits dd_end.splits dest!: run_ddD)

lemma allocateFileD:
  "allocateFile H img n s = (r, s') \<Longrightarrow> sdb s' = sdb s \<and> (\<exists>es. sevents s' = sevents s @ es \<and> alloc_log img n es)"
  by (auto simp: allocateFile_def alloc_log_def split: prod.splits option.splits dest!: runD createFileD)

section \<open>Resources: what a run holds and releases\<close>

text \<open>
  The three things a creation or an unlock acquires outside the process: the image file, the
  open mapper device, the mounted file system. \<open>acquired\<close> and \<open>released\<close> read an event of the
  log; an allocation counts from its attempt (it may leave a partial file), a release is the
  attempt to release. \<open>holds\<close> runs a log as a stack machine: only what is held can be
  released, last acquired first.
\<close>

datatype resource = Image | Device | Filesystem

definition acquired :: "event \<Rightarrow> resource option" where
  "acquired e = (case e of
     Ran c ok \<Rightarrow>
       if take 1 (argv c) = [''fallocate''] then Some Image
       else if take 2 (argv c) = [''cryptsetup'', ''luksOpen''] \<and> ok then Some Device
       else if take 1 (argv c) = [''mount''] \<and> ok then Some Filesystem
       else None
   | RanDd _ _ \<Rightarrow> Some Image
   | _ \<Rightarrow> None)"

definition released :: "string \<Rightarrow> event \<Rightarrow> resource option" where
  "released img e = (case e of
     Ran c _ \<Rightarrow>
       if take 2 (argv c) = [''cryptsetup'', ''luksClose''] then Some Device
       else if take 1 (argv c) = [''umount''] then Some Filesystem
       else None
   | Removed p _ \<Rightarrow> if p = img then Some Image else None
   | _ \<Rightarrow> None)"

fun holds :: "string \<Rightarrow> resource list \<Rightarrow> event list \<Rightarrow> resource list option" where
  "holds img st [] = Some st"
| "holds img st (e # es) =
     (case acquired e of
        Some r \<Rightarrow> if r \<in> set st then None else holds img (r # st) es
      | None \<Rightarrow>
     (case released img e of
        Some r \<Rightarrow> (case st of [] \<Rightarrow> None | x # xs \<Rightarrow> if x = r then holds img xs es else None)
      | None \<Rightarrow> holds img st es))"

lemma holds_append:
  "holds img st (es @ fs) = (case holds img st es of None \<Rightarrow> None | Some st' \<Rightarrow> holds img st' fs)"
  by (induction img st es rule: holds.induct) (simp_all split: option.splits list.splits)

lemma acquired_cmds [simp]:
  "acquired (Ran (Cmd b (fallocate_argv n img) i) ok) = Some Image"
  "acquired (RanDd a ok) = Some Image"
  "acquired (Ran (luksOpen_cmd img m pw) ok) = (if ok then Some Device else None)"
  "acquired (Ran (mount_cmd b m mp) ok) = (if ok then Some Filesystem else None)"
  "acquired (Ran (luksFormat_cmd img pw) ok) = None"
  "acquired (Ran (mkfs_cmd m) ok) = None"
  "acquired (Ran (umount_cmd b mp) ok) = None"
  "acquired (Ran (luksClose_cmd b m) ok) = None"
  "acquired (Ran (Cmd b [''modprobe'', ''loop''] i) ok) = None"
  "acquired (MkdirAll p ok) = None" "acquired (Removed p ok) = None" "acquired (Chmod p k ok) = None"
  "acquired (LogError l) = None"
  by (simp_all add: acquired_def fallocate_argv_def luksOpen_cmd_def mount_cmd_def luksFormat_cmd_def
      mkfs_cmd_def umount_cmd_def luksClose_cmd_def)

lemma released_cmds [simp]:
  "released img (Ran (luksOpen_cmd i m pw) ok) = None"
  "released img (Ran (mount_cmd b m mp) ok) = None"
  "released img (Ran (luksFormat_cmd i pw) ok) = None"
  "released img (Ran (mkfs_cmd m) ok) = None"
  "released img (Ran (umount_cmd b mp) ok) = Some Filesystem"
  "released img (Ran (luksClose_cmd b m) ok) = Some Device"
  "released img (Ran (Cmd b [''modprobe'', ''loop''] i) ok) = None"
  "released img (MkdirAll p ok) = None" "released img (Chmod p k ok) = None"
  "released img (Removed p ok) = (if p = img then Some Image else None)"
  "released img (LogError l) = None"
  by (simp_all add: released_def luksOpen_cmd_def mount_cmd_def luksFormat_cmd_def
      mkfs_cmd_def umount_cmd_def luksClose_cmd_def)

text \<open>What has to be held when a creation fails with a given undo, for the undo to be right.\<close>

fun undo_stack :: "undo \<Rightarrow> resource list" where
  "undo_stack UndoNothing = []"
| "undo_stack UndoImage = [Image]"
| "undo_stack UndoOpen = [Device, Image]"
| "undo_stack UndoMountPoint = [Device, Image]"
| "undo_stack UndoMounted = [Filesystem, Device, Image]"

lemma create_preflightD:
  assumes "create_preflight H name path img n s = (r, s')"
  shows "sdb s' = sdb s \<and> (\<exists>es. sevents s' = sevents s @ es \<and> holds i st es = Some st
    \<and> (\<forall>f. r = Some f \<longrightarrow> f_undo f = UndoNothing)
    \<and> (r = None \<longrightarrow> \<not> exists H img s' \<and> \<not> exists H (mapper_path name) s'))"
  using assms
  by (auto simp: create_preflight_def split: prod.splits option.splits if_splits
      dest!: mkdir_allD ensureLoopSupportD)

lemma alloc_log_holds: "alloc_log img n es \<Longrightarrow> holds img [] es = Some [Image]"
  by (auto simp: alloc_log_def)

lemma create_luksD:
  assumes "create_luks H name img n pw s = (r, s')"
  shows "sdb s' = sdb s \<and> (\<exists>es. sevents s' = sevents s @ es \<and>
    (case r of Some f \<Rightarrow> f_undo f = UndoImage \<and> holds img [] es = Some [Image]
     | None \<Rightarrow> holds img [] es = Some [Device, Image]
         \<and> (\<exists>pre. alloc_log img n pre \<and> es = pre @ [Ran (luksFormat_cmd img pw) True, Ran (luksOpen_cmd img name pw) True])))"
  using assms
  by (auto simp: create_luks_def holds_append alloc_log_holds split: prod.splits option.splits
      dest!: allocateFileD runD)

lemma create_mountD:
  assumes "create_mount H name mp s = (r, s')"
  shows "sdb s' = sdb s \<and> (\<exists>es. sevents s' = sevents s @ es \<and>
    (case r of Some f \<Rightarrow> holds img [Device, Image] es = Some (undo_stack (f_undo f))
     | None \<Rightarrow> es = [Ran (mkfs_cmd name) True, MkdirAll mp True, Ran (mount_cmd True name mp) True, Chmod mp 0x1FF True]))"
  using assms
  by (auto simp: create_mount_def split: prod.splits option.splits dest!: runD mkdir_allD chmodD)

lemma create_prepareD:
  assumes "create_prepare H name path img n pw mp s = (r, s')"
  shows "sdb s' = sdb s \<and> (\<exists>es. sevents s' = sevents s @ es \<and>
    holds img [] es = Some (case r of Some f \<Rightarrow> undo_stack (f_undo f) | None \<Rightarrow> [Filesystem, Device, Image]))"
proof -
  obtain r1 s1 where p: "create_preflight H name path img n s = (r1, s1)" by fastforce
  obtain es1 where e1: "sdb s1 = sdb s" "sevents s1 = sevents s @ es1" "holds img [] es1 = Some []"
    "\<forall>f. r1 = Some f \<longrightarrow> f_undo f = UndoNothing"
    using create_preflightD [OF p, of img "[]"] by blast
  show ?thesis
  proof (cases r1)
    case (Some f)
    then show ?thesis using assms p e1 by (auto simp: create_prepare_def)
  next
    case r1: None
    obtain r2 s2 where l: "create_luks H name img n pw s1 = (r2, s2)" by fastforce
    obtain es2 where e2: "sdb s2 = sdb s1" "sevents s2 = sevents s1 @ es2"
      "holds img [] es2 = Some (case r2 of Some f \<Rightarrow> undo_stack (f_undo f) | None \<Rightarrow> [Device, Image])"
      using create_luksD [OF l] by (auto split: option.splits)
    show ?thesis
    proof (cases r2)
      case (Some f)
      then show ?thesis using assms p l r1 e1 e2 by (auto simp: create_prepare_def holds_append)
    next
      case r2: None
      then have m: "create_mount H name mp s2 = (r, s')"
        using assms p l r1 by (simp add: create_prepare_def)
      show ?thesis
        using create_mountD [OF m, of img] e1 e2 r2
        by (auto simp: holds_append split: option.splits)
    qed
  qed
qed

lemma create_undoD:
  assumes "mp \<noteq> img"
  shows "sdb (create_undo H name img mp f s) = sdb s \<and>
    (\<exists>es. sevents (create_undo H name img mp f s) = sevents s @ es \<and> LogError (f_ctx f) \<in> set es
      \<and> holds img (undo_stack (f_undo f)) es = Some [])"
  using assms by (cases "f_undo f") (simp_all add: create_undo_def Let_def)

lemma create_commitD:
  assumes "create_commit H name img n mp s = (r, s')"
  shows "sevents s' = sevents s \<and> (\<forall>f. r = Inl f \<longrightarrow> f_undo f = UndoMounted)
    \<and> (\<forall>v. r = Inr v \<longrightarrow> v_name v = name \<and> v_path v = img \<and> v_mount v = mp \<and> v_mapper v = name \<and> v_size v = n
         \<and> (\<exists>now. insert_vault now name img n mp name (sdb s) = Inr (v_id v, sdb s')))"
  using assms
  by (auto simp: create_commit_def split: prod.splits sum.splits dest: CreateVaultD CreateVault_Inr)

text \<open>The outcome of the pipeline: on failure exactly what its undo expects is held.\<close>

lemma create_outcomeD:
  assumes "create_outcome H name path n pw mp s = (r, s')"
  shows "\<exists>es. sevents s' = sevents s @ es \<and> holds (image_path path name) [] es =
    Some (case r of Inl f \<Rightarrow> undo_stack (f_undo f) | Inr _ \<Rightarrow> [Filesystem, Device, Image])"
proof -
  let ?img = "image_path path name"
  obtain r1 s1 where p: "create_prepare H name path ?img n pw mp s = (r1, s1)" by fastforce
  obtain es where es: "sevents s1 = sevents s @ es"
    "holds ?img [] es = Some (case r1 of Some f \<Rightarrow> undo_stack (f_undo f) | None \<Rightarrow> [Filesystem, Device, Image])"
    using create_prepareD [OF p] by blast
  show ?thesis
  proof (cases r1)
    case (Some f)
    then show ?thesis using assms p es by (auto simp: create_outcome_def)
  next
    case None
    then have c: "create_commit H name ?img n mp s1 = (r, s')"
      using assms p by (simp add: create_outcome_def)
    show ?thesis using create_commitD [OF c] es None by (auto split: sum.splits)
  qed
qed

end
