(* ===== verification/VaultOps.thy ===== *)
theory VaultOps
  imports Create
begin

text \<open>
  \<open>internal/vault/vault.go\<close>, the operations on an existing vault: unlock, lock, mount, delete,
  and the locking of every vault at shutdown. Each returns the source's error text, if any.
\<close>

section \<open>Unlock\<close>

definition luksOpen_args :: "string list \<Rightarrow> vault \<Rightarrow> string list" where
  "luksOpen_args extraArgs v = [''cryptsetup'', ''luksOpen''] @ extraArgs @ [v_path v, v_mapper v]"

definition unlockWith :: "'w host \<Rightarrow> vault \<Rightarrow> string \<Rightarrow> string list \<Rightarrow> ('w, 'z) sys_scheme \<Rightarrow>
    string option \<times> ('w, 'z) sys_scheme" where
  "unlockWith H v input extraArgs s =
     (if IsUnlocked H v s then (Some ''vault is already unlocked'', s)
      else (case run H (Cmd True (luksOpen_args extraArgs v) input) s of
        ((out, Some _), s1) \<Rightarrow> (Some (''luksOpen: '' @ trim_space out), s1)
      | ((out, None), s1) \<Rightarrow>
     (case mkdir_all H (v_mount v) s1 of
        (Some e, s2) \<Rightarrow> (Some (''create mount point: '' @ os_error_text e),
                          snd (run H (luksClose_cmd False (v_mapper v)) s2))
      | (None, s2) \<Rightarrow>
     (case run H (mount_cmd True (v_mapper v) (v_mount v)) s2 of
        ((out2, Some _), s3) \<Rightarrow> (Some (''mount: '' @ trim_space out2),
                                  snd (run H (luksClose_cmd False (v_mapper v)) s3))
      | ((out2, None), s3) \<Rightarrow> (None, s3)))))"

definition UnlockContext :: "'w host \<Rightarrow> vault \<Rightarrow> string \<Rightarrow> ('w, 'z) sys_scheme \<Rightarrow>
    string option \<times> ('w, 'z) sys_scheme" where
  "UnlockContext H v password s = unlockWith H v password [] s"

definition UnlockKeyFileContext :: "'w host \<Rightarrow> vault \<Rightarrow> string \<Rightarrow> ('w, 'z) sys_scheme \<Rightarrow>
    string option \<times> ('w, 'z) sys_scheme" where
  "UnlockKeyFileContext H v key s = unlockWith H v key (keyfile_args key) s"

section \<open>Lock\<close>

definition LockContext :: "'w host \<Rightarrow> vault \<Rightarrow> ('w, 'z) sys_scheme \<Rightarrow> string option \<times> ('w, 'z) sys_scheme" where
  "LockContext H v s =
     (case StatusIn H v (ReadMounts H s) s of (unlocked, mounted) \<Rightarrow>
        if \<not> unlocked then (Some ''vault is already locked'', s)
        else (case (if mounted
                    then (case run H (umount_cmd True (v_mount v)) s of
                            ((out, Some _), s1) \<Rightarrow> (Some (''umount: '' @ trim_space out), s1)
                          | ((out, None), s1) \<Rightarrow> (None, s1))
                    else (None, s)) of
          (Some e, s1) \<Rightarrow> (Some e, s1)
        | (None, s1) \<Rightarrow>
            (case run H (luksClose_cmd True (v_mapper v)) s1 of
               ((out, Some _), s2) \<Rightarrow> (Some (''luksClose: '' @ trim_space out), s2)
             | ((out, None), s2) \<Rightarrow> (None, s2))))"

text \<open>\<open>VaultLockError\<close>: the vault's name and why it could not be locked.\<close>

type_synonym lock_error = "string \<times> string"

fun lock_each :: "'w host \<Rightarrow> vault list \<Rightarrow> ('w, 'z) sys_scheme \<Rightarrow> lock_error list \<times> ('w, 'z) sys_scheme" where
  "lock_each H [] s = ([], s)"
| "lock_each H (v # vs) s =
     (if \<not> IsUnlocked H v s then lock_each H vs s
      else (case LockContext H v s of
        (err, s1) \<Rightarrow> (case lock_each H vs s1 of
          (failures, s2) \<Rightarrow> ((case err of Some e \<Rightarrow> (v_name v, e) # failures | None \<Rightarrow> failures), s2))))"

definition LockAllUnlocked :: "'w host \<Rightarrow> ('w, 'z) sys_scheme \<Rightarrow> lock_error list \<times> ('w, 'z) sys_scheme" where
  "LockAllUnlocked H s =
     (case ListVaults H s of
        (Inl e, s1) \<Rightarrow> ([(''(list vaults)'', db_error_text e)], s1)
      | (Inr vs, s1) \<Rightarrow> lock_each H vs s1)"

section \<open>Mount and Delete\<close>

definition Mount :: "'w host \<Rightarrow> vault \<Rightarrow> ('w, 'z) sys_scheme \<Rightarrow> string option \<times> ('w, 'z) sys_scheme" where
  "Mount H v s =
     (case StatusIn H v (ReadMounts H s) s of (unlocked, mounted) \<Rightarrow>
        if \<not> unlocked then (Some ''vault is not unlocked'', s)
        else if mounted then (Some ''vault is already mounted'', s)
        else (case mkdir_all H (v_mount v) s of
          (Some e, s1) \<Rightarrow> (Some (''create mount point: '' @ os_error_text e), s1)
        | (None, s1) \<Rightarrow>
            (case run H (mount_cmd False (v_mapper v) (v_mount v)) s1 of
               ((out, Some _), s2) \<Rightarrow> (Some (''mount: '' @ trim_space out), s2)
             | ((out, None), s2) \<Rightarrow> (None, s2))))"

definition is_not_exist :: "os_error \<Rightarrow> bool" where
  "is_not_exist e = (case e of NotExist _ \<Rightarrow> True | OtherError _ \<Rightarrow> False)"

definition Delete :: "'w host \<Rightarrow> vault \<Rightarrow> ('w, 'z) sys_scheme \<Rightarrow> string option \<times> ('w, 'z) sys_scheme" where
  "Delete H v s =
     (if IsUnlocked H v s then (Some ''vault must be locked before deletion'', s)
      else (case remove H (v_path v) s of
        (Some e, s1) \<Rightarrow> (Some (os_error_text e), s1)
      | (None, s1) \<Rightarrow>
     (case remove H (v_mount v) s1 of
        (Some e, s2) \<Rightarrow> if is_not_exist e then (None, s2)
                         else (Some (''remove mount point: '' @ os_error_text e), s2)
      | (None, s2) \<Rightarrow> (None, s2))))"

section \<open>What the operations add to the log\<close>

lemma run_more [simp]: "sys.more (snd (run H c s)) = sys.more s"
  using runD [of H c s] by (metis prod.collapse)

lemma unlockWithD:
  assumes "unlockWith H v input extra s = (r, s')"
  shows "sdb s' = sdb s \<and> sys.more s' = sys.more s \<and>
    (r = Some ''vault is already unlocked'' \<and> s' = s \<and> IsUnlocked H v s
     \<or> r \<noteq> None \<and> sevents s' = sevents s @ [Ran (Cmd True (luksOpen_args extra v) input) False]
     \<or> r \<noteq> None \<and> (\<exists>b. sevents s' = sevents s @ [Ran (Cmd True (luksOpen_args extra v) input) True,
          MkdirAll (v_mount v) False, Ran (luksClose_cmd False (v_mapper v)) b])
     \<or> r \<noteq> None \<and> (\<exists>b. sevents s' = sevents s @ [Ran (Cmd True (luksOpen_args extra v) input) True,
          MkdirAll (v_mount v) True, Ran (mount_cmd True (v_mapper v) (v_mount v)) False,
          Ran (luksClose_cmd False (v_mapper v)) b])
     \<or> r = None \<and> sevents s' = sevents s @ [Ran (Cmd True (luksOpen_args extra v) input) True,
          MkdirAll (v_mount v) True, Ran (mount_cmd True (v_mapper v) (v_mount v)) True])"
  using assms
  by (auto simp: unlockWith_def split: if_splits prod.splits option.splits dest!: runD mkdir_allD)

lemma LockContextD:
  assumes "LockContext H v s = (r, s')"
  shows "sdb s' = sdb s \<and> sys.more s' = sys.more s \<and>
    (if \<not> IsUnlocked H v s then r = Some ''vault is already locked'' \<and> s' = s
     else if IsMounted H v s
       then sevents s' = sevents s @ [Ran (umount_cmd True (v_mount v)) False] \<and> r \<noteq> None
         \<or> sevents s' = sevents s @ [Ran (umount_cmd True (v_mount v)) True,
              Ran (luksClose_cmd True (v_mapper v)) (r = None)]
       else sevents s' = sevents s @ [Ran (luksClose_cmd True (v_mapper v)) (r = None)])"
  using assms
  by (auto simp: LockContext_def StatusIn_live split: if_splits prod.splits option.splits dest!: runD)

lemma MountD:
  assumes "Mount H v s = (r, s')"
  shows "sdb s' = sdb s \<and> sys.more s' = sys.more s \<and>
    (if \<not> IsUnlocked H v s \<or> IsMounted H v s then r \<noteq> None \<and> s' = s
     else sevents s' = sevents s @ [MkdirAll (v_mount v) False] \<and> r \<noteq> None
       \<or> sevents s' = sevents s @ [MkdirAll (v_mount v) True, Ran (mount_cmd False (v_mapper v) (v_mount v)) (r = None)])"
  using assms
  by (auto simp: Mount_def StatusIn_live split: if_splits prod.splits option.splits dest!: runD mkdir_allD)

lemma DeleteD:
  assumes "Delete H v s = (r, s')"
  shows "sdb s' = sdb s \<and> sys.more s' = sys.more s \<and>
    (if IsUnlocked H v s then r \<noteq> None \<and> s' = s
     else sevents s' = sevents s @ [Removed (v_path v) False] \<and> r \<noteq> None
       \<or> (\<exists>b. sevents s' = sevents s @ [Removed (v_path v) True, Removed (v_mount v) b]))"
  using assms
  by (auto simp: Delete_def split: if_splits prod.splits option.splits dest!: removeD)

lemma lock_eachD:
  "lock_each H vs s = (fs, s') \<Longrightarrow> sdb s' = sdb s \<and> sys.more s' = sys.more s
     \<and> fst ` set fs \<subseteq> v_name ` set vs"
proof (induction vs arbitrary: s fs s')
  case Nil
  then show ?case by simp
next
  case (Cons v vs)
  show ?case
  proof (cases "IsUnlocked H v s")
    case False
    with Cons.prems Cons.IH [of s fs s'] show ?thesis by auto
  next
    case True
    obtain e s1 where l: "LockContext H v s = (e, s1)" by fastforce
    obtain fs2 s2 where t: "lock_each H vs s1 = (fs2, s2)" by fastforce
    have eq: "fs = (case e of Some e \<Rightarrow> (v_name v, e) # fs2 | None \<Rightarrow> fs2)" "s' = s2"
      using Cons.prems True l t by auto
    show ?thesis
      using LockContextD [OF l] Cons.IH [OF t] eq by (auto split: option.splits)
  qed
qed

lemma acquired_open [simp]:
  "acquired (Ran (Cmd b (luksOpen_args extra v) i) ok) = (if ok then Some Device else None)"
  "released img (Ran (Cmd b (luksOpen_args extra v) i) ok) = None"
  by (simp_all add: acquired_def released_def luksOpen_args_def)

section \<open>Credentials stay off the command lines\<close>

text \<open>
  What an observer of the process table sees of a log: every argument vector, but neither the
  standard input of a process nor the contents of a file.
\<close>

definition visible :: "event \<Rightarrow> event" where
  "visible e = (case e of Ran c ok \<Rightarrow> Ran (Cmd (bounded c) (argv c) []) ok
                | Wrote p _ ok \<Rightarrow> Wrote p [] ok | _ \<Rightarrow> e)"

text \<open>A host whose answers do not depend on what it cannot show either: used to compare two runs.\<close>

definition stdin_blind :: "'w host \<Rightarrow> bool" where
  "stdin_blind H \<longleftrightarrow> (\<forall>b a i j w. h_run H (Cmd b a i) w = h_run H (Cmd b a j) w)
     \<and> (\<forall>p d e w. h_write H p d w = h_write H p e w)"

text \<open>Two states that look the same to the observer.\<close>

definition same_view :: "('w, 'z) sys_scheme \<Rightarrow> ('w, 'z) sys_scheme \<Rightarrow> bool" where
  "same_view s t \<longleftrightarrow> sworld s = sworld t \<and> sdb s = sdb t \<and> sys.more s = sys.more t
     \<and> map visible (sevents s) = map visible (sevents t)"

definition same_result :: "'r \<times> ('w, 'z) sys_scheme \<Rightarrow> 'r \<times> ('w, 'z) sys_scheme \<Rightarrow> bool" where
  "same_result p q \<longleftrightarrow> fst p = fst q \<and> same_view (snd p) (snd q)"

lemma same_viewD: "same_view s t \<Longrightarrow> sworld s = sworld t \<and> sdb s = sdb t"
  by (simp add: same_view_def)

lemma same_run:
  assumes "stdin_blind H" "same_view s t"
  shows "same_result (run H (Cmd b a i) s) (run H (Cmd b a j) t)"
proof -
  have eq: "h_run H (Cmd b a i) (sworld s) = h_run H (Cmd b a j) (sworld t)"
    using assms unfolding stdin_blind_def same_view_def by metis
  then show ?thesis using assms(2)
    by (auto simp: same_result_def same_view_def run_def step_world_def visible_def split: prod.splits)
qed

lemma same_write:
  assumes "stdin_blind H" "same_view s t"
  shows "same_result (write_file H p d s) (write_file H p e t)"
proof -
  have eq: "h_write H p d (sworld s) = h_write H p e (sworld t)"
    using assms unfolding stdin_blind_def same_view_def by metis
  then show ?thesis using assms(2)
    by (auto simp: same_result_def same_view_def write_file_def step_world_def visible_def split: prod.splits)
qed

lemma same_other:
  assumes "same_view s t"
  shows "same_result (remove H p s) (remove H p t)" "same_result (mkdir_all H p s) (mkdir_all H p t)"
    "same_result (chmod H p m s) (chmod H p m t)" "same_result (close_file H p s) (close_file H p t)"
    "same_result (create_temp H s) (create_temp H t)"
    "IsUnlocked H v s = IsUnlocked H v t"
  using assms
  by (auto simp: same_result_def same_view_def remove_def mkdir_all_def chmod_def close_file_def
      create_temp_def step_world_def visible_def IsUnlocked_def IsMounted_def ReadMounts_def exists_def
      split: prod.splits sum.splits)

text \<open>Sequencing: the same continuation on equal results from states that look the same.\<close>

lemma same_resultE:
  assumes "same_result p q"
  obtains r s t where "p = (r, s)" "q = (r, t)" "same_view s t"
  using assms by (cases p; cases q) (auto simp: same_result_def)

lemma same_snd: "same_result p q \<Longrightarrow> same_view (snd p) (snd q)"
  by (simp add: same_result_def)

lemma same_pair: "same_view s t \<Longrightarrow> same_result (r, s) (r, t)"
  by (simp add: same_result_def)

lemma same_unlockWith:
  assumes H: "stdin_blind H" and st: "same_view s t"
  shows "same_result (unlockWith H v i extra s) (unlockWith H v j extra t)"
proof (cases "IsUnlocked H v s")
  case True
  then show ?thesis using same_other(6) [OF st] st by (simp add: unlockWith_def same_pair)
next
  case False
  note locked = False same_other(6) [OF st]
  obtain r1 s1 t1 where 1: "run H (Cmd True (luksOpen_args extra v) i) s = (r1, s1)"
      "run H (Cmd True (luksOpen_args extra v) j) t = (r1, t1)" "same_view s1 t1"
    by (rule same_resultE [OF same_run [OF H st]])
  obtain r2 s2 t2 where 2: "mkdir_all H (v_mount v) s1 = (r2, s2)" "mkdir_all H (v_mount v) t1 = (r2, t2)"
      "same_view s2 t2"
    by (rule same_resultE [OF same_other(2) [OF 1(3)]])
  obtain r3 s3 t3 where 3: "run H (mount_cmd True (v_mapper v) (v_mount v)) s2 = (r3, s3)"
      "run H (mount_cmd True (v_mapper v) (v_mount v)) t2 = (r3, t3)" "same_view s3 t3"
    unfolding mount_cmd_def by (rule same_resultE [OF same_run [OF H 2(3)]])
  have close: "same_view (snd (run H (luksClose_cmd False (v_mapper v)) a)) (snd (run H (luksClose_cmd False (v_mapper v)) b))"
    if "same_view a b" for a b :: "('a, 'b) sys_scheme"
    unfolding luksClose_cmd_def by (rule same_snd [OF same_run [OF H that]])
  show ?thesis
    using locked 1 2 3 close [OF 2(3)] close [OF 3(3)]
    by (cases r1; cases r3) (auto simp: unlockWith_def same_result_def split: option.splits)
qed

lemma same_grow_device:
  assumes H: "stdin_blind H" and st: "same_view s t" and len: "length k = length k'"
  shows "same_result (grow_device H v k s) (grow_device H v k' t)"
proof -
  have eq: "resize_argv v k' = resize_argv v k" using len by (simp add: resize_argv_def keyfile_args_def)
  obtain r1 s1 t1 where 1: "run H (Cmd True (resize_argv v k) k) s = (r1, s1)"
      "run H (Cmd True (resize_argv v k) k') t = (r1, t1)" "same_view s1 t1"
    by (rule same_resultE [OF same_run [OF H st]])
  obtain r2 s2 t2 where 2: "run H (Cmd True [''resize2fs'', mapper_path (v_mapper v)] []) s1 = (r2, s2)"
      "run H (Cmd True [''resize2fs'', mapper_path (v_mapper v)] []) t1 = (r2, t2)" "same_view s2 t2"
    by (rule same_resultE [OF same_run [OF H 1(3)]])
  show ?thesis
    using 1 2 by (cases r1; cases r2) (auto simp: grow_device_def eq same_result_def split: option.splits)
qed

lemma same_appendFile:
  assumes H: "stdin_blind H" and st: "same_view s t"
  shows "same_result (appendFile H p n s) (appendFile H p n t)"
proof (cases "h_stat H p (sworld s)")
  case (Inl e)
  then show ?thesis using st by (simp add: appendFile_def same_result_def same_view_def)
next
  case (Inr sz)
  have eq: "sworld t = sworld s" using st by (simp add: same_view_def)
  obtain r1 s1 t1 where 1: "run H (Cmd True (append_argv p sz n) []) s = (r1, s1)"
      "run H (Cmd True (append_argv p sz n) []) t = (r1, t1)" "same_view s1 t1"
    by (rule same_resultE [OF same_run [OF H st]])
  show ?thesis
    using 1 Inr eq by (cases r1) (auto simp: appendFile_def same_result_def split: option.splits)
qed

lemma same_Grow:
  assumes H: "stdin_blind H" and st: "same_view s t" and len: "length k = length k'"
  shows "same_result (Grow H v n k s) (Grow H v n k' t)"
proof -
  have w: "sworld t = sworld s" using st by (simp add: same_view_def)
  obtain r1 s1 t1 where 1: "run H (Cmd True (fallocate_argv n (v_path v)) []) s = (r1, s1)"
      "run H (Cmd True (fallocate_argv n (v_path v)) []) t = (r1, t1)" "same_view s1 t1"
    by (rule same_resultE [OF same_run [OF H st]])
  obtain r2 s2 t2 where 2: "appendFile H (v_path v) (wrap64 (n - v_size v)) s1 = (r2, s2)"
      "appendFile H (v_path v) (wrap64 (n - v_size v)) t1 = (r2, t2)" "same_view s2 t2"
    by (rule same_resultE [OF same_appendFile [OF H 1(3)]])
  show ?thesis
    using 1 2 st same_grow_device [OF H 1(3) len, of v] same_grow_device [OF H 2(3) len, of v]
    by (cases r1) (auto simp: Grow_def Let_def checkDiskSpace_def w same_pair split: option.splits sum.splits)
qed

lemma same_AddKey:
  assumes H: "stdin_blind H" and st: "same_view s t"
  shows "same_result (AddKey H v old new slot s) (AddKey H v old' new' slot t)"
proof -
  let ?a = "[''cryptsetup'', ''luksAddKey'', ''--batch-mode'', v_path v] @ slot_args slot"
  obtain r1 s1 t1 where 1: "run H (Cmd False ?a (addkey_stdin old new)) s = (r1, s1)"
      "run H (Cmd False ?a (addkey_stdin old' new')) t = (r1, t1)" "same_view s1 t1"
    by (rule same_resultE [OF same_run [OF H st]])
  show ?thesis
    using 1 by (cases r1) (auto simp: AddKey_def same_result_def split: option.splits)
qed

lemma same_KillSlot:
  assumes H: "stdin_blind H" and st: "same_view s t"
  shows "same_result (KillSlot H v pw slot s) (KillSlot H v pw' slot t)"
proof -
  obtain r1 s1 t1 where 1: "run H (Cmd False [''cryptsetup'', ''luksKillSlot'', v_path v, itoa slot] pw) s = (r1, s1)"
      "run H (Cmd False [''cryptsetup'', ''luksKillSlot'', v_path v, itoa slot] pw') t = (r1, t1)" "same_view s1 t1"
    by (rule same_resultE [OF same_run [OF H st]])
  show ?thesis
    using 1 by (cases r1) (auto simp: KillSlot_def same_result_def split: option.splits)
qed

lemma same_KillSlotKeyFile:
  assumes H: "stdin_blind H" and st: "same_view s t" and len: "length k = length k'"
  shows "same_result (KillSlotKeyFile H v k slot s) (KillSlotKeyFile H v k' slot t)"
proof -
  let ?a = "[''cryptsetup'', ''luksKillSlot''] @ keyfile_args k @ [v_path v, itoa slot]"
  have eq: "keyfile_args k' = keyfile_args k" using len by (simp add: keyfile_args_def)
  obtain r1 s1 t1 where 1: "run H (Cmd False ?a k) s = (r1, s1)" "run H (Cmd False ?a k') t = (r1, t1)"
      "same_view s1 t1"
    by (rule same_resultE [OF same_run [OF H st]])
  show ?thesis
    using 1 eq by (cases r1) (auto simp: KillSlotKeyFile_def same_result_def split: option.splits)
qed

lemma same_AddKeyFile_body:
  assumes H: "stdin_blind H" and st: "same_view s t" and len: "length e = length e'"
  shows "same_result (addkeyfile_body H v e n slot tmp s) (addkeyfile_body H v e' n' slot tmp t)"
proof -
  let ?a = "[''cryptsetup'', ''luksAddKey'', ''--batch-mode''] @ keyfile_args e @ slot_args slot @ [v_path v, tmp]"
  have eq: "keyfile_args e' = keyfile_args e" using len by (simp add: keyfile_args_def)
  obtain r1 s1 t1 where 1: "chmod H tmp 0x180 s = (r1, s1)" "chmod H tmp 0x180 t = (r1, t1)" "same_view s1 t1"
    by (rule same_resultE [OF same_other(3) [OF st]])
  obtain r2 s2 t2 where 2: "write_file H tmp n s1 = (r2, s2)" "write_file H tmp n' t1 = (r2, t2)" "same_view s2 t2"
    by (rule same_resultE [OF same_write [OF H 1(3)]])
  obtain r3 s3 t3 where 3: "close_file H tmp s2 = (r3, s3)" "close_file H tmp t2 = (r3, t3)" "same_view s3 t3"
    by (rule same_resultE [OF same_other(4) [OF 2(3)]])
  obtain r4 s4 t4 where 4: "run H (Cmd False ?a e) s3 = (r4, s4)" "run H (Cmd False ?a e') t3 = (r4, t4)"
      "same_view s4 t4"
    by (rule same_resultE [OF same_run [OF H 3(3)]])
  show ?thesis
    using 1 2 3 4 eq same_snd [OF same_other(4) [OF 1(3), of H tmp]] same_snd [OF same_other(4) [OF 2(3), of H tmp]]
    by (cases r4) (auto simp: addkeyfile_body_def same_result_def split: option.splits)
qed

lemma same_wipe:
  assumes H: "stdin_blind H" and st: "same_view s t"
  shows "same_view (wipe_temp H tmp n s) (wipe_temp H tmp n t)"
  unfolding wipe_temp_def Let_def by (intro same_snd same_other(1) same_write H st)

lemma same_AddKeyFile:
  assumes H: "stdin_blind H" and st: "same_view s t" and len: "length e = length e'" "length n = length n'"
  shows "same_result (AddKeyFile H v e n slot s) (AddKeyFile H v e' n' slot t)"
proof -
  obtain r1 s1 t1 where 1: "create_temp H s = (r1, s1)" "create_temp H t = (r1, t1)" "same_view s1 t1"
    by (rule same_resultE [OF same_other(5) [OF st]])
  show ?thesis
  proof (cases r1)
    case (Inl x)
    then show ?thesis using 1 by (simp add: AddKeyFile_def same_result_def)
  next
    case (Inr tmp)
    obtain r2 s2 t2 where 2: "addkeyfile_body H v e n slot tmp s1 = (r2, s2)"
        "addkeyfile_body H v e' n' slot tmp t1 = (r2, t2)" "same_view s2 t2"
      by (rule same_resultE [OF same_AddKeyFile_body [OF H 1(3) len(1)]])
    show ?thesis
      using 1 2 Inr len(2) same_wipe [OF H 2(3), of tmp "length n'"]
      by (simp add: AddKeyFile_def same_result_def)
  qed
qed

end
