(* ===== verification/Api.thy ===== *)
theory Api
  imports VaultOps "HOL-Library.AList"
begin

text \<open>
  \<open>internal/api/api.go\<close>, what the handlers share: the server's configuration and state,
  requests and responses, the error messages, validation helpers, the client address and the
  rate limiters.

  Third-party and cryptographic code is a parameter (\<open>lib\<close>): the limiter of
  \<open>golang.org/x/time/rate\<close> over an abstract type \<open>'l\<close>, SHA-256 and the host part of
  \<open>url.Parse\<close>.
\<close>

section \<open>Configuration, requests, responses\<close>

record config =
  c_storage :: "string list"
  c_mounts :: "string list"
  c_user :: string
  c_pass :: string
  c_max_gb :: int
  c_proxy :: bool
  c_window :: "int option"
  c_idle :: int
  c_max_age :: int

text \<open>
  \<open>c_window\<close> is the auto-lock window in nanoseconds, \<open>None\<close> when the policy is off
  (\<open>autoLockHours <= 0\<close>); \<open>r_path\<close> is the path as the mux matches it, its segments after the
  first slash; \<open>r_header\<close> is \<open>Header.Get\<close>, empty for an absent header;
  \<open>r_id\<close> is the path value of the route's wildcard.
\<close>

record request =
  r_method :: string
  r_path :: "string list"
  r_host :: string
  r_remote :: string
  r_header :: "string \<Rightarrow> string"
  r_cookies :: "(string \<times> string) list"
  r_tls :: bool
  r_id :: string

record 'l lib =
  lim_new :: "int \<Rightarrow> nat \<Rightarrow> 'l"
  lim_allow :: "int \<Rightarrow> 'l \<Rightarrow> bool \<times> 'l"
  sha256 :: "string \<Rightarrow> string"
  url_host :: "string \<Rightarrow> string option"
  luks :: luks_lib

datatype api_msg =
    DbUnavailable | ListFailed | InvalidBody | AllFieldsRequired | PasswordTooShort | SizeTooBig int
  | BadVaultName | StorageNotAllowed | MountNotAllowed | NameInFlight | PathInFlight | JobIdFailed
  | JobNotFound | TooManyUnlocks | TooManyAttempts | InvalidVaultId | OneCredential | OpError string
  | OneExisting | OneNew | NewPasswordTooShort | SlotRange | AddedNoReread string
  | RemovedNoReread string | ImportFieldsRequired | NotInStorage | DatabaseError | NameExists
  | ImageRegistered string | MapperExists string | ImageUnreadable string | RegisterFailed
  | SizePositive | MustBeUnlocked | MustBeMounted | GrowOnly int | GrewNotRecorded | VaultNotFound
  | MustBeLocked | RemoveRecordFailed | TooManyLogins | CrossOrigin | InvalidTokenId | TokenNotFound
  | TokenNameRequired | TokenGenFailed | TokenExists | TokenFailed | CredentialsRequired
  | InvalidCredentials | SessionFailed | NotFoundPage | StreamingUnsupported | Unauthorized

primrec msg_text :: "api_msg \<Rightarrow> string" where
  "msg_text DbUnavailable = ''database unavailable''"
| "msg_text ListFailed = ''failed to list vaults''"
| "msg_text InvalidBody = ''invalid request body''"
| "msg_text AllFieldsRequired = ''all fields are required and size_gb must be positive''"
| "msg_text PasswordTooShort = ''password must be at least 8 characters''"
| "msg_text (SizeTooBig n) = ''size_gb exceeds maximum allowed size of '' @ itoa n @ '' GB''"
| "msg_text BadVaultName = ''vault name may only contain lowercase letters, numbers, and hyphens (max 64 chars)''"
| "msg_text StorageNotAllowed = ''storage directory not allowed''"
| "msg_text MountNotAllowed = ''mount directory not allowed''"
| "msg_text NameInFlight = ''vault creation already in progress for this name''"
| "msg_text PathInFlight = ''vault creation already in progress for this image path''"
| "msg_text JobIdFailed = ''failed to generate job id''"
| "msg_text JobNotFound = ''job not found''"
| "msg_text TooManyUnlocks = ''too many unlock attempts '' @ emdash @ '' wait before trying again''"
| "msg_text TooManyAttempts = ''too many attempts '' @ emdash @ '' wait before trying again''"
| "msg_text InvalidVaultId = ''invalid vault id''"
| "msg_text OneCredential = ''provide either password or key_file (not both)''"
| "msg_text (OpError e) = e"
| "msg_text OneExisting = ''provide either existing_password or existing_key_file (not both)''"
| "msg_text OneNew = ''provide either new_password or new_key_file (not both)''"
| "msg_text NewPasswordTooShort = ''new_password must be at least 8 characters''"
| "msg_text SlotRange = ''key_slot must be between 0 and 31''"
| "msg_text (AddedNoReread e) = ''keyslot added but failed to re-read header: '' @ e"
| "msg_text (RemovedNoReread e) = ''keyslot removed but failed to re-read header: '' @ e"
| "msg_text ImportFieldsRequired = ''name, path and mount_dir are required''"
| "msg_text NotInStorage = ''path is not inside an allowed storage directory''"
| "msg_text DatabaseError = ''database error''"
| "msg_text NameExists = ''a vault with this name already exists''"
| "msg_text (ImageRegistered n) = ''this image is already registered to vault '' @ quoted n"
| "msg_text (MapperExists n) = ''/dev/mapper/'' @ n @ '' already exists '' @ emdash
     @ '' close it first or choose a different vault name''"
| "msg_text (ImageUnreadable e) = ''image file is not readable: '' @ e"
| "msg_text RegisterFailed = ''failed to register vault''"
| "msg_text SizePositive = ''size_gb must be positive''"
| "msg_text MustBeUnlocked = ''vault must be unlocked before growing '' @ emdash @ '' unlock and mount it first''"
| "msg_text MustBeMounted = ''vault must be mounted before growing''"
| "msg_text (GrowOnly n) = ''grow only '' @ emdash @ '' vault is already '' @ itoa n
     @ '' GB; shrinking is not supported''"
| "msg_text GrewNotRecorded = ''vault grew but updating the record failed''"
| "msg_text VaultNotFound = ''vault not found''"
| "msg_text MustBeLocked = ''vault must be locked before deletion''"
| "msg_text RemoveRecordFailed = ''failed to remove vault record''"
| "msg_text TooManyLogins = ''too many failed login attempts '' @ emdash @ '' wait before trying again''"
| "msg_text CrossOrigin = ''cross-origin requests are not allowed''"
| "msg_text InvalidTokenId = ''invalid token id''"
| "msg_text TokenNotFound = ''token not found''"
| "msg_text TokenNameRequired = ''name is required (max 64 chars)''"
| "msg_text TokenGenFailed = ''failed to generate token''"
| "msg_text TokenExists = ''a token with this name already exists''"
| "msg_text TokenFailed = ''failed to create token''"
| "msg_text CredentialsRequired = ''user and password are required''"
| "msg_text InvalidCredentials = ''invalid credentials''"
| "msg_text SessionFailed = ''failed to create session''"
| "msg_text NotFoundPage = ''not found''"
| "msg_text StreamingUnsupported = ''streaming not supported''"
| "msg_text Unauthorized = ''Unauthorized''"

text \<open>The JSON shapes of the responses.\<close>

record vault_response =
  vr_vault :: vault
  vr_unlocked :: bool
  vr_mounted :: bool
  vr_used :: int
  vr_total :: int

record token_response =
  tr_id :: int
  tr_name :: string
  tr_created :: string
  tr_used :: string
  tr_token :: string

record cookie =
  ck_value :: string
  ck_secure :: bool
  ck_max_age :: int

datatype body =
    NoBody
  | ErrorBody api_msg
  | StatusBody
  | ConfigBody "string list" "string list"
  | VaultBody vault_response
  | VaultsBody "vault_response list"
  | DetailsBody luks_details
  | JobBody string
  | TokenBody token_response
  | TokensBody "token_response list"
  | OkBody
  | PageBody string
  | EventStream "progress list"

record response =
  status :: int
  payload :: body
  set_cookie :: "cookie option"
  location :: string
  challenge :: bool

definition reply :: "int \<Rightarrow> body \<Rightarrow> response" where
  "reply code b = \<lparr>status = code, payload = b, set_cookie = None, location = [], challenge = False\<rparr>"

definition jsonOK :: "body \<Rightarrow> response" where
  "jsonOK b = reply 200 b"

definition jsonErr :: "api_msg \<Rightarrow> int \<Rightarrow> response" where
  "jsonErr m code = reply code (ErrorBody m)"

section \<open>The server's state\<close>

record 'l limiter_entry =
  le_limiter :: 'l
  le_seen :: int

record session =
  se_created :: int
  se_seen :: int

record ('w, 'l) hstate = "'w sys" +
  jobs :: "string \<rightharpoonup> int"
  pendingNames :: "string set"
  pendingPaths :: "string set"
  unlockLimiters :: "string \<rightharpoonup> 'l limiter_entry"
  authLimiters :: "string \<rightharpoonup> 'l limiter_entry"
  sessions :: "string \<rightharpoonup> session"
  unlockedAt :: "(int \<times> int) list"

abbreviation second :: int where "second \<equiv> 1000000000"
abbreviation minute :: int where "minute \<equiv> 60000000000"

text \<open>The fields of the server that the calls of \<open>internal/vault\<close> and \<open>internal/db\<close> leave alone.\<close>

lemma hstate_more_eq:
  "sys.more (s :: ('w, 'l) hstate) = sys.more t \<longleftrightarrow>
     jobs s = jobs t \<and> pendingNames s = pendingNames t \<and> pendingPaths s = pendingPaths t
     \<and> unlockLimiters s = unlockLimiters t \<and> authLimiters s = authLimiters t \<and> sessions s = sessions t
     \<and> unlockedAt s = unlockedAt t"
  by (cases s; cases t) auto

section \<open>Validation\<close>

definition name_char :: "char \<Rightarrow> bool" where
  "name_char c \<longleftrightarrow> (CHR ''a'' \<le> c \<and> c \<le> CHR ''z'') \<or> (CHR ''0'' \<le> c \<and> c \<le> CHR ''9'') \<or> c = CHR ''-''"

definition isValidVaultName :: "string \<Rightarrow> bool" where
  "isValidVaultName s = (if s = [] \<or> 64 < length s then False else list_all name_char s)"

definition allowedStorageDir :: "config \<Rightarrow> string \<Rightarrow> bool" where
  "allowedStorageDir cfg path = list_ex (\<lambda>d. d = path) (c_storage cfg)"

definition allowedMountDir :: "config \<Rightarrow> string \<Rightarrow> bool" where
  "allowedMountDir cfg path = list_ex (\<lambda>d. d = path) (c_mounts cfg)"

definition decodeKeyFile :: "string \<Rightarrow> string + string" where
  "decodeKeyFile b64 =
     (case b64_decode b64 of
        None \<Rightarrow> Inl ''key_file is not valid base64''
      | Some data \<Rightarrow>
          if length data < MinKeyFileSize
          then Inl (''key_file must be at least '' @ itoa (int MinKeyFileSize) @ '' bytes'')
          else if MaxKeyFileSize < length data
          then Inl (''key_file exceeds maximum size of '' @ itoa (int MaxKeyFileSize) @ '' bytes'')
          else Inr data)"

text \<open>\<open>parseID\<close>: \<open>None\<close> is the parse error.\<close>

definition parseID :: "request \<Rightarrow> int option" where
  "parseID r = atoi_opt (r_id r)"

text \<open>The loop of \<open>pathInStorageDir\<close>: the first storage directory that is a prefix decides.\<close>

fun storage_match :: "(string \<Rightarrow> string option) \<Rightarrow> string \<Rightarrow> string list \<Rightarrow> bool" where
  "storage_match evalSymlinks cleaned [] = False"
| "storage_match evalSymlinks cleaned (d # ds) =
     (let dir = trim_suffix d ''/'' in
      if dir = [] \<or> \<not> prefix (dir @ ''/'') cleaned then storage_match evalSymlinks cleaned ds
      else (case (evalSymlinks dir, evalSymlinks cleaned) of
        (Some resolvedDir, Some resolved) \<Rightarrow> prefix (resolvedDir @ ''/'') resolved
      | _ \<Rightarrow> True))"

definition pathInStorageDir :: "'w host \<Rightarrow> config \<Rightarrow> string \<Rightarrow> ('w, 'z) sys_scheme \<Rightarrow> string \<times> bool" where
  "pathInStorageDir H cfg p s =
     (let cleaned = clean p in
      (cleaned, storage_match (\<lambda>q. h_symlinks H q (sworld s)) cleaned (c_storage cfg)))"

section \<open>Client addresses and rate limits\<close>

text \<open>
  \<open>net.SplitHostPort\<close> on an address of the form \<open>host:port\<close> or \<open>[host]:port\<close>: \<open>None\<close> for
  every form it refuses.
\<close>

definition split_host_port :: "string \<Rightarrow> string option" where
  "split_host_port a =
     (if CHR '':'' \<notin> set a then None
      else let r = rev a; port = takeWhile (\<lambda>c. c \<noteq> CHR '':'') r;
               host = rev (tl (dropWhile (\<lambda>c. c \<noteq> CHR '':'') r)) in
        if prefix ''['' host
        then (if suffix '']'' host \<and> length host \<ge> 2
                 \<and> (let h = butlast (tl host) in CHR ''['' \<notin> set h \<and> CHR '']'' \<notin> set h)
                 \<and> CHR ''['' \<notin> set port \<and> CHR '']'' \<notin> set port
              then Some (butlast (tl host)) else None)
        else if CHR '':'' \<in> set host \<or> CHR ''['' \<in> set a \<or> CHR '']'' \<in> set a then None
        else Some host)"

definition clientIP :: "request \<Rightarrow> bool \<Rightarrow> string" where
  "clientIP r trustProxy =
     (let xff = r_header r ''X-Forwarded-For'';
          fwd = trim_space (last (split_on CHR '','' xff)) in
      if trustProxy \<and> xff \<noteq> [] \<and> fwd \<noteq> [] then fwd
      else (case split_host_port (r_remote r) of None \<Rightarrow> r_remote r | Some ip \<Rightarrow> ip))"

text \<open>One attempt against the entry of a client, created on first use.\<close>

definition limiter_attempt :: "'l lib \<Rightarrow> int \<Rightarrow> int \<Rightarrow> string \<Rightarrow> (string \<rightharpoonup> 'l limiter_entry) \<Rightarrow>
    bool \<times> (string \<rightharpoonup> 'l limiter_entry)" where
  "limiter_attempt lib period now ip m =
     (let l = (case m ip of Some e \<Rightarrow> le_limiter e | None \<Rightarrow> lim_new lib period 5) in
      case lim_allow lib now l of
        (allowed, l') \<Rightarrow> (allowed, m(ip \<mapsto> \<lparr>le_limiter = l', le_seen = now\<rparr>)))"

definition unlockAllowed :: "'w host \<Rightarrow> 'l lib \<Rightarrow> config \<Rightarrow> request \<Rightarrow> ('w, 'l) hstate \<Rightarrow> bool \<times> ('w, 'l) hstate" where
  "unlockAllowed H lib cfg r s =
     (case limiter_attempt lib (30 * second) (h_now H (sworld s)) (clientIP r (c_proxy cfg)) (unlockLimiters s) of
        (allowed, m) \<Rightarrow> (allowed, s\<lparr>unlockLimiters := m\<rparr>))"

definition authAllowed :: "'w host \<Rightarrow> 'l lib \<Rightarrow> config \<Rightarrow> request \<Rightarrow> ('w, 'l) hstate \<Rightarrow> bool \<times> ('w, 'l) hstate" where
  "authAllowed H lib cfg r s =
     (case limiter_attempt lib minute (h_now H (sworld s)) (clientIP r (c_proxy cfg)) (authLimiters s) of
        (allowed, m) \<Rightarrow> (allowed, s\<lparr>authLimiters := m\<rparr>))"

definition clearAuthFailures :: "config \<Rightarrow> request \<Rightarrow> ('w, 'l) hstate \<Rightarrow> ('w, 'l) hstate" where
  "clearAuthFailures cfg r s = s\<lparr>authLimiters := (authLimiters s)(clientIP r (c_proxy cfg) := None)\<rparr>"

section \<open>Responses\<close>

definition toResponse :: "'w host \<Rightarrow> vault \<Rightarrow> string \<Rightarrow> ('w, 'z) sys_scheme \<Rightarrow> vault_response" where
  "toResponse H v mounts s =
     (case StatusIn H v mounts s of (unlocked, mounted) \<Rightarrow>
        (case (if mounted then DiskUsage H (v_mount v) s else (0, 0)) of (used, total_bytes) \<Rightarrow>
          \<lparr>vr_vault = v, vr_unlocked = unlocked, vr_mounted = mounted, vr_used = used, vr_total = total_bytes\<rparr>))"

definition lookupVault :: "'w host \<Rightarrow> int \<Rightarrow> ('w, 'z) sys_scheme \<Rightarrow> (response + vault) \<times> ('w, 'z) sys_scheme" where
  "lookupVault H i s =
     (case GetVault H i s of
        (Inr v, s1) \<Rightarrow> (Inr v, s1)
      | (Inl ErrNoRows, s1) \<Rightarrow> (Inl (jsonErr VaultNotFound 404), s1)
      | (Inl _, s1) \<Rightarrow> (Inl (jsonErr DatabaseError 500), s1))"

section \<open>Lemmas: names and paths\<close>

lemma special_chars:
  "\<not> name_char slash" "\<not> name_char (CHR ''.'')" "\<not> name_char (CHR '' '')" "\<not> name_char nl"
  "\<not> name_char (CHR 0x00)"
  by code_simp+

lemma name_char_plain: "name_char c \<Longrightarrow> c \<noteq> slash \<and> c \<noteq> CHR ''.'' \<and> c \<noteq> CHR '' '' \<and> c \<noteq> nl \<and> c \<noteq> CHR 0x00"
  using special_chars by blast

lemma isValidVaultName_chars: "isValidVaultName n \<Longrightarrow> c \<in> set n \<Longrightarrow> name_char c"
  by (auto simp: isValidVaultName_def list_all_iff split: if_splits)

lemma isValidVaultName_plain:
  assumes v: "isValidVaultName n"
  shows "plain_comp n"
proof -
  have "slash \<notin> set n" "CHR ''.'' \<notin> set n"
    using isValidVaultName_chars [OF v] special_chars by blast+
  moreover have "n \<noteq> []" using v unfolding isValidVaultName_def by (cases n) simp_all
  ultimately show ?thesis by (auto simp: plain_comp_def)
qed

lemma image_name_plain:
  assumes v: "isValidVaultName n"
  shows "plain_comp (n @ ''.img'')"
proof -
  have "slash \<notin> set n"
    using isValidVaultName_chars [OF v] special_chars by blast
  then show ?thesis unfolding plain_comp_def by (cases n) simp_all
qed

lemma storage_match_True:
  assumes "storage_match ev cleaned ds"
  shows "\<exists>d \<in> set ds. trim_suffix d ''/'' \<noteq> [] \<and> prefix (trim_suffix d ''/'' @ ''/'') cleaned
    \<and> (\<forall>rd rf. ev (trim_suffix d ''/'') = Some rd \<and> ev cleaned = Some rf \<longrightarrow> prefix (rd @ ''/'') rf)"
  using assms by (induction ds) (auto simp: Let_def split: if_splits option.splits)

text \<open>Each attempt concerns only the entry of its own client.\<close>

lemma limiter_attempt_other:
  "limiter_attempt lib p now ip m = (a, m') \<Longrightarrow> ip' \<noteq> ip \<Longrightarrow> m' ip' = m ip'"
  by (auto simp: limiter_attempt_def Let_def split: prod.splits)

lemma limiter_attempt_same:
  "m ip = m' ip \<Longrightarrow> fst (limiter_attempt lib p now ip m) = fst (limiter_attempt lib p now ip m')
     \<and> snd (limiter_attempt lib p now ip m) ip = snd (limiter_attempt lib p now ip m') ip"
  by (auto simp: limiter_attempt_def Let_def split: prod.splits)

lemma unlockAllowedD:
  "unlockAllowed H lib cfg r s = (a, s') \<Longrightarrow> sevents s' = sevents s \<and> sdb s' = sdb s \<and> sworld s' = sworld s
     \<and> jobs s' = jobs s \<and> pendingNames s' = pendingNames s \<and> pendingPaths s' = pendingPaths s
     \<and> authLimiters s' = authLimiters s \<and> sessions s' = sessions s \<and> unlockedAt s' = unlockedAt s"
  by (auto simp: unlockAllowed_def split: prod.splits)

lemma authAllowedD:
  "authAllowed H lib cfg r s = (a, s') \<Longrightarrow> sevents s' = sevents s \<and> sdb s' = sdb s \<and> sworld s' = sworld s
     \<and> jobs s' = jobs s \<and> pendingNames s' = pendingNames s \<and> pendingPaths s' = pendingPaths s
     \<and> unlockLimiters s' = unlockLimiters s \<and> sessions s' = sessions s \<and> unlockedAt s' = unlockedAt s"
  by (auto simp: authAllowed_def split: prod.splits)

lemma lookupVaultD:
  "lookupVault H i s = (r, s') \<Longrightarrow> sevents s' = sevents s \<and> sdb s' = sdb s \<and> sys.more s' = sys.more s
     \<and> (\<forall>v. r = Inr v \<longrightarrow> select_vault i (sdb s) = Inr v)
     \<and> (\<forall>e. r = Inl e \<longrightarrow> status e \<in> {404, 500})"
  by (auto simp: lookupVault_def jsonErr_def reply_def split: prod.splits sum.splits db_error.splits dest!: GetVaultD)

end
