(* ===== verification/Auth.thy ===== *)
theory Auth
  imports Api
begin

text \<open>
  \<open>internal/api/api.go\<close>, who may call the API: the master credentials, API tokens (stored as
  SHA-256 hashes) and browser sessions, the \<open>auth\<close> middleware, the login, logout and token
  endpoints, the cross-origin guard and the body cap, and the periodic sweeps of the
  in-memory tables (\<open>cleanupSessions\<close>, \<open>cleanupJobs\<close>, \<open>cleanupLimiters\<close>).

  A middleware that wraps \<open>next\<close> is a function to \<open>response option\<close>: \<open>None\<close> is the call of
  \<open>next.ServeHTTP\<close>. Times and durations are nanoseconds, unbounded.
\<close>

section \<open>Credentials\<close>

definition sessionCookieName :: string where
  "sessionCookieName = ''lukscrypt_session''"

text \<open>The constant-time comparison is equality as far as its value goes.\<close>

definition validCredentials :: "config \<Rightarrow> string \<Rightarrow> string \<Rightarrow> bool" where
  "validCredentials cfg user pass = (user = c_user cfg \<and> pass = c_pass cfg)"

definition hashToken :: "'l lib \<Rightarrow> string \<Rightarrow> string" where
  "hashToken lib token = hex_encode (sha256 lib token)"

definition newAPIToken :: "'w host \<Rightarrow> ('w, 'z) sys_scheme \<Rightarrow> string option \<times> ('w, 'z) sys_scheme" where
  "newAPIToken H s =
     (case rand_read H 32 s of
        (None, s1) \<Rightarrow> (None, s1)
      | (Some b, s1) \<Rightarrow> (Some (''lukscrypt_'' @ hex_encode b), s1))"

text \<open>\<open>Request.BasicAuth\<close>: the scheme in any case, base64, cut at the first colon.\<close>

definition basic_auth :: "request \<Rightarrow> (string \<times> string) option" where
  "basic_auth r =
     (let a = r_header r ''Authorization'' in
      if length a < 6 \<or> to_lower (take 6 a) \<noteq> ''basic '' then None
      else (case b64_decode (drop 6 a) of
        None \<Rightarrow> None
      | Some c \<Rightarrow> if CHR '':'' \<in> set c
          then Some (takeWhile (\<lambda>x. x \<noteq> CHR '':'') c, tl (dropWhile (\<lambda>x. x \<noteq> CHR '':'') c)) else None))"

definition validAPICredentials :: "'w host \<Rightarrow> 'l lib \<Rightarrow> config \<Rightarrow> request \<Rightarrow> ('w, 'z) sys_scheme \<Rightarrow>
    (int \<times> bool \<times> bool) \<times> ('w, 'z) sys_scheme" where
  "validAPICredentials H lib cfg r s =
     (let authHeader = r_header r ''Authorization'' in
      if prefix ''Bearer '' authHeader then
        (let tok = trim_space (trim_prefix authHeader ''Bearer '') in
         case GetAPITokenByHash H (hashToken lib tok) s of
           (Inr t, s1) \<Rightarrow> ((t_id t, True, True), s1)
         | (Inl _, s1) \<Rightarrow> ((0, False, False), s1))
      else (case basic_auth r of
        None \<Rightarrow> ((0, False, False), s)
      | Some (user, pass) \<Rightarrow>
          if validCredentials cfg user pass then ((0, False, True), s)
          else if user = c_user cfg then
            (case GetAPITokenByHash H (hashToken lib pass) s of
               (Inr t, s1) \<Rightarrow> ((t_id t, True, True), s1)
             | (Inl _, s1) \<Rightarrow> ((0, False, False), s1))
          else ((0, False, False), s)))"

section \<open>Sessions\<close>

definition request_cookie :: "request \<Rightarrow> string option" where
  "request_cookie r = map_of (r_cookies r) sessionCookieName"

definition session_expired :: "config \<Rightarrow> int \<Rightarrow> session \<Rightarrow> bool" where
  "session_expired cfg now x = (now - se_seen x > c_idle cfg \<or> now - se_created x > c_max_age cfg)"

definition validSession :: "'w host \<Rightarrow> config \<Rightarrow> request \<Rightarrow> ('w, 'l) hstate \<Rightarrow> bool \<times> ('w, 'l) hstate" where
  "validSession H cfg r s =
     (case request_cookie r of
        None \<Rightarrow> (False, s)
      | Some c \<Rightarrow>
          if c = [] then (False, s)
          else (case sessions s c of
            None \<Rightarrow> (False, s)
          | Some x \<Rightarrow>
              let now = h_now H (sworld s) in
              if session_expired cfg now x then (False, s\<lparr>sessions := (sessions s)(c := None)\<rparr>)
              else (True, s\<lparr>sessions := (sessions s)(c \<mapsto> x\<lparr>se_seen := now\<rparr>)\<rparr>)))"

section \<open>The middleware\<close>

definition auth :: "'w host \<Rightarrow> 'l lib \<Rightarrow> config \<Rightarrow> request \<Rightarrow> ('w, 'l) hstate \<Rightarrow>
    response option \<times> ('w, 'l) hstate" where
  "auth H lib cfg r s =
     (case validSession H cfg r s of
        (True, s1) \<Rightarrow> (None, clearAuthFailures cfg r s1)
      | (False, s1) \<Rightarrow>
     (case validAPICredentials H lib cfg r s1 of
        ((tokenID, isToken, True), s2) \<Rightarrow>
          (let s3 = clearAuthFailures cfg r s2 in
           (None, if isToken then snd (TouchAPIToken H tokenID s3) else s3))
      | ((tokenID, isToken, False), s2) \<Rightarrow>
     (case authAllowed H lib cfg r s2 of
        (False, s3) \<Rightarrow> (Some (jsonErr TooManyLogins 429), s3)
      | (True, s3) \<Rightarrow>
          if r_method r = ''GET'' \<and> r_header r ''Authorization'' = [] \<and> sublist ''text/html'' (r_header r ''Accept'')
          then (Some ((reply 303 NoBody)\<lparr>location := ''/login''\<rparr>), s3)
          else (Some ((reply 401 (ErrorBody Unauthorized))\<lparr>challenge := True\<rparr>), s3))))"

definition csrfGuard :: "'l lib \<Rightarrow> request \<Rightarrow> response option" where
  "csrfGuard lib r =
     (if r_method r \<noteq> ''GET'' \<and> r_method r \<noteq> ''HEAD'' then
        (let origin = r_header r ''Origin'' in
         if origin \<noteq> [] then
           (case url_host lib origin of
              None \<Rightarrow> Some (jsonErr CrossOrigin 403)
            | Some h \<Rightarrow> if h \<noteq> r_host r then Some (jsonErr CrossOrigin 403) else None)
         else None)
      else None)"

text \<open>
  \<open>limitBody\<close>: the reader the handlers decode from, as the bytes it yields and whether it then
  fails instead of reaching the end.
\<close>

type_synonym reader = "string \<times> bool"

definition maxBodyBytes :: nat where
  "maxBodyBytes = push_bit 20 8"

definition limitBody :: "string \<Rightarrow> reader" where
  "limitBody b = (take maxBodyBytes b, length b > maxBodyBytes)"

section \<open>Login and logout\<close>

record login_req =
  lr_user :: string
  lr_password :: string

definition loginPage :: "string option \<Rightarrow> response" where
  "loginPage file = (case file of None \<Rightarrow> reply 404 (ErrorBody NotFoundPage) | Some d \<Rightarrow> reply 200 (PageBody d))"

definition login :: "'w host \<Rightarrow> 'l lib \<Rightarrow> config \<Rightarrow> request \<Rightarrow> login_req option \<Rightarrow> ('w, 'l) hstate \<Rightarrow>
    response \<times> ('w, 'l) hstate" where
  "login H lib cfg r req s =
     (case authAllowed H lib cfg r s of
        (False, s1) \<Rightarrow> (jsonErr TooManyLogins 429, s1)
      | (True, s1) \<Rightarrow>
     (case req of
        None \<Rightarrow> (jsonErr CredentialsRequired 400, s1)
      | Some q \<Rightarrow>
          if lr_user q = [] \<or> lr_password q = [] then (jsonErr CredentialsRequired 400, s1)
          else if \<not> validCredentials cfg (lr_user q) (lr_password q)
          then (jsonErr InvalidCredentials 401, s1)
          else (case rand_read H 32 (clearAuthFailures cfg r s1) of
              (None, s2) \<Rightarrow> (jsonErr SessionFailed 500, s2)
            | (Some b, s2) \<Rightarrow>
                (let token = hex_encode b; now = h_now H (sworld s2) in
                 ((jsonOK OkBody)\<lparr>set_cookie := Some \<lparr>ck_value = token, ck_secure = (r_tls r \<or> c_proxy cfg),
                     ck_max_age = go_div (c_max_age cfg) second\<rparr>\<rparr>,
                  s2\<lparr>sessions := (sessions s2)(token \<mapsto> \<lparr>se_created = now, se_seen = now\<rparr>)\<rparr>)))))"

definition logout :: "config \<Rightarrow> request \<Rightarrow> ('w, 'l) hstate \<Rightarrow> response \<times> ('w, 'l) hstate" where
  "logout cfg r s =
     ((jsonOK OkBody)\<lparr>set_cookie := Some \<lparr>ck_value = [], ck_secure = (r_tls r \<or> c_proxy cfg), ck_max_age = -1\<rparr>\<rparr>,
      case request_cookie r of
        None \<Rightarrow> s
      | Some c \<Rightarrow> s\<lparr>sessions := (sessions s)(c := None)\<rparr>)"

section \<open>Token endpoints\<close>

definition token_view :: "api_token \<Rightarrow> token_response" where
  "token_view t = \<lparr>tr_id = t_id t, tr_name = t_name t, tr_created = t_created t, tr_used = t_used t, tr_token = []\<rparr>"

definition listTokens :: "'w host \<Rightarrow> ('w, 'z) sys_scheme \<Rightarrow> response \<times> ('w, 'z) sys_scheme" where
  "listTokens H s =
     (case ListAPITokens H s of
        (Inl _, s1) \<Rightarrow> (jsonErr DatabaseError 500, s1)
      | (Inr toks, s1) \<Rightarrow> (jsonOK (TokensBody (map token_view toks)), s1))"

text \<open>The request's body is the name it carries, \<open>None\<close> when it does not decode.\<close>

definition createToken :: "'w host \<Rightarrow> 'l lib \<Rightarrow> string option \<Rightarrow> ('w, 'z) sys_scheme \<Rightarrow> response \<times> ('w, 'z) sys_scheme" where
  "createToken H lib req s =
     (case req of
        None \<Rightarrow> (jsonErr InvalidBody 400, s)
      | Some name0 \<Rightarrow>
     (let name = trim_space name0 in
      if name = [] \<or> 64 < length name then (jsonErr TokenNameRequired 400, s)
      else (case newAPIToken H s of
        (None, s1) \<Rightarrow> (jsonErr TokenGenFailed 500, s1)
      | (Some raw, s1) \<Rightarrow>
     (case CreateAPIToken H name (hashToken lib raw) s1 of
        (Inl e, s2) \<Rightarrow>
          (if sublist ''UNIQUE'' (db_error_text e) then (jsonErr TokenExists 409, s2)
           else (jsonErr TokenFailed 500, s2))
      | (Inr t, s2) \<Rightarrow> (reply 201 (TokenBody ((token_view t)\<lparr>tr_token := raw\<rparr>)), s2)))))"

definition deleteToken :: "'w host \<Rightarrow> request \<Rightarrow> ('w, 'z) sys_scheme \<Rightarrow> response \<times> ('w, 'z) sys_scheme" where
  "deleteToken H r s =
     (case parseID r of
        None \<Rightarrow> (jsonErr InvalidTokenId 400, s)
      | Some i \<Rightarrow>
     (case DeleteAPIToken H i s of
        ((deleted, Some _), s1) \<Rightarrow> (jsonErr DatabaseError 500, s1)
      | ((deleted, None), s1) \<Rightarrow>
          if \<not> deleted then (jsonErr TokenNotFound 404, s1) else (reply 204 NoBody, s1)))"

section \<open>The sweeps\<close>

definition sweep :: "('e \<Rightarrow> bool) \<Rightarrow> ('k \<rightharpoonup> 'e) \<Rightarrow> ('k \<rightharpoonup> 'e)" where
  "sweep old m = (\<lambda>k. case m k of None \<Rightarrow> None | Some e \<Rightarrow> if old e then None else Some e)"

definition job_expired :: "int \<Rightarrow> int \<Rightarrow> bool" where
  "job_expired now created = (now - created > 30 * minute)"

definition limiter_stale :: "int \<Rightarrow> 'l limiter_entry \<Rightarrow> bool" where
  "limiter_stale now e = (now - le_seen e > 10 * minute)"

definition cleanupSessions :: "'w host \<Rightarrow> config \<Rightarrow> ('w, 'l) hstate \<Rightarrow> ('w, 'l) hstate" where
  "cleanupSessions H cfg s = s\<lparr>sessions := sweep (session_expired cfg (h_now H (sworld s))) (sessions s)\<rparr>"

definition cleanupJobs :: "'w host \<Rightarrow> ('w, 'l) hstate \<Rightarrow> ('w, 'l) hstate" where
  "cleanupJobs H s = s\<lparr>jobs := sweep (job_expired (h_now H (sworld s))) (jobs s)\<rparr>"

definition cleanupLimiters :: "'w host \<Rightarrow> ('w, 'l) hstate \<Rightarrow> ('w, 'l) hstate" where
  "cleanupLimiters H s =
     s\<lparr>unlockLimiters := sweep (limiter_stale (h_now H (sworld s))) (unlockLimiters s),
       authLimiters := sweep (limiter_stale (h_now H (sworld s))) (authLimiters s)\<rparr>"

section \<open>The contract of a swept table\<close>

text \<open>
  Once an entry is old it stays old. Then dropping the old entries early is not observable to a
  reader that ignores them: what a reader sees at time \<open>t\<close> is the swept table.
\<close>

locale swept_table =
  fixes old :: "int \<Rightarrow> 'e \<Rightarrow> bool"
  assumes old_later: "old t e \<Longrightarrow> t \<le> t' \<Longrightarrow> old t' e"
begin

lemma sweep_Some: "sweep (old t) m k = Some e \<longleftrightarrow> m k = Some e \<and> \<not> old t e"
  by (auto simp: sweep_def split: option.splits)

lemma sweep_early:
  assumes "t \<le> t'"
  shows "sweep (old t') (sweep (old t) m) = sweep (old t') m"
proof
  fix k
  show "sweep (old t') (sweep (old t) m) k = sweep (old t') m k"
    using old_later [OF _ assms] by (cases "m k") (auto simp: sweep_def)
qed

lemma sweep_young:
  assumes "t' \<le> t" and "sweep (old t) m k = Some e"
  shows "\<not> old t' e"
proof
  assume "old t' e"
  then have "old t e" using assms(1) by (rule old_later)
  with assms(2) show False by (simp add: sweep_Some)
qed

lemma sweep_le: "sweep (old t) m \<subseteq>\<^sub>m m"
  by (auto simp: map_le_def sweep_def split: option.splits)

lemma sweep_upd: "\<not> old t e \<Longrightarrow> sweep (old t) (m(k \<mapsto> e)) = (sweep (old t) m)(k \<mapsto> e)"
  by (auto simp: sweep_def fun_eq_iff)

lemma sweep_del: "sweep (old t) (m(k := None)) = (sweep (old t) m)(k := None)"
  by (auto simp: sweep_def fun_eq_iff)

end

interpretation session_table: swept_table "session_expired cfg"
  by unfold_locales (auto simp: session_expired_def)

interpretation job_table: swept_table job_expired
  by unfold_locales (auto simp: job_expired_def)

interpretation limiter_table: swept_table limiter_stale
  by unfold_locales (auto simp: limiter_stale_def)

section \<open>Sessions\<close>

lemma validSession_iff:
  "fst (validSession H cfg r s) \<longleftrightarrow>
     (\<exists>c x. request_cookie r = Some c \<and> c \<noteq> [] \<and> sessions s c = Some x
        \<and> \<not> session_expired cfg (h_now H (sworld s)) x)"
  by (auto simp: validSession_def Let_def split: option.splits)

lemma validSessionD:
  "validSession H cfg r s = (ok, s') \<Longrightarrow>
     sevents s' = sevents s \<and> sdb s' = sdb s \<and> sworld s' = sworld s \<and> jobs s' = jobs s
     \<and> pendingNames s' = pendingNames s \<and> pendingPaths s' = pendingPaths s
     \<and> authLimiters s' = authLimiters s \<and> unlockLimiters s' = unlockLimiters s \<and> unlockedAt s' = unlockedAt s"
  by (auto simp: validSession_def Let_def split: option.splits if_splits)

text \<open>A request never brings a session to life nor moves its creation time.\<close>

lemma validSession_sessions:
  "validSession H cfg r s = (ok, s') \<Longrightarrow> sessions s' c = Some y \<Longrightarrow>
     \<exists>x. sessions s c = Some x \<and> se_created y = se_created x"
  by (auto simp: validSession_def Let_def split: option.splits if_splits)

section \<open>API credentials\<close>

text \<open>The secret a request offers as a token.\<close>

definition offered_token :: "config \<Rightarrow> request \<Rightarrow> string option" where
  "offered_token cfg r =
     (let a = r_header r ''Authorization'' in
      if prefix ''Bearer '' a then Some (trim_space (trim_prefix a ''Bearer ''))
      else (case basic_auth r of Some (u, p) \<Rightarrow> if u = c_user cfg then Some p else None | None \<Rightarrow> None))"

lemma basic_not_bearer: "basic_auth r = Some up \<Longrightarrow> \<not> prefix ''Bearer '' (r_header r ''Authorization'')"
  by (auto simp: basic_auth_def Let_def prefix_def to_lower_def split: if_splits)

lemma validAPICredentialsD:
  "validAPICredentials H lib cfg r s = ((i, tok, ok), s') \<Longrightarrow>
     sevents s' = sevents s \<and> sdb s' = sdb s \<and> sys.more s' = sys.more s
     \<and> (ok \<longrightarrow> basic_auth r = Some (c_user cfg, c_pass cfg)
          \<or> (\<exists>x t. offered_token cfg r = Some x \<and> select_token_by_hash (hashToken lib x) (sdb s) = Inr t))"
  by (auto simp: validAPICredentials_def offered_token_def validCredentials_def Let_def
      split: prod.splits sum.splits option.splits if_splits dest!: GetAPITokenByHashD)

lemma validAPICredentials_master:
  "basic_auth r = Some (c_user cfg, c_pass cfg) \<Longrightarrow> validAPICredentials H lib cfg r s = ((0, False, True), s)"
  using basic_not_bearer by (simp add: validAPICredentials_def validCredentials_def)

text \<open>Neither the verdict nor the state it leaves depends on the tables the middleware keeps.\<close>

lemma GetAPITokenByHash_frame:
  "GetAPITokenByHash H h (s\<lparr>authLimiters := m\<rparr>) =
     (case GetAPITokenByHash H h s of (res, s1) \<Rightarrow> (res, s1\<lparr>authLimiters := m\<rparr>))"
  by (auto simp: GetAPITokenByHash_def sql_def split: prod.splits option.splits)

lemma validAPICredentials_frame:
  "validAPICredentials H lib cfg r (s\<lparr>authLimiters := m\<rparr>) =
     (case validAPICredentials H lib cfg r s of (res, s1) \<Rightarrow> (res, s1\<lparr>authLimiters := m\<rparr>))"
  by (auto simp: validAPICredentials_def Let_def GetAPITokenByHash_frame split: prod.splits option.splits sum.splits)

lemma validSession_frame:
  "validSession H cfg r (s\<lparr>authLimiters := m\<rparr>) =
     (case validSession H cfg r s of (res, s1) \<Rightarrow> (res, s1\<lparr>authLimiters := m\<rparr>))"
  by (auto simp: validSession_def Let_def split: option.splits)

section \<open>The middleware\<close>

lemma auth_pass_iff:
  "fst (auth H lib cfg r s) = None \<longleftrightarrow>
     fst (validSession H cfg r s) \<or> snd (snd (fst (validAPICredentials H lib cfg r (snd (validSession H cfg r s)))))"
  by (auto simp: auth_def Let_def split: prod.splits bool.splits if_splits)

lemma auth_refusal:
  "fst (auth H lib cfg r s) = Some resp \<Longrightarrow>
     status resp = 429 \<and> \<not> challenge resp \<or> status resp = 303 \<and> location resp = ''/login'' \<or> status resp = 401 \<and> challenge resp"
  by (auto simp: auth_def Let_def reply_def jsonErr_def split: prod.splits bool.splits if_splits)

lemma clearAuthFailures_simps [simp]:
  "sevents (clearAuthFailures cfg r s) = sevents s" "sdb (clearAuthFailures cfg r s) = sdb s"
  "sworld (clearAuthFailures cfg r s) = sworld s" "jobs (clearAuthFailures cfg r s) = jobs s"
  "pendingNames (clearAuthFailures cfg r s) = pendingNames s" "pendingPaths (clearAuthFailures cfg r s) = pendingPaths s"
  "sessions (clearAuthFailures cfg r s) = sessions s" "unlockedAt (clearAuthFailures cfg r s) = unlockedAt s"
  "unlockLimiters (clearAuthFailures cfg r s) = unlockLimiters s"
  by (simp_all add: clearAuthFailures_def)

lemma auth_frame:
  assumes "auth H lib cfg r s = (res, s')"
  shows "sevents s' = sevents s \<and> jobs s' = jobs s \<and> pendingNames s' = pendingNames s
    \<and> pendingPaths s' = pendingPaths s \<and> unlockedAt s' = unlockedAt s \<and> unlockLimiters s' = unlockLimiters s
    \<and> (sdb s' = sdb s \<or> (\<exists>now i. sdb s' = touch_token now i (sdb s)))
    \<and> (\<forall>c y. sessions s' c = Some y \<longrightarrow> (\<exists>x. sessions s c = Some x \<and> se_created y = se_created x))"
proof -
  obtain ok s1 where v: "validSession H cfg r s = (ok, s1)" by fastforce
  obtain i tok cr s2 where a: "validAPICredentials H lib cfg r s1 = ((i, tok, cr), s2)" by (metis prod_cases4 surj_pair)
  note v1 = validSessionD [OF v] and a1 = validAPICredentialsD [OF a]
  have s1c: "\<And>c y. sessions s1 c = Some y \<Longrightarrow> \<exists>x. sessions s c = Some x \<and> se_created y = se_created x"
    using validSession_sessions [OF v] by blast
  have s2m: "jobs s2 = jobs s1 \<and> pendingNames s2 = pendingNames s1 \<and> pendingPaths s2 = pendingPaths s1
      \<and> unlockedAt s2 = unlockedAt s1 \<and> unlockLimiters s2 = unlockLimiters s1 \<and> sessions s2 = sessions s1"
    using a1 by (simp add: hstate_more_eq)
  show ?thesis
  proof (cases ok)
    case True
    with assms v v1 s1c show ?thesis by (auto simp: auth_def)
  next
    case no: False
    show ?thesis
    proof (cases cr)
      case True
      obtain e s3 where t: "TouchAPIToken H i (clearAuthFailures cfg r s2) = (e, s3)" by fastforce
      have "s' = (if tok then s3 else clearAuthFailures cfg r s2)"
        using assms v no a True t by (auto simp: auth_def Let_def)
      moreover have "jobs s3 = jobs s2 \<and> pendingNames s3 = pendingNames s2 \<and> pendingPaths s3 = pendingPaths s2
          \<and> unlockedAt s3 = unlockedAt s2 \<and> unlockLimiters s3 = unlockLimiters s2 \<and> sessions s3 = sessions s2
          \<and> sevents s3 = sevents s2 \<and> (sdb s3 = sdb s2 \<or> (\<exists>now i. sdb s3 = touch_token now i (sdb s2)))"
        using TouchAPITokenD [OF t] unfolding hstate_more_eq clearAuthFailures_simps by blast
      ultimately show ?thesis using v1 a1 s2m s1c by (cases tok) simp_all
    next
      case False
      obtain b s3 where t: "authAllowed H lib cfg r s2 = (b, s3)" by fastforce
      have "s' = s3" using assms v no a False t by (auto simp: auth_def split: bool.splits if_splits)
      then show ?thesis using authAllowedD [OF t] v1 a1 s2m s1c by simp
    qed
  qed
qed

lemma db_ok_auth: "auth H lib cfg r s = (res, s') \<Longrightarrow> db_ok (sdb s) \<Longrightarrow> db_ok (sdb s')"
  using auth_frame [of H lib cfg r s res s'] db_ok_touch_token by metis

end
