(* ===== verification/AutoLock.thy ===== *)
theory AutoLock
  imports Auth
begin

text \<open>
  \<open>internal/api/api.go\<close>, the auto-lock policy: the table of unlock times, the scan at startup,
  the sweep of each minute and the locking of one expired vault, which reads the unlock time
  before it takes \<open>opMu\<close> and again under it, and drops the entry after it has released it.

  A missing entry is Go's zero time, here \<open>None\<close>. The order of \<open>unlockedAt\<close> is the order in
  which Go happens to iterate over the map.
\<close>

section \<open>Operations\<close>

definition markUnlocked :: "'w host \<Rightarrow> int \<Rightarrow> ('w, 'l) hstate \<Rightarrow> ('w, 'l) hstate" where
  "markUnlocked H i s = s\<lparr>unlockedAt := AList.update i (h_now H (sworld s)) (unlockedAt s)\<rparr>"

definition clearUnlocked :: "int \<Rightarrow> ('w, 'l) hstate \<Rightarrow> ('w, 'l) hstate" where
  "clearUnlocked i s = s\<lparr>unlockedAt := AList.delete i (unlockedAt s)\<rparr>"

definition unlockedSince :: "int \<Rightarrow> ('w, 'l) hstate \<Rightarrow> int option" where
  "unlockedSince i s = map_of (unlockedAt s) i"

definition windowRestarted :: "int \<Rightarrow> int option \<Rightarrow> ('w, 'l) hstate \<Rightarrow> bool" where
  "windowRestarted i since s = (unlockedSince i s \<noteq> since)"

text \<open>The start of \<open>autoLockLoop\<close>: vaults found unlocked get a window that starts now.\<close>

fun mark_each :: "'w host \<Rightarrow> vault list \<Rightarrow> ('w, 'l) hstate \<Rightarrow> ('w, 'l) hstate" where
  "mark_each H [] s = s"
| "mark_each H (v # vs) s = mark_each H vs (if IsUnlocked H v s then markUnlocked H (v_id v) s else s)"

definition autoLockStartup :: "'w host \<Rightarrow> ('w, 'l) hstate \<Rightarrow> ('w, 'l) hstate" where
  "autoLockStartup H s =
     (case ListVaults H s of (Inl _, s1) \<Rightarrow> s1 | (Inr vs, s1) \<Rightarrow> mark_each H vs s1)"

text \<open>\<open>autoLockVault\<close> up to \<open>opMu.Lock\<close>: the unlock time and the record it will act on.\<close>

definition autoLock_read :: "'w host \<Rightarrow> int \<Rightarrow> ('w, 'l) hstate \<Rightarrow> (int option \<times> vault) option \<times> ('w, 'l) hstate" where
  "autoLock_read H i s =
     (let since = unlockedSince i s in
      case GetVault H i s of
        (Inl _, s1) \<Rightarrow> (None, clearUnlocked i s1)
      | (Inr v, s1) \<Rightarrow> (Some (since, v), s1))"

text \<open>
  The part under \<open>opMu\<close>, and the part after \<open>opMu.Unlock\<close>: the result says whether the entry
  is dropped then.
\<close>

definition autoLock_locked :: "'w host \<Rightarrow> int \<Rightarrow> int option \<Rightarrow> vault \<Rightarrow> ('w, 'l) hstate \<Rightarrow> bool \<times> ('w, 'l) hstate" where
  "autoLock_locked H i since v s =
     (if windowRestarted i since s then (False, s)
      else (case LockContext H v s of
        (Some err, s1) \<Rightarrow> (sublist ''already locked'' err, s1)
      | (None, s1) \<Rightarrow> (True, s1)))"

definition autoLock_finish :: "int \<Rightarrow> bool \<Rightarrow> ('w, 'l) hstate \<Rightarrow> ('w, 'l) hstate" where
  "autoLock_finish i dropped s = (if dropped then clearUnlocked i s else s)"

definition autoLockVault :: "'w host \<Rightarrow> int \<Rightarrow> ('w, 'l) hstate \<Rightarrow> ('w, 'l) hstate" where
  "autoLockVault H i s =
     (case autoLock_read H i s of
        (None, s1) \<Rightarrow> s1
      | (Some (since, v), s1) \<Rightarrow>
          (case autoLock_locked H i since v s1 of (dropped, s2) \<Rightarrow> autoLock_finish i dropped s2))"

definition expired_vaults :: "int \<Rightarrow> int \<Rightarrow> ('w, 'l) hstate \<Rightarrow> int list" where
  "expired_vaults window now s = map fst (filter (\<lambda>(i, since). now - since \<ge> window) (unlockedAt s))"

fun autoLock_each :: "'w host \<Rightarrow> int list \<Rightarrow> ('w, 'l) hstate \<Rightarrow> ('w, 'l) hstate" where
  "autoLock_each H [] s = s"
| "autoLock_each H (i # is) s = autoLock_each H is (autoLockVault H i s)"

definition autoLockSweep :: "'w host \<Rightarrow> config \<Rightarrow> int \<Rightarrow> ('w, 'l) hstate \<Rightarrow> ('w, 'l) hstate" where
  "autoLockSweep H cfg now s =
     (case c_window cfg of None \<Rightarrow> s
      | Some window \<Rightarrow> autoLock_each H (expired_vaults window now s) s)"

section \<open>The table of unlock times\<close>

lemma unlockedSince_mark [simp]:
  "unlockedSince j (markUnlocked H i s) = (if j = i then Some (h_now H (sworld s)) else unlockedSince j s)"
  by (simp add: unlockedSince_def markUnlocked_def update_conv')

lemma unlockedSince_clear [simp]:
  "unlockedSince j (clearUnlocked i s) = (if j = i then None else unlockedSince j s)"
  by (simp add: unlockedSince_def clearUnlocked_def delete_conv')

lemma mark_clear_frame [simp]:
  "sevents (markUnlocked H i s) = sevents s" "sdb (markUnlocked H i s) = sdb s" "sworld (markUnlocked H i s) = sworld s"
  "pendingNames (markUnlocked H i s) = pendingNames s" "pendingPaths (markUnlocked H i s) = pendingPaths s"
  "sessions (markUnlocked H i s) = sessions s" "jobs (markUnlocked H i s) = jobs s"
  "sevents (clearUnlocked i s) = sevents s" "sdb (clearUnlocked i s) = sdb s" "sworld (clearUnlocked i s) = sworld s"
  "pendingNames (clearUnlocked i s) = pendingNames s" "pendingPaths (clearUnlocked i s) = pendingPaths s"
  "sessions (clearUnlocked i s) = sessions s" "jobs (clearUnlocked i s) = jobs s"
  by (simp_all add: markUnlocked_def clearUnlocked_def)

text \<open>The table keeps one entry per vault.\<close>

definition windows_ok :: "('w, 'l) hstate \<Rightarrow> bool" where
  "windows_ok s \<longleftrightarrow> distinct (map fst (unlockedAt s))"

lemma windows_ok_mark: "windows_ok s \<Longrightarrow> windows_ok (markUnlocked H i s)"
  by (simp add: windows_ok_def markUnlocked_def distinct_update)

lemma windows_ok_clear: "windows_ok s \<Longrightarrow> windows_ok (clearUnlocked i s)"
  by (simp add: windows_ok_def clearUnlocked_def distinct_delete)

lemma expired_vaults_iff:
  "windows_ok s \<Longrightarrow> i \<in> set (expired_vaults window now s) \<longleftrightarrow>
     (\<exists>since. unlockedSince i s = Some since \<and> now - since \<ge> window)"
  by (auto simp: expired_vaults_def windows_ok_def unlockedSince_def image_iff)

lemma expired_vaults_distinct: "windows_ok s \<Longrightarrow> distinct (expired_vaults window now s)"
  by (auto simp: expired_vaults_def windows_ok_def distinct_map_filter)

text \<open>The startup scan covers exactly the unlocked records.\<close>

lemma IsUnlocked_mark [simp]: "IsUnlocked H v (markUnlocked H i s) = IsUnlocked H v s"
  by (simp add: IsUnlocked_def exists_def IsMounted_def ReadMounts_def)

lemma mark_each_since:
  "unlockedSince i (mark_each H vs s) =
     (if \<exists>v \<in> set vs. v_id v = i \<and> IsUnlocked H v s then Some (h_now H (sworld s)) else unlockedSince i s)"
  by (induction vs arbitrary: s) auto

lemma mark_each_frame [simp]:
  "sevents (mark_each H vs s) = sevents s" "sdb (mark_each H vs s) = sdb s"
  "pendingNames (mark_each H vs s) = pendingNames s" "pendingPaths (mark_each H vs s) = pendingPaths s"
  "sessions (mark_each H vs s) = sessions s" "jobs (mark_each H vs s) = jobs s"
  by (induction vs arbitrary: s) auto

lemma windows_ok_mark_each: "windows_ok s \<Longrightarrow> windows_ok (mark_each H vs s)"
  by (induction vs arbitrary: s) (auto intro: windows_ok_mark)

section \<open>The sweep\<close>

text \<open>The attempts to lock one vault that a log can show.\<close>

definition lock_attempt :: "vault \<Rightarrow> event \<Rightarrow> bool" where
  "lock_attempt v e \<longleftrightarrow> (\<exists>ok. e = Ran (umount_cmd True (v_mount v)) ok \<or> e = Ran (luksClose_cmd True (v_mapper v)) ok)"

lemma LockContext_log:
  assumes "LockContext H v s = (e, s')"
  shows "\<exists>es. sevents s' = sevents s @ es \<and>
    (es = [] \<and> e = Some ''vault is already locked''
     \<or> es = [Ran (umount_cmd True (v_mount v)) False] \<and> e \<noteq> None
     \<or> es = [Ran (umount_cmd True (v_mount v)) True, Ran (luksClose_cmd True (v_mapper v)) (e = None)]
     \<or> es = [Ran (luksClose_cmd True (v_mapper v)) (e = None)])"
  using LockContextD [OF assms] by (simp split: if_splits) blast

lemma autoLockVaultD:
  assumes "db_ok (sdb s)"
  shows "sdb (autoLockVault H i s) = sdb s
    \<and> (\<forall>j. j \<noteq> i \<longrightarrow> unlockedSince j (autoLockVault H i s) = unlockedSince j s)
    \<and> (\<exists>es. sevents (autoLockVault H i s) = sevents s @ es
        \<and> (\<forall>e \<in> set es. \<exists>v \<in> set (vaults (sdb s)). v_id v = i \<and> lock_attempt v e)
        \<and> (unlockedSince i (autoLockVault H i s) = None
           \<or> unlockedSince i (autoLockVault H i s) = unlockedSince i s
             \<and> (\<exists>v \<in> set (vaults (sdb s)). v_id v = i \<and>
                  (Ran (umount_cmd True (v_mount v)) False \<in> set es \<or> Ran (luksClose_cmd True (v_mapper v)) False \<in> set es))))"
proof -
  obtain r s1 where g: "GetVault H i s = (r, s1)" by fastforce
  have g1: "sevents s1 = sevents s" "sdb s1 = sdb s" "sys.more s1 = sys.more s"
    and gv: "\<And>v. r = Inr v \<Longrightarrow> select_vault i (sdb s) = Inr v"
    using GetVaultD [OF g] by simp_all
  have u1: "unlockedSince j s1 = unlockedSince j s" for j
    using g1(3) by (simp add: hstate_more_eq unlockedSince_def)
  show ?thesis
  proof (cases r)
    case (Inl e)
    then have "autoLockVault H i s = clearUnlocked i s1"
      by (simp add: autoLockVault_def autoLock_read_def g)
    then show ?thesis using g1 u1 by simp
  next
    case (Inr v)
    have v: "v \<in> set (vaults (sdb s))" "v_id v = i"
      using gv [OF Inr] select_vault_iff [OF assms] by simp_all
    obtain e s2 where l: "LockContext H v s1 = (e, s2)" by fastforce
    note ld = LockContextD [OF l]
    have u2: "unlockedSince j s2 = unlockedSince j s1" for j
      using ld by (simp add: hstate_more_eq unlockedSince_def)
    have eq: "autoLockVault H i s = (case e of Some err \<Rightarrow> if sublist ''already locked'' err then clearUnlocked i s2 else s2
        | None \<Rightarrow> clearUnlocked i s2)"
      using Inr g l u1 by (simp add: autoLockVault_def autoLock_read_def autoLock_locked_def autoLock_finish_def windowRestarted_def split: option.splits)
    obtain es where es: "sevents s2 = sevents s1 @ es" and form:
      "es = [] \<and> e = Some ''vault is already locked''
       \<or> es = [Ran (umount_cmd True (v_mount v)) False] \<and> e \<noteq> None
       \<or> es = [Ran (umount_cmd True (v_mount v)) True, Ran (luksClose_cmd True (v_mapper v)) (e = None)]
       \<or> es = [Ran (luksClose_cmd True (v_mapper v)) (e = None)]"
      using LockContext_log [OF l] by blast
    have att: "\<forall>x \<in> set es. lock_attempt v x" using form by (auto simp: lock_attempt_def)
    have failed: "e \<noteq> None \<Longrightarrow> e = Some ''vault is already locked'' \<or> Ran (umount_cmd True (v_mount v)) False \<in> set es
          \<or> Ran (luksClose_cmd True (v_mapper v)) False \<in> set es"
      using form by auto
    have sl: "sublist ''already locked'' ''vault is already locked''" by code_simp
    show ?thesis
    proof (cases e)
      case None
      then show ?thesis using eq es att g1 u1 u2 v ld by auto
    next
      case (Some err)
      then show ?thesis using eq es att g1 u1 u2 v ld failed sl by auto
    qed
  qed
qed

end
