(* ===== verification/Handlers.thy ===== *)
theory Handlers
  imports AutoLock LuksDump
begin

text \<open>
  \<open>internal/api/api.go\<close>, the vault endpoints. The body of a request is the decoded record,
  \<open>None\<close> when the JSON decoder refuses it. A handler that takes \<open>opMu\<close> is two definitions: the
  part before the lock, which validates the request and looks the vault up (\<open>Inl\<close> is the
  response of an early return), and the part under the lock; its composition is the handler
  when nothing comes between.
\<close>

section \<open>Request bodies\<close>

record create_req =
  q_name :: string
  q_path :: string
  q_size :: int
  q_password :: string
  q_mount_dir :: string

record unlock_req =
  q_pass :: string
  q_keyfile :: string

record keyadd_req =
  q_old_pass :: string
  q_old_key :: string
  q_new_pass :: string
  q_new_key :: string
  q_slot :: "int option"

record keyremove_req =
  q_rm_pass :: string
  q_rm_key :: string
  q_rm_slot :: int

record import_req =
  q_im_name :: string
  q_im_path :: string
  q_im_mount :: string

record grow_req =
  q_gr_size :: int
  q_gr_pass :: string
  q_gr_key :: string

text \<open>What a request authenticates to \<open>cryptsetup\<close> with.\<close>

datatype credential = Password string | KeyFile string

section \<open>Read-only endpoints\<close>

definition healthz :: "'w host \<Rightarrow> ('w, 'z) sys_scheme \<Rightarrow> response \<times> ('w, 'z) sys_scheme" where
  "healthz H s = (case Ping H s of
     (Some _, s1) \<Rightarrow> (jsonErr DbUnavailable 503, s1) | (None, s1) \<Rightarrow> (jsonOK StatusBody, s1))"

definition getConfig :: "config \<Rightarrow> response" where
  "getConfig cfg = jsonOK (ConfigBody (c_storage cfg) (c_mounts cfg))"

definition index :: "string option \<Rightarrow> response" where
  "index file = (case file of None \<Rightarrow> reply 404 (ErrorBody NotFoundPage) | Some d \<Rightarrow> reply 200 (PageBody d))"

definition listVaults :: "'w host \<Rightarrow> ('w, 'z) sys_scheme \<Rightarrow> response \<times> ('w, 'z) sys_scheme" where
  "listVaults H s =
     (case ListVaults H s of
        (Inl _, s1) \<Rightarrow> (jsonErr ListFailed 500, s1)
      | (Inr vs, s1) \<Rightarrow>
          (let mounts = ReadMounts H s1 in
           (jsonOK (VaultsBody (map (\<lambda>v. toResponse H v mounts s1) vs)), s1)))"

definition vaultDetails :: "'w host \<Rightarrow> 'l lib \<Rightarrow> request \<Rightarrow> ('w, 'z) sys_scheme \<Rightarrow> response \<times> ('w, 'z) sys_scheme" where
  "vaultDetails H lib r s =
     (case parseID r of
        None \<Rightarrow> (jsonErr InvalidVaultId 400, s)
      | Some i \<Rightarrow>
     (case lookupVault H i s of
        (Inl e, s1) \<Rightarrow> (e, s1)
      | (Inr v, s1) \<Rightarrow>
     (case DumpDetails H (luks lib) v s1 of
        (Inl e, s2) \<Rightarrow> (jsonErr (OpError e) 422, s2)
      | (Inr d, s2) \<Rightarrow> (jsonOK (DetailsBody d), s2))))"

section \<open>Creation\<close>

text \<open>The creation a goroutine is started for.\<close>

record creation =
  cr_name :: string
  cr_path :: string
  cr_size :: int
  cr_password :: string
  cr_mount :: string
  cr_img :: string
  cr_job :: string

definition check_create :: "config \<Rightarrow> create_req option \<Rightarrow> response + create_req" where
  "check_create cfg body =
     (case body of
        None \<Rightarrow> Inl (jsonErr InvalidBody 400)
      | Some q \<Rightarrow>
          if q_name q = [] \<or> q_path q = [] \<or> q_size q \<le> 0 \<or> q_password q = [] \<or> q_mount_dir q = []
          then Inl (jsonErr AllFieldsRequired 400)
          else if length (q_password q) < 8 then Inl (jsonErr PasswordTooShort 400)
          else if q_size q > c_max_gb cfg then Inl (jsonErr (SizeTooBig (c_max_gb cfg)) 400)
          else if \<not> isValidVaultName (q_name q) then Inl (jsonErr BadVaultName 400)
          else if \<not> allowedStorageDir cfg (q_path q) then Inl (jsonErr StorageNotAllowed 400)
          else if \<not> allowedMountDir cfg (q_mount_dir q) then Inl (jsonErr MountNotAllowed 400)
          else Inr q)"

text \<open>The section under \<open>opMu\<close>: both reservations or the conflict.\<close>

definition reserve :: "string \<Rightarrow> string \<Rightarrow> ('w, 'l) hstate \<Rightarrow> response option \<times> ('w, 'l) hstate" where
  "reserve name img s =
     (if name \<in> pendingNames s then (Some (jsonErr NameInFlight 409), s)
      else if img \<in> pendingPaths s then (Some (jsonErr PathInFlight 409), s)
      else (None, s\<lparr>pendingNames := insert name (pendingNames s), pendingPaths := insert img (pendingPaths s)\<rparr>))"

definition releasePending :: "string \<Rightarrow> string \<Rightarrow> ('w, 'l) hstate \<Rightarrow> ('w, 'l) hstate" where
  "releasePending name img s =
     s\<lparr>pendingNames := pendingNames s - {name}, pendingPaths := pendingPaths s - {img}\<rparr>"

text \<open>\<open>filepath.ToSlash\<close> is the identity on the target.\<close>

definition createVault :: "'w host \<Rightarrow> config \<Rightarrow> create_req option \<Rightarrow> ('w, 'l) hstate \<Rightarrow>
    (response \<times> creation option) \<times> ('w, 'l) hstate" where
  "createVault H cfg body s =
     (case check_create cfg body of
        Inl e \<Rightarrow> ((e, None), s)
      | Inr q \<Rightarrow>
     (let mountPoint = q_mount_dir q @ ''/'' @ q_name q; imgPath = image_path (q_path q) (q_name q) in
      case reserve (q_name q) imgPath s of
        (Some e, s1) \<Rightarrow> ((e, None), s1)
      | (None, s1) \<Rightarrow>
     (case rand_read H 8 s1 of
        (None, s2) \<Rightarrow> ((jsonErr JobIdFailed 500, None), releasePending (q_name q) imgPath s2)
      | (Some b, s2) \<Rightarrow>
          (let jobID = hex_encode b in
           ((reply 202 (JobBody jobID),
             Some \<lparr>cr_name = q_name q, cr_path = q_path q, cr_size = q_size q, cr_password = q_password q,
                   cr_mount = mountPoint, cr_img = imgPath, cr_job = jobID\<rparr>),
            s2\<lparr>jobs := (jobs s2)(jobID \<mapsto> h_now H (sworld s2))\<rparr>)))))"

text \<open>
  The goroutine. \<open>on_channel\<close> runs a step of \<open>vault.Create\<close> on the server's state with the
  job's channel; the tail after \<open>Create\<close> starts the vault's auto-lock window; the deferred
  function drops the reservations.
\<close>

definition to_csys :: "('w, 'l) hstate \<Rightarrow> progress list \<Rightarrow> 'w csys" where
  "to_csys s ch = \<lparr>sworld = sworld s, sevents = sevents s, sdb = sdb s, chan = ch\<rparr>"

definition from_csys :: "'w csys \<Rightarrow> ('w, 'l) hstate \<Rightarrow> ('w, 'l) hstate" where
  "from_csys c s = s\<lparr>sworld := sworld c, sevents := sevents c, sdb := sdb c\<rparr>"

definition mark_created :: "'w host \<Rightarrow> string \<Rightarrow> ('w, 'l) hstate \<Rightarrow> ('w, 'l) hstate" where
  "mark_created H name s =
     (case GetVaultByName H name s of
        (Inl _, s1) \<Rightarrow> s1
      | (Inr v, s1) \<Rightarrow> if IsUnlocked H v s1 then markUnlocked H (v_id v) s1 else s1)"

definition create_goroutine :: "'w host \<Rightarrow> creation \<Rightarrow> ('w, 'l) hstate \<Rightarrow> progress list \<times> ('w, 'l) hstate" where
  "create_goroutine H c s =
     (let c1 = Create H (cr_name c) (cr_path c) (cr_size c) (cr_password c) (cr_mount c) (to_csys s []) in
      (chan c1, releasePending (cr_name c) (cr_img c) (mark_created H (cr_name c) (from_csys c1 s))))"

text \<open>
  The stream of a job: what the \<open>select\<close> of \<open>vaultEvents\<close> sees, in order. The result is the
  frames written and whether the loop ended, which is when the entry is dropped.
\<close>

datatype sse_input = Disconnected | Event progress | ChannelClosed

fun sse_loop :: "sse_input list \<Rightarrow> progress list \<times> bool" where
  "sse_loop [] = ([], False)"
| "sse_loop (Disconnected # xs) = ([], True)"
| "sse_loop (ChannelClosed # xs) = ([], True)"
| "sse_loop (Event p # xs) = (case sse_loop xs of (frames, ended) \<Rightarrow> (p # frames, ended))"

definition vaultEvents :: "string \<Rightarrow> bool \<Rightarrow> sse_input list \<Rightarrow> ('w, 'l) hstate \<Rightarrow> response \<times> ('w, 'l) hstate" where
  "vaultEvents jobID can_flush inputs s =
     (case jobs s jobID of
        None \<Rightarrow> (jsonErr JobNotFound 404, s)
      | Some _ \<Rightarrow>
          if \<not> can_flush then (reply 500 (ErrorBody StreamingUnsupported), s)
          else (case sse_loop inputs of (frames, ended) \<Rightarrow>
            (reply 200 (EventStream frames), if ended then s\<lparr>jobs := (jobs s)(jobID := None)\<rparr> else s)))"

section \<open>Unlock, lock, mount\<close>

definition find_vault :: "'w host \<Rightarrow> request \<Rightarrow> ('w, 'l) hstate \<Rightarrow> (response + vault) \<times> ('w, 'l) hstate" where
  "find_vault H r s =
     (case parseID r of None \<Rightarrow> (Inl (jsonErr InvalidVaultId 400), s) | Some i \<Rightarrow> lookupVault H i s)"

definition check_unlock :: "unlock_req option \<Rightarrow> response + credential" where
  "check_unlock body =
     (case body of
        None \<Rightarrow> Inl (jsonErr InvalidBody 400)
      | Some q \<Rightarrow>
          if (q_pass q = []) = (q_keyfile q = []) then Inl (jsonErr OneCredential 400)
          else if q_keyfile q \<noteq> []
          then (case decodeKeyFile (q_keyfile q) of
                  Inl e \<Rightarrow> Inl (jsonErr (OpError e) 400) | Inr key \<Rightarrow> Inr (KeyFile key))
          else if length (q_pass q) < 8 then Inl (jsonErr PasswordTooShort 400)
          else Inr (Password (q_pass q)))"

definition unlock_prepare :: "'w host \<Rightarrow> 'l lib \<Rightarrow> config \<Rightarrow> request \<Rightarrow> unlock_req option \<Rightarrow> ('w, 'l) hstate \<Rightarrow>
    (response + (vault \<times> credential)) \<times> ('w, 'l) hstate" where
  "unlock_prepare H lib cfg r body s =
     (case unlockAllowed H lib cfg r s of
        (False, s1) \<Rightarrow> (Inl (jsonErr TooManyUnlocks 429), s1)
      | (True, s1) \<Rightarrow>
     (case parseID r of
        None \<Rightarrow> (Inl (jsonErr InvalidVaultId 400), s1)
      | Some i \<Rightarrow>
     (case check_unlock body of
        Inl e \<Rightarrow> (Inl e, s1)
      | Inr c \<Rightarrow>
     (case lookupVault H i s1 of
        (Inl e, s2) \<Rightarrow> (Inl e, s2)
      | (Inr v, s2) \<Rightarrow> (Inr (v, c), s2)))))"

definition unlock_locked :: "'w host \<Rightarrow> vault \<Rightarrow> credential \<Rightarrow> ('w, 'l) hstate \<Rightarrow> response \<times> ('w, 'l) hstate" where
  "unlock_locked H v c s =
     (case (case c of KeyFile key \<Rightarrow> UnlockKeyFileContext H v key s | Password pw \<Rightarrow> UnlockContext H v pw s) of
        (Some e, s1) \<Rightarrow> (jsonErr (OpError e) 422, s1)
      | (None, s1) \<Rightarrow>
          (let s2 = markUnlocked H (v_id v) s1 in
           (jsonOK (VaultBody (toResponse H v (ReadMounts H s2) s2)), s2)))"

definition unlockVault :: "'w host \<Rightarrow> 'l lib \<Rightarrow> config \<Rightarrow> request \<Rightarrow> unlock_req option \<Rightarrow> ('w, 'l) hstate \<Rightarrow>
    response \<times> ('w, 'l) hstate" where
  "unlockVault H lib cfg r body s =
     (case unlock_prepare H lib cfg r body s of
        (Inl e, s1) \<Rightarrow> (e, s1) | (Inr (v, c), s1) \<Rightarrow> unlock_locked H v c s1)"

definition lock_locked :: "'w host \<Rightarrow> vault \<Rightarrow> ('w, 'l) hstate \<Rightarrow> response \<times> ('w, 'l) hstate" where
  "lock_locked H v s =
     (case LockContext H v s of
        (Some e, s1) \<Rightarrow> (jsonErr (OpError e) 422, s1)
      | (None, s1) \<Rightarrow>
          (let s2 = clearUnlocked (v_id v) s1 in
           (jsonOK (VaultBody (toResponse H v (ReadMounts H s2) s2)), s2)))"

definition lockVault :: "'w host \<Rightarrow> request \<Rightarrow> ('w, 'l) hstate \<Rightarrow> response \<times> ('w, 'l) hstate" where
  "lockVault H r s =
     (case find_vault H r s of (Inl e, s1) \<Rightarrow> (e, s1) | (Inr v, s1) \<Rightarrow> lock_locked H v s1)"

definition mount_locked :: "'w host \<Rightarrow> vault \<Rightarrow> ('w, 'l) hstate \<Rightarrow> response \<times> ('w, 'l) hstate" where
  "mount_locked H v s =
     (case Mount H v s of
        (Some e, s1) \<Rightarrow> (jsonErr (OpError e) 422, s1)
      | (None, s1) \<Rightarrow> (jsonOK (VaultBody (toResponse H v (ReadMounts H s1) s1)), s1))"

definition mountVault :: "'w host \<Rightarrow> request \<Rightarrow> ('w, 'l) hstate \<Rightarrow> response \<times> ('w, 'l) hstate" where
  "mountVault H r s =
     (case find_vault H r s of (Inl e, s1) \<Rightarrow> (e, s1) | (Inr v, s1) \<Rightarrow> mount_locked H v s1)"

section \<open>Keyslots\<close>

text \<open>What a valid \<open>keyslot/add\<close> request asks for.\<close>

record keyadd =
  ka_old :: credential
  ka_new :: credential
  ka_slot :: int

definition decode_credential :: "string \<Rightarrow> string \<Rightarrow> response + credential" where
  "decode_credential keyfile password =
     (if keyfile \<noteq> []
      then (case decodeKeyFile keyfile of
              Inl e \<Rightarrow> Inl (jsonErr (OpError e) 400) | Inr key \<Rightarrow> Inr (KeyFile key))
      else Inr (Password password))"

definition check_keyadd :: "keyadd_req option \<Rightarrow> response + keyadd" where
  "check_keyadd body =
     (case body of
        None \<Rightarrow> Inl (jsonErr InvalidBody 400)
      | Some q \<Rightarrow>
          if (q_old_pass q = []) = (q_old_key q = []) then Inl (jsonErr OneExisting 400)
          else if (q_new_pass q = []) = (q_new_key q = []) then Inl (jsonErr OneNew 400)
          else if q_new_pass q \<noteq> [] \<and> length (q_new_pass q) < 8 then Inl (jsonErr NewPasswordTooShort 400)
          else (case decode_credential (q_new_key q) (q_new_pass q) of
            Inl e \<Rightarrow> Inl e
          | Inr new \<Rightarrow>
         (case decode_credential (q_old_key q) (q_old_pass q) of
            Inl e \<Rightarrow> Inl e
          | Inr old \<Rightarrow>
         (case q_slot q of
            None \<Rightarrow> Inr \<lparr>ka_old = old, ka_new = new, ka_slot = -1\<rparr>
          | Some k \<Rightarrow> if k < 0 \<or> k > MaxKeySlot then Inl (jsonErr SlotRange 400)
              else Inr \<lparr>ka_old = old, ka_new = new, ka_slot = k\<rparr>))))"

definition secret :: "credential \<Rightarrow> string" where
  "secret c = (case c of Password p \<Rightarrow> p | KeyFile k \<Rightarrow> k)"

definition keyslotAdd_prepare :: "'w host \<Rightarrow> 'l lib \<Rightarrow> config \<Rightarrow> request \<Rightarrow> keyadd_req option \<Rightarrow> ('w, 'l) hstate \<Rightarrow>
    (response + (vault \<times> keyadd)) \<times> ('w, 'l) hstate" where
  "keyslotAdd_prepare H lib cfg r body s =
     (case unlockAllowed H lib cfg r s of
        (False, s1) \<Rightarrow> (Inl (jsonErr TooManyAttempts 429), s1)
      | (True, s1) \<Rightarrow>
     (case parseID r of
        None \<Rightarrow> (Inl (jsonErr InvalidVaultId 400), s1)
      | Some i \<Rightarrow>
     (case check_keyadd body of
        Inl e \<Rightarrow> (Inl e, s1)
      | Inr k \<Rightarrow>
     (case lookupVault H i s1 of
        (Inl e, s2) \<Rightarrow> (Inl e, s2)
      | (Inr v, s2) \<Rightarrow> (Inr (v, k), s2)))))"

definition keyslotAdd_locked :: "'w host \<Rightarrow> 'l lib \<Rightarrow> vault \<Rightarrow> keyadd \<Rightarrow> ('w, 'l) hstate \<Rightarrow> response \<times> ('w, 'l) hstate" where
  "keyslotAdd_locked H lib v k s =
     (case (case (ka_old k, ka_new k) of
              (Password old, Password new) \<Rightarrow> AddKey H v old new (ka_slot k) s
            | _ \<Rightarrow> AddKeyFile H v (secret (ka_old k)) (secret (ka_new k)) (ka_slot k) s) of
        (Some e, s1) \<Rightarrow> (jsonErr (OpError e) 422, s1)
      | (None, s1) \<Rightarrow>
     (case DumpDetails H (luks lib) v s1 of
        (Inl e, s2) \<Rightarrow> (jsonErr (AddedNoReread e) 500, s2)
      | (Inr d, s2) \<Rightarrow> (jsonOK (DetailsBody d), s2)))"

definition keyslotAdd :: "'w host \<Rightarrow> 'l lib \<Rightarrow> config \<Rightarrow> request \<Rightarrow> keyadd_req option \<Rightarrow> ('w, 'l) hstate \<Rightarrow>
    response \<times> ('w, 'l) hstate" where
  "keyslotAdd H lib cfg r body s =
     (case keyslotAdd_prepare H lib cfg r body s of
        (Inl e, s1) \<Rightarrow> (e, s1) | (Inr (v, k), s1) \<Rightarrow> keyslotAdd_locked H lib v k s1)"

definition check_keyremove :: "keyremove_req option \<Rightarrow> response + (credential \<times> int)" where
  "check_keyremove body =
     (case body of
        None \<Rightarrow> Inl (jsonErr SlotRange 400)
      | Some q \<Rightarrow>
          if q_rm_slot q < 0 \<or> q_rm_slot q > MaxKeySlot then Inl (jsonErr SlotRange 400)
          else if (q_rm_pass q = []) = (q_rm_key q = []) then Inl (jsonErr OneCredential 400)
          else (case decode_credential (q_rm_key q) (q_rm_pass q) of
            Inl e \<Rightarrow> Inl e | Inr c \<Rightarrow> Inr (c, q_rm_slot q)))"

definition keyslotRemove_prepare :: "'w host \<Rightarrow> 'l lib \<Rightarrow> config \<Rightarrow> request \<Rightarrow> keyremove_req option \<Rightarrow> ('w, 'l) hstate \<Rightarrow>
    (response + (vault \<times> credential \<times> int)) \<times> ('w, 'l) hstate" where
  "keyslotRemove_prepare H lib cfg r body s =
     (case unlockAllowed H lib cfg r s of
        (False, s1) \<Rightarrow> (Inl (jsonErr TooManyAttempts 429), s1)
      | (True, s1) \<Rightarrow>
     (case parseID r of
        None \<Rightarrow> (Inl (jsonErr InvalidVaultId 400), s1)
      | Some i \<Rightarrow>
     (case check_keyremove body of
        Inl e \<Rightarrow> (Inl e, s1)
      | Inr (c, slot) \<Rightarrow>
     (case lookupVault H i s1 of
        (Inl e, s2) \<Rightarrow> (Inl e, s2)
      | (Inr v, s2) \<Rightarrow> (Inr (v, c, slot), s2)))))"

definition keyslotRemove_locked :: "'w host \<Rightarrow> 'l lib \<Rightarrow> vault \<Rightarrow> credential \<Rightarrow> int \<Rightarrow> ('w, 'l) hstate \<Rightarrow>
    response \<times> ('w, 'l) hstate" where
  "keyslotRemove_locked H lib v c slot s =
     (case DumpDetails H (luks lib) v s of
        (Inl e, s1) \<Rightarrow> (jsonErr (OpError e) 422, s1)
      | (Inr d, s1) \<Rightarrow>
     (case ValidateKillSlot d slot of
        Some e \<Rightarrow> (jsonErr (OpError e) 409, s1)
      | None \<Rightarrow>
     (case (case c of KeyFile key \<Rightarrow> KillSlotKeyFile H v key slot s1 | Password pw \<Rightarrow> KillSlot H v pw slot s1) of
        (Some e, s2) \<Rightarrow> (jsonErr (OpError e) 422, s2)
      | (None, s2) \<Rightarrow>
     (case DumpDetails H (luks lib) v s2 of
        (Inl e, s3) \<Rightarrow> (jsonErr (RemovedNoReread e) 500, s3)
      | (Inr d2, s3) \<Rightarrow> (jsonOK (DetailsBody d2), s3)))))"

definition keyslotRemove :: "'w host \<Rightarrow> 'l lib \<Rightarrow> config \<Rightarrow> request \<Rightarrow> keyremove_req option \<Rightarrow> ('w, 'l) hstate \<Rightarrow>
    response \<times> ('w, 'l) hstate" where
  "keyslotRemove H lib cfg r body s =
     (case keyslotRemove_prepare H lib cfg r body s of
        (Inl e, s1) \<Rightarrow> (e, s1) | (Inr (v, c, slot), s1) \<Rightarrow> keyslotRemove_locked H lib v c slot s1)"

section \<open>Import\<close>

definition check_import :: "'w host \<Rightarrow> config \<Rightarrow> import_req option \<Rightarrow> ('w, 'z) sys_scheme \<Rightarrow> response + import_req" where
  "check_import H cfg body s =
     (case body of
        None \<Rightarrow> Inl (jsonErr InvalidBody 400)
      | Some q \<Rightarrow>
          if q_im_name q = [] \<or> q_im_path q = [] \<or> q_im_mount q = [] then Inl (jsonErr ImportFieldsRequired 400)
          else if \<not> isValidVaultName (q_im_name q) then Inl (jsonErr BadVaultName 400)
          else (case pathInStorageDir H cfg (q_im_path q) s of
            (cleaned, False) \<Rightarrow> Inl (jsonErr NotInStorage 400)
          | (cleaned, True) \<Rightarrow>
              if \<not> allowedMountDir cfg (q_im_mount q) then Inl (jsonErr MountNotAllowed 400)
              else Inr (q\<lparr>q_im_path := cleaned\<rparr>)))"

text \<open>The scan over the existing records: the first record in the way decides.\<close>

fun import_conflict :: "string \<Rightarrow> string \<Rightarrow> vault list \<Rightarrow> response option" where
  "import_conflict name path [] = None"
| "import_conflict name path (v # vs) =
     (if v_name v = name then Some (jsonErr NameExists 409)
      else if v_path v = path then Some (jsonErr (ImageRegistered (v_name v)) 409)
      else import_conflict name path vs)"

text \<open>Bytes to whole GiB, rounded up.\<close>

definition ceil_gb :: "int \<Rightarrow> int" where
  "ceil_gb bytes = go_div (wrap64 (bytes + gib - 1)) gib"

definition import_probe :: "string \<Rightarrow> string \<Rightarrow> vault" where
  "import_probe name path = \<lparr>v_id = 0, v_name = name, v_path = path, v_size = 0, v_mount = [],
     v_mapper = name, v_created = []\<rparr>"

definition import_locked :: "'w host \<Rightarrow> 'l lib \<Rightarrow> import_req \<Rightarrow> ('w, 'l) hstate \<Rightarrow> response \<times> ('w, 'l) hstate" where
  "import_locked H lib q s =
     (let name = q_im_name q; path = q_im_path q in
      if name \<in> pendingNames s then (jsonErr NameInFlight 409, s)
      else if path \<in> pendingPaths s then (jsonErr PathInFlight 409, s)
      else (case ListVaults H s of
        (Inl _, s1) \<Rightarrow> (jsonErr DatabaseError 500, s1)
      | (Inr existing, s1) \<Rightarrow>
     (case import_conflict name path existing of
        Some e \<Rightarrow> (e, s1)
      | None \<Rightarrow>
          if exists H (mapper_path name) s1 then (jsonErr (MapperExists name) 409, s1)
          else (case DumpDetails H (luks lib) (import_probe name path) s1 of
            (Inl e, s2) \<Rightarrow> (jsonErr (OpError e) 422, s2)
          | (Inr _, s2) \<Rightarrow>
         (case h_stat H path (sworld s2) of
            Inl e \<Rightarrow> (jsonErr (ImageUnreadable (os_error_text e)) 422, s2)
          | Inr bytes \<Rightarrow>
         (case CreateVault H name path (ceil_gb bytes) (q_im_mount q @ ''/'' @ name) name s2 of
            (Inl _, s3) \<Rightarrow> (jsonErr RegisterFailed 500, s3)
          | (Inr v, s3) \<Rightarrow> (reply 201 (VaultBody (toResponse H v (ReadMounts H s3) s3)), s3)))))))"

definition importVault :: "'w host \<Rightarrow> 'l lib \<Rightarrow> config \<Rightarrow> import_req option \<Rightarrow> ('w, 'l) hstate \<Rightarrow>
    response \<times> ('w, 'l) hstate" where
  "importVault H lib cfg body s =
     (case check_import H cfg body s of Inl e \<Rightarrow> (e, s) | Inr q \<Rightarrow> import_locked H lib q s)"

section \<open>Grow\<close>

definition check_grow :: "config \<Rightarrow> grow_req option \<Rightarrow> response + (int \<times> string)" where
  "check_grow cfg body =
     (case body of
        None \<Rightarrow> Inl (jsonErr InvalidBody 400)
      | Some q \<Rightarrow>
          if q_gr_size q \<le> 0 then Inl (jsonErr SizePositive 400)
          else if q_gr_size q > c_max_gb cfg then Inl (jsonErr (SizeTooBig (c_max_gb cfg)) 400)
          else if (q_gr_pass q = []) = (q_gr_key q = []) then Inl (jsonErr OneCredential 400)
          else if q_gr_key q \<noteq> []
          then (case decodeKeyFile (q_gr_key q) of
                  Inl e \<Rightarrow> Inl (jsonErr (OpError e) 400) | Inr key \<Rightarrow> Inr (q_gr_size q, key))
          else if length (q_gr_pass q) < 8 then Inl (jsonErr PasswordTooShort 400)
          else Inr (q_gr_size q, q_gr_pass q))"

definition grow_prepare :: "'w host \<Rightarrow> 'l lib \<Rightarrow> config \<Rightarrow> request \<Rightarrow> grow_req option \<Rightarrow> ('w, 'l) hstate \<Rightarrow>
    (response + (int \<times> int \<times> string)) \<times> ('w, 'l) hstate" where
  "grow_prepare H lib cfg r body s =
     (case unlockAllowed H lib cfg r s of
        (False, s1) \<Rightarrow> (Inl (jsonErr TooManyAttempts 429), s1)
      | (True, s1) \<Rightarrow>
     (case parseID r of
        None \<Rightarrow> (Inl (jsonErr InvalidVaultId 400), s1)
      | Some i \<Rightarrow>
     (case check_grow cfg body of
        Inl e \<Rightarrow> (Inl e, s1)
      | Inr (n, key) \<Rightarrow>
     (case lookupVault H i s1 of
        (Inl e, s2) \<Rightarrow> (Inl e, s2)
      | (Inr _, s2) \<Rightarrow> (Inr (i, n, key), s2)))))"

definition grow_locked :: "'w host \<Rightarrow> int \<Rightarrow> int \<Rightarrow> string \<Rightarrow> ('w, 'l) hstate \<Rightarrow> response \<times> ('w, 'l) hstate" where
  "grow_locked H i n key s =
     (case GetVault H i s of
        (Inl _, s1) \<Rightarrow> (jsonErr DatabaseError 500, s1)
      | (Inr v, s1) \<Rightarrow>
          if \<not> IsUnlocked H v s1 then (jsonErr MustBeUnlocked 409, s1)
          else if \<not> IsMounted H v s1 then (jsonErr MustBeMounted 409, s1)
          else if n \<le> v_size v then (jsonErr (GrowOnly (v_size v)) 422, s1)
          else (case Grow H v n key s1 of
            (Some e, s2) \<Rightarrow> (jsonErr (OpError e) 422, s2)
          | (None, s2) \<Rightarrow>
         (case UpdateVaultSize H i n s2 of
            (Some _, s3) \<Rightarrow> (jsonErr GrewNotRecorded 500, s3)
          | (None, s3) \<Rightarrow>
         (case GetVault H i s3 of
            (Inl _, s4) \<Rightarrow> (jsonErr DatabaseError 500, s4)
          | (Inr u, s4) \<Rightarrow> (jsonOK (VaultBody (toResponse H u (ReadMounts H s4) s4)), s4)))))"

definition growVault :: "'w host \<Rightarrow> 'l lib \<Rightarrow> config \<Rightarrow> request \<Rightarrow> grow_req option \<Rightarrow> ('w, 'l) hstate \<Rightarrow>
    response \<times> ('w, 'l) hstate" where
  "growVault H lib cfg r body s =
     (case grow_prepare H lib cfg r body s of
        (Inl e, s1) \<Rightarrow> (e, s1) | (Inr (i, n, key), s1) \<Rightarrow> grow_locked H i n key s1)"

section \<open>Delete\<close>

definition delete_locked :: "'w host \<Rightarrow> int \<Rightarrow> vault \<Rightarrow> ('w, 'l) hstate \<Rightarrow> response \<times> ('w, 'l) hstate" where
  "delete_locked H i v s =
     (if IsUnlocked H v s then (jsonErr MustBeLocked 422, s)
      else (case DeleteVault H i s of
        (Some _, s1) \<Rightarrow> (jsonErr RemoveRecordFailed 500, s1)
      | (None, s1) \<Rightarrow> (reply 204 NoBody, snd (Delete H v (clearUnlocked i s1)))))"

definition delete_prepare :: "'w host \<Rightarrow> request \<Rightarrow> ('w, 'l) hstate \<Rightarrow> (response + (int \<times> vault)) \<times> ('w, 'l) hstate" where
  "delete_prepare H r s =
     (case parseID r of
        None \<Rightarrow> (Inl (jsonErr InvalidVaultId 400), s)
      | Some i \<Rightarrow>
     (case lookupVault H i s of (Inl e, s1) \<Rightarrow> (Inl e, s1) | (Inr v, s1) \<Rightarrow> (Inr (i, v), s1)))"

definition deleteVault :: "'w host \<Rightarrow> request \<Rightarrow> ('w, 'l) hstate \<Rightarrow> response \<times> ('w, 'l) hstate" where
  "deleteVault H r s =
     (case delete_prepare H r s of (Inl e, s1) \<Rightarrow> (e, s1) | (Inr (i, v), s1) \<Rightarrow> delete_locked H i v s1)"

end
