(* ===== verification/Server.thy ===== *)
theory Server
  imports Handlers
begin

text \<open>
  \<open>internal/api/api.go\<close>, \<open>NewMux\<close>: the two muxes and the middleware in front of the handlers,
  and the server as a whole: requests, the operations waiting for \<open>opMu\<close>, the creation
  goroutines, the auto-lock and clean-up tickers, interleaved in any order.
\<close>

section \<open>Routes\<close>

datatype route = Index | GetConfig | GetVaults | PostVaults | PostImport | DeleteOne | PostUnlock | PostLock
  | PostMount | PostGrow | PostKeyAdd | PostKeyRemove | GetDetails | GetEvents | PostLogout | GetTokens
  | PostTokens | DeleteToken

text \<open>A \<open>GET\<close> pattern also takes \<open>HEAD\<close>; a wildcard takes one segment that is not empty.\<close>

definition is_get :: "string \<Rightarrow> bool" where
  "is_get m \<longleftrightarrow> m = ''GET'' \<or> m = ''HEAD''"

definition api_route :: "string \<Rightarrow> string list \<Rightarrow> (route \<times> string) option" where
  "api_route m p =
     (if is_get m \<and> p = [[]] then Some (Index, [])
      else if is_get m \<and> p = [''api'', ''config''] then Some (GetConfig, [])
      else if is_get m \<and> p = [''api'', ''vaults''] then Some (GetVaults, [])
      else if m = ''POST'' \<and> p = [''api'', ''vaults''] then Some (PostVaults, [])
      else if m = ''POST'' \<and> p = [''api'', ''vaults'', ''import''] then Some (PostImport, [])
      else if m = ''POST'' \<and> p = [''logout''] then Some (PostLogout, [])
      else if is_get m \<and> p = [''api'', ''tokens''] then Some (GetTokens, [])
      else if m = ''POST'' \<and> p = [''api'', ''tokens''] then Some (PostTokens, [])
      else (case p of
        [a, b, i] \<Rightarrow>
          if m = ''DELETE'' \<and> a = ''api'' \<and> i \<noteq> [] \<and> b = ''vaults'' then Some (DeleteOne, i)
          else if m = ''DELETE'' \<and> a = ''api'' \<and> i \<noteq> [] \<and> b = ''tokens'' then Some (DeleteToken, i)
          else None
      | [a, b, c, d] \<Rightarrow>
          if a = ''api'' \<and> b = ''vaults'' \<and> c \<noteq> [] \<and> d \<noteq> [] then
            (if is_get m \<and> c = ''details'' then Some (GetDetails, d)
             else if is_get m \<and> c = ''events'' then Some (GetEvents, d)
             else if m = ''POST'' \<and> d = ''unlock'' then Some (PostUnlock, c)
             else if m = ''POST'' \<and> d = ''lock'' then Some (PostLock, c)
             else if m = ''POST'' \<and> d = ''mount'' then Some (PostMount, c)
             else if m = ''POST'' \<and> d = ''grow'' then Some (PostGrow, c)
             else None)
          else None
      | [a, b, c, d, e] \<Rightarrow>
          if a = ''api'' \<and> b = ''vaults'' \<and> c \<noteq> [] \<and> d = ''keyslot'' \<and> m = ''POST'' then
            (if e = ''add'' then Some (PostKeyAdd, c)
             else if e = ''remove'' then Some (PostKeyRemove, c)
             else None)
          else None
      | _ \<Rightarrow> None))"

datatype entry = Healthz | LoginPage | LoginPost | Authenticated

definition top_route :: "string \<Rightarrow> string list \<Rightarrow> entry" where
  "top_route m p =
     (if is_get m \<and> p = [''healthz''] then Healthz
      else if is_get m \<and> p = [''login''] then LoginPage
      else if m = ''POST'' \<and> p = [''login''] then LoginPost
      else Authenticated)"

text \<open>The muxes redirect a path that is not clean before they match it.\<close>

definition clean_segments :: "string list \<Rightarrow> bool" where
  "clean_segments p \<longleftrightarrow> [] \<notin> set (butlast p) \<and> ''.'' \<notin> set p \<and> ''..'' \<notin> set p \<and> p \<noteq> []"

section \<open>Bodies\<close>

text \<open>The JSON decoder, by the type it decodes to, on what \<open>limitBody\<close> lets through.\<close>

record decoders =
  dec_login :: "reader \<Rightarrow> login_req option"
  dec_create :: "reader \<Rightarrow> create_req option"
  dec_import :: "reader \<Rightarrow> import_req option"
  dec_unlock :: "reader \<Rightarrow> unlock_req option"
  dec_grow :: "reader \<Rightarrow> grow_req option"
  dec_keyadd :: "reader \<Rightarrow> keyadd_req option"
  dec_keyremove :: "reader \<Rightarrow> keyremove_req option"
  dec_token :: "reader \<Rightarrow> string option"

text \<open>The embedded pages and, for an event stream, what its loop sees.\<close>

record inputs =
  in_body :: string
  in_index :: "string option"
  in_login :: "string option"
  in_flush :: bool
  in_events :: "sse_input list"

section \<open>From a request to a handler\<close>

text \<open>The operations that wait for \<open>opMu\<close>, with what they read before it.\<close>

datatype op = OpUnlock vault credential | OpLock vault | OpMount vault | OpKeyAdd vault keyadd
  | OpKeyRemove vault credential int | OpImport import_req | OpGrow int int string | OpDelete int vault

datatype outcome = Answer response | Wait op | Spawn response creation

definition waiting :: "('v \<Rightarrow> op) \<Rightarrow> (response + 'v) \<times> 's \<Rightarrow> outcome \<times> 's" where
  "waiting f p = (case p of (Inl e, s) \<Rightarrow> (Answer e, s) | (Inr x, s) \<Rightarrow> (Wait (f x), s))"

definition answer :: "response \<times> 's \<Rightarrow> outcome \<times> 's" where
  "answer p = (case p of (resp, s) \<Rightarrow> (Answer resp, s))"

definition spawning :: "(response \<times> creation option) \<times> 's \<Rightarrow> outcome \<times> 's" where
  "spawning p = (case p of
     ((resp, None), s) \<Rightarrow> (Answer resp, s) | ((resp, Some c), s) \<Rightarrow> (Spawn resp c, s))"

definition handle :: "'w host \<Rightarrow> 'l lib \<Rightarrow> decoders \<Rightarrow> config \<Rightarrow> inputs \<Rightarrow> request \<Rightarrow> route \<Rightarrow> ('w, 'l) hstate \<Rightarrow>
    outcome \<times> ('w, 'l) hstate" where
  "handle H lib D cfg inp r rt s =
     (let b = limitBody (in_body inp) in
      case rt of
        Index \<Rightarrow> (Answer (index (in_index inp)), s)
      | GetConfig \<Rightarrow> (Answer (getConfig cfg), s)
      | GetVaults \<Rightarrow> answer (listVaults H s)
      | PostVaults \<Rightarrow> spawning (createVault H cfg (dec_create D b) s)
      | PostImport \<Rightarrow> waiting OpImport (check_import H cfg (dec_import D b) s, s)
      | DeleteOne \<Rightarrow> waiting (\<lambda>(i, v). OpDelete i v) (delete_prepare H r s)
      | PostUnlock \<Rightarrow> waiting (\<lambda>(v, c). OpUnlock v c) (unlock_prepare H lib cfg r (dec_unlock D b) s)
      | PostLock \<Rightarrow> waiting OpLock (find_vault H r s)
      | PostMount \<Rightarrow> waiting OpMount (find_vault H r s)
      | PostGrow \<Rightarrow> waiting (\<lambda>(i, n, k). OpGrow i n k) (grow_prepare H lib cfg r (dec_grow D b) s)
      | PostKeyAdd \<Rightarrow> waiting (\<lambda>(v, k). OpKeyAdd v k) (keyslotAdd_prepare H lib cfg r (dec_keyadd D b) s)
      | PostKeyRemove \<Rightarrow>
          waiting (\<lambda>(v, c, k). OpKeyRemove v c k) (keyslotRemove_prepare H lib cfg r (dec_keyremove D b) s)
      | GetDetails \<Rightarrow> answer (vaultDetails H lib r s)
      | GetEvents \<Rightarrow> answer (vaultEvents (r_id r) (in_flush inp) (in_events inp) s)
      | PostLogout \<Rightarrow> answer (logout cfg r s)
      | GetTokens \<Rightarrow> answer (listTokens H s)
      | PostTokens \<Rightarrow> answer (createToken H lib (dec_token D b) s)
      | DeleteToken \<Rightarrow> answer (deleteToken H r s))"

text \<open>The inner mux, behind \<open>auth\<close>.\<close>

definition serve_mux :: "'w host \<Rightarrow> 'l lib \<Rightarrow> decoders \<Rightarrow> config \<Rightarrow> inputs \<Rightarrow> request \<Rightarrow> ('w, 'l) hstate \<Rightarrow>
    outcome \<times> ('w, 'l) hstate" where
  "serve_mux H lib D cfg inp r s =
     (case api_route (r_method r) (r_path r) of
        Some (rt, i) \<Rightarrow> handle H lib D cfg inp (r\<lparr>r_id := i\<rparr>) rt s
      | None \<Rightarrow>
          if list_ex (\<lambda>m. api_route m (r_path r) \<noteq> None) [''GET'', ''POST'', ''DELETE'']
          then (Answer (reply 405 NoBody), s) else (Answer (reply 404 NoBody), s))"

text \<open>
  The whole chain. \<open>requestLogger\<close> and \<open>securityHeaders\<close> pass every request on; \<open>limitBody\<close>
  is in \<open>handle\<close> and in the login below.
\<close>

definition serve :: "'w host \<Rightarrow> 'l lib \<Rightarrow> decoders \<Rightarrow> config \<Rightarrow> inputs \<Rightarrow> request \<Rightarrow> ('w, 'l) hstate \<Rightarrow>
    outcome \<times> ('w, 'l) hstate" where
  "serve H lib D cfg inp r s =
     (if \<not> clean_segments (r_path r) then (Answer (reply 301 NoBody), s)
      else (case top_route (r_method r) (r_path r) of
        Healthz \<Rightarrow> answer (healthz H s)
      | e \<Rightarrow>
     (case csrfGuard lib r of
        Some resp \<Rightarrow> (Answer resp, s)
      | None \<Rightarrow>
     (case e of
        LoginPage \<Rightarrow> (Answer (loginPage (in_login inp)), s)
      | LoginPost \<Rightarrow> answer (login H lib cfg r (dec_login D (limitBody (in_body inp))) s)
      | _ \<Rightarrow>
     (case auth H lib cfg r s of
        (Some resp, s1) \<Rightarrow> (Answer resp, s1)
      | (None, s1) \<Rightarrow> serve_mux H lib D cfg inp r s1)))))"

section \<open>The operations under opMu\<close>

definition perform :: "'w host \<Rightarrow> 'l lib \<Rightarrow> op \<Rightarrow> ('w, 'l) hstate \<Rightarrow> response \<times> ('w, 'l) hstate" where
  "perform H lib x s =
     (case x of
        OpUnlock v c \<Rightarrow> unlock_locked H v c s
      | OpLock v \<Rightarrow> lock_locked H v s
      | OpMount v \<Rightarrow> mount_locked H v s
      | OpKeyAdd v k \<Rightarrow> keyslotAdd_locked H lib v k s
      | OpKeyRemove v c k \<Rightarrow> keyslotRemove_locked H lib v c k s
      | OpImport q \<Rightarrow> import_locked H lib q s
      | OpGrow i n key \<Rightarrow> grow_locked H i n key s
      | OpDelete i v \<Rightarrow> delete_locked H i v s)"

section \<open>Creation goroutines\<close>

text \<open>
  A goroutine of \<open>createVault\<close> between its stages: started; the vault prepared, with the failure
  if there is one; the record inserted or not; the outcome reported and the failure undone; the
  auto-lock window marked. Then it releases its reservations and is gone.
\<close>

datatype phase = Started | Prepared "failure option" | Committed "failure + vault" | Finished | Marked

record job =
  j_creation :: creation
  j_phase :: phase
  j_chan :: "progress list"

definition on_channel :: "('w csys \<Rightarrow> 'r \<times> 'w csys) \<Rightarrow> progress list \<Rightarrow> ('w, 'l) hstate \<Rightarrow>
    'r \<times> progress list \<times> ('w, 'l) hstate" where
  "on_channel f ch s = (case f (to_csys s ch) of (x, c) \<Rightarrow> (x, chan c, from_csys c s))"

definition job_step :: "'w host \<Rightarrow> job \<Rightarrow> ('w, 'l) hstate \<Rightarrow> job option \<times> ('w, 'l) hstate" where
  "job_step H j s =
     (let c = j_creation j in
      case j_phase j of
        Started \<Rightarrow>
          (case on_channel (create_prepare H (cr_name c) (cr_path c) (image_path (cr_path c) (cr_name c))
                  (cr_size c) (cr_password c) (cr_mount c)) (j_chan j) s of
             (f, ch, s1) \<Rightarrow> (Some (j\<lparr>j_phase := Prepared f, j_chan := ch\<rparr>), s1))
      | Prepared (Some f) \<Rightarrow> (Some (j\<lparr>j_phase := Committed (Inl f)\<rparr>), s)
      | Prepared None \<Rightarrow>
          (case on_channel (create_commit H (cr_name c) (image_path (cr_path c) (cr_name c)) (cr_size c)
                  (cr_mount c)) (j_chan j) s of
             (r, ch, s1) \<Rightarrow> (Some (j\<lparr>j_phase := Committed r, j_chan := ch\<rparr>), s1))
      | Committed r \<Rightarrow>
          (case on_channel (\<lambda>k. ((), create_finish H (cr_name c) (image_path (cr_path c) (cr_name c))
                  (cr_mount c) r k)) (j_chan j) s of
             (_, ch, s1) \<Rightarrow> (Some (j\<lparr>j_phase := Finished, j_chan := ch\<rparr>), s1))
      | Finished \<Rightarrow> (Some (j\<lparr>j_phase := Marked\<rparr>), mark_created H (cr_name c) s)
      | Marked \<Rightarrow> (None, releasePending (cr_name c) (cr_img c) s))"

section \<open>The server\<close>

text \<open>
  Where the one goroutine of \<open>autoLockLoop\<close> stands: before the startup scan, between two vaults,
  waiting for \<open>opMu\<close> with what it has read, or past \<open>opMu.Unlock\<close> with an entry to drop.
\<close>

datatype loop = Scanning | Idle | Locking int "int option" vault | Dropping int

record ('w, 'l) server =
  st :: "('w, 'l) hstate"
  ops :: "op list"
  running :: "job list"
  expired :: "int list"
  autolock :: loop

definition init_server :: "('w, 'l) hstate \<Rightarrow> ('w, 'l) server" where
  "init_server s = \<lparr>st = s, ops = [], running = [], expired = [], autolock = Scanning\<rparr>"

text \<open>The labels of the steps.\<close>

datatype 'w label = Request request inputs | Locked op | Goroutine job | Sweep | AutoLockRead int
  | AutoLockTry int | AutoLockDrop int | StartupScan | CleanSessions | CleanJobs | CleanLimiters | World 'w

definition arrived :: "outcome \<Rightarrow> ('w, 'l) hstate \<Rightarrow> ('w, 'l) server \<Rightarrow> ('w, 'l) server" where
  "arrived x s \<sigma> = (case x of
     Answer _ \<Rightarrow> \<sigma>\<lparr>st := s\<rparr>
   | Wait p \<Rightarrow> \<sigma>\<lparr>st := s, ops := p # ops \<sigma>\<rparr>
   | Spawn _ c \<Rightarrow> \<sigma>\<lparr>st := s, running := \<lparr>j_creation = c, j_phase = Started, j_chan = []\<rparr> # running \<sigma>\<rparr>)"

definition advance :: "job \<Rightarrow> job option \<Rightarrow> job list \<Rightarrow> job list" where
  "advance j j' js = (case j' of None \<Rightarrow> remove1 j js | Some k \<Rightarrow> k # remove1 j js)"

text \<open>
  One step of the server. Between two steps anything outside the program may change (\<open>World\<close>),
  the clock included. \<open>Locked\<close> runs one waiting operation as a whole: \<open>opMu\<close> excludes every
  other one, while requests, goroutines and tickers go on between two of them.
\<close>

inductive step :: "'w host \<Rightarrow> 'l lib \<Rightarrow> decoders \<Rightarrow> config \<Rightarrow> 'w label \<Rightarrow> ('w, 'l) server \<Rightarrow> ('w, 'l) server \<Rightarrow> bool"
  for H :: "'w host" and lib :: "'l lib" and D :: decoders and cfg :: config where
  Request: "serve H lib D cfg inp r (st \<sigma>) = (x, s') \<Longrightarrow> step H lib D cfg (Request r inp) \<sigma> (arrived x s' \<sigma>)"
| Locked: "p \<in> set (ops \<sigma>) \<Longrightarrow> perform H lib p (st \<sigma>) = (resp, s') \<Longrightarrow>
    step H lib D cfg (Locked p) \<sigma> (\<sigma>\<lparr>st := s', ops := remove1 p (ops \<sigma>)\<rparr>)"
| Goroutine: "j \<in> set (running \<sigma>) \<Longrightarrow> job_step H j (st \<sigma>) = (j', s') \<Longrightarrow>
    step H lib D cfg (Goroutine j) \<sigma> (\<sigma>\<lparr>st := s', running := advance j j' (running \<sigma>)\<rparr>)"
| StartupScan: "autolock \<sigma> = Scanning \<Longrightarrow>
    step H lib D cfg StartupScan \<sigma> (\<sigma>\<lparr>st := autoLockStartup H (st \<sigma>), autolock := Idle\<rparr>)"
| Sweep: "autolock \<sigma> = Idle \<Longrightarrow> expired \<sigma> = [] \<Longrightarrow> c_window cfg = Some window \<Longrightarrow>
    step H lib D cfg Sweep \<sigma> (\<sigma>\<lparr>expired := expired_vaults window (h_now H (sworld (st \<sigma>))) (st \<sigma>)\<rparr>)"
| AutoLockGone: "autolock \<sigma> = Idle \<Longrightarrow> expired \<sigma> = i # rest \<Longrightarrow> autoLock_read H i (st \<sigma>) = (None, s') \<Longrightarrow>
    step H lib D cfg (AutoLockRead i) \<sigma> (\<sigma>\<lparr>st := s', expired := rest\<rparr>)"
| AutoLockFound: "autolock \<sigma> = Idle \<Longrightarrow> expired \<sigma> = i # rest \<Longrightarrow>
    autoLock_read H i (st \<sigma>) = (Some (since, v), s') \<Longrightarrow>
    step H lib D cfg (AutoLockRead i) \<sigma> (\<sigma>\<lparr>st := s', expired := rest, autolock := Locking i since v\<rparr>)"
| AutoLockTry: "autolock \<sigma> = Locking i since v \<Longrightarrow> autoLock_locked H i since v (st \<sigma>) = (dropped, s') \<Longrightarrow>
    step H lib D cfg (AutoLockTry i) \<sigma> (\<sigma>\<lparr>st := s', autolock := (if dropped then Dropping i else Idle)\<rparr>)"
| AutoLockDrop: "autolock \<sigma> = Dropping i \<Longrightarrow>
    step H lib D cfg (AutoLockDrop i) \<sigma> (\<sigma>\<lparr>st := clearUnlocked i (st \<sigma>), autolock := Idle\<rparr>)"
| CleanSessions: "step H lib D cfg CleanSessions \<sigma> (\<sigma>\<lparr>st := cleanupSessions H cfg (st \<sigma>)\<rparr>)"
| CleanJobs: "step H lib D cfg CleanJobs \<sigma> (\<sigma>\<lparr>st := cleanupJobs H (st \<sigma>)\<rparr>)"
| CleanLimiters: "step H lib D cfg CleanLimiters \<sigma> (\<sigma>\<lparr>st := cleanupLimiters H (st \<sigma>)\<rparr>)"
| World: "step H lib D cfg (World w) \<sigma> (\<sigma>\<lparr>st := (st \<sigma>)\<lparr>sworld := w\<rparr>\<rparr>)"

inductive_cases stepE: "step H lib D cfg l \<sigma> \<sigma>'"
inductive_simps step_Locked_iff: "step H lib D cfg (Locked p) \<sigma> \<sigma>'"
inductive_simps step_Goroutine_iff: "step H lib D cfg (Goroutine j) \<sigma> \<sigma>'"
inductive_simps step_Request_iff: "step H lib D cfg (Request r inp) \<sigma> \<sigma>'"

text \<open>The states a server reaches from those satisfying \<open>init\<close>.\<close>

inductive reachable :: "('s \<Rightarrow> bool) \<Rightarrow> ('l \<Rightarrow> 's \<Rightarrow> 's \<Rightarrow> bool) \<Rightarrow> 's \<Rightarrow> bool"
  for init :: "'s \<Rightarrow> bool" and trans :: "'l \<Rightarrow> 's \<Rightarrow> 's \<Rightarrow> bool" where
  Start: "init s \<Longrightarrow> reachable init trans s"
| Step: "reachable init trans s \<Longrightarrow> trans l s t \<Longrightarrow> reachable init trans t"

text \<open>What an inductive invariant has to provide, and what it gives.\<close>

locale invariant_of =
  fixes init :: "'s \<Rightarrow> bool" and trans :: "'l \<Rightarrow> 's \<Rightarrow> 's \<Rightarrow> bool" and inv :: "'s \<Rightarrow> bool"
  assumes inv_init: "init s \<Longrightarrow> inv s"
    and inv_step: "inv s \<Longrightarrow> trans l s t \<Longrightarrow> inv t"
begin

lemma inv_reachable: "reachable init trans s \<Longrightarrow> inv s"
  by (induction rule: reachable.induct) (auto intro: inv_init inv_step)

lemma step_from_reachable:
  "reachable init trans s \<Longrightarrow> trans l s t \<Longrightarrow> inv s \<and> inv t"
  using inv_reachable inv_step by blast

end

text \<open>The server starts with an opened database and empty tables.\<close>

definition starts :: "('w, 'l) server \<Rightarrow> bool" where
  "starts \<sigma> \<longleftrightarrow> ops \<sigma> = [] \<and> running \<sigma> = [] \<and> expired \<sigma> = [] \<and> autolock \<sigma> = Scanning \<and> pendingNames (st \<sigma>) = {} \<and> pendingPaths (st \<sigma>) = {}
     \<and> unlockedAt (st \<sigma>) = [] \<and> sessions (st \<sigma>) = Map.empty \<and> jobs (st \<sigma>) = Map.empty \<and> db_ok (sdb (st \<sigma>))"

end
