(* ===== verification/HandlerEffects.thy ===== *)
theory HandlerEffects
  imports Server
begin

text \<open>
  What the handlers and the operations under \<open>opMu\<close> leave alone: the reservations, sessions and
  jobs of the server, and the rows of the database they do not own.
\<close>

section \<open>Quiet calls\<close>

text \<open>A quiet call changes neither the database nor the server's own tables.\<close>

definition quiet :: "('w, 'z) sys_scheme \<Rightarrow> ('w, 'z) sys_scheme \<Rightarrow> bool" where
  "quiet s s' \<longleftrightarrow> sdb s' = sdb s \<and> sys.more s' = sys.more s"

lemma quiet_refl [simp]: "quiet s s"
  by (simp add: quiet_def)

lemma quiet_trans [trans]: "quiet s t \<Longrightarrow> quiet t u \<Longrightarrow> quiet s u"
  by (simp add: quiet_def)

lemma quiet_run: "run H c s = ((out, err), s') \<Longrightarrow> quiet s s'"
  by (auto simp: quiet_def dest!: runD)

lemma quiet_unlockWith: "unlockWith H v input extra s = (r, s') \<Longrightarrow> quiet s s'"
  using unlockWithD [of H v input extra s r s'] by (simp add: quiet_def)

lemma quiet_unlock:
  "UnlockContext H v pw s = (r, s') \<Longrightarrow> quiet s s'" "UnlockKeyFileContext H v key s = (r, s') \<Longrightarrow> quiet s s'"
  by (auto simp: UnlockContext_def UnlockKeyFileContext_def dest: quiet_unlockWith)

lemma quiet_lock: "LockContext H v s = (r, s') \<Longrightarrow> quiet s s'"
  using LockContextD [of H v s r s'] by (simp add: quiet_def)

lemma quiet_mount: "Mount H v s = (r, s') \<Longrightarrow> quiet s s'"
  using MountD [of H v s r s'] by (simp add: quiet_def)

lemma quiet_delete: "Delete H v s = (r, s') \<Longrightarrow> quiet s s'"
  using DeleteD [of H v s r s'] by (simp add: quiet_def)

lemma quiet_addkey: "AddKey H v old new slot s = (r, s') \<Longrightarrow> quiet s s'"
  using AddKeyD [of H v old new slot s r s'] by (simp add: quiet_def)

lemma quiet_addkeyfile: "AddKeyFile H v old new slot s = (r, s') \<Longrightarrow> quiet s s'"
  using AddKeyFileD [of H v old new slot s r s'] by (simp add: quiet_def)

lemma quiet_killslot: "KillSlot H v pw slot s = (r, s') \<Longrightarrow> quiet s s'"
  using KillSlotD [of H v pw slot s r s'] by (simp add: quiet_def)

lemma quiet_killslot_keyfile: "KillSlotKeyFile H v pw slot s = (r, s') \<Longrightarrow> quiet s s'"
  using KillSlotKeyFileD [of H v pw slot s r s'] by (simp add: quiet_def)

text \<open>The commands \<open>DumpDetails\<close> runs.\<close>

definition dump_cmds :: "vault \<Rightarrow> cmd set" where
  "dump_cmds v = {Cmd False [''cryptsetup'', ''luksDump'', v_path v] [],
                  Cmd False [''cryptsetup'', ''luksDump'', ''--dump-json-metadata'', v_path v] []}"

lemma DumpDetailsD:
  assumes "DumpDetails H L v s = (r, s')"
  shows "sdb s' = sdb s \<and> sys.more s' = sys.more s
    \<and> (\<exists>es. sevents s' = sevents s @ es \<and> (\<forall>e \<in> set es. \<exists>c ok. c \<in> dump_cmds v \<and> e = Ran c ok))"
  using assms
  by (auto simp: DumpDetails_def fillLUKS2_def dump_cmds_def Let_def split: prod.splits option.splits if_splits dest!: runD)

lemma quiet_dump: "DumpDetails H L v s = (r, s') \<Longrightarrow> quiet s s'"
  using DumpDetailsD [of H L v s r s'] by (simp add: quiet_def)

lemma quiet_append: "appendFile H p n s = (r, s') \<Longrightarrow> quiet s s'"
  using appendFileD [of H p n s r s'] by (auto simp: quiet_def)

lemma quiet_grow_device: "grow_device H v key s = (r, s') \<Longrightarrow> quiet s s'"
  using grow_deviceD [of H v key s r s'] by (simp add: quiet_def)

lemma quiet_grow:
  assumes "Grow H v n key s = (r, s')"
  shows "quiet s s'"
proof (cases "wrap64 (n - v_size v) \<le> 0 \<or> checkDiskSpace H (v_path v) (wrap64 (n - v_size v)) s \<noteq> None")
  case True
  then show ?thesis using assms by (auto simp: Grow_def Let_def split: if_splits)
next
  case False
  obtain out e s1 where f: "run H (Cmd True (fallocate_argv n (v_path v)) []) s = ((out, e), s1)"
    by (metis surj_pair)
  note q = quiet_run [OF f]
  show ?thesis
  proof (cases e)
    case None
    then have "grow_device H v key s1 = (r, s')" using assms False f by (auto simp: Grow_def Let_def)
    then show ?thesis using q quiet_grow_device quiet_trans by blast
  next
    case (Some err)
    obtain e2 s2 where a: "appendFile H (v_path v) (wrap64 (n - v_size v)) s1 = (e2, s2)" by fastforce
    show ?thesis
    proof (cases e2)
      case None
      then have "grow_device H v key s2 = (r, s')" using assms False f Some a by (auto simp: Grow_def Let_def)
      then show ?thesis using q quiet_append [OF a] quiet_grow_device quiet_trans by blast
    next
      case (Some e3)
      then have "s' = s2" using assms False f \<open>e = Some err\<close> a by (auto simp: Grow_def Let_def)
      then show ?thesis using q quiet_append [OF a] quiet_trans by blast
    qed
  qed
qed

lemmas quiet_calls = quiet_run quiet_unlock quiet_lock quiet_mount quiet_delete quiet_addkey quiet_addkeyfile
  quiet_killslot quiet_killslot_keyfile quiet_dump quiet_grow

section \<open>The server's tables\<close>

text \<open>The tables that only \<open>createVault\<close>, the login and the event stream write.\<close>

definition keeps :: "('w, 'l) hstate \<Rightarrow> ('w, 'l) hstate \<Rightarrow> bool" where
  "keeps s s' \<longleftrightarrow> pendingNames s' = pendingNames s \<and> pendingPaths s' = pendingPaths s \<and> jobs s' = jobs s
     \<and> sessions s' = sessions s"

lemma keeps_refl [simp]: "keeps s s"
  by (simp add: keeps_def)

lemma keeps_trans [trans]: "keeps s t \<Longrightarrow> keeps t u \<Longrightarrow> keeps s u"
  by (simp add: keeps_def)

lemma keeps_more: "sys.more s' = sys.more s \<Longrightarrow> keeps s s'"
  by (simp add: keeps_def hstate_more_eq)

lemma keeps_quiet: "quiet s s' \<Longrightarrow> keeps s s'"
  by (simp add: quiet_def keeps_more)

lemma keeps_mark [simp]: "keeps s (markUnlocked H i s)" "keeps s (clearUnlocked i s)"
  by (simp_all add: keeps_def)

lemma keeps_db:
  "GetVault H i s = (r1, s') \<Longrightarrow> keeps s s'" "ListVaults H s = (r2, s') \<Longrightarrow> keeps s s'"
  "GetVaultByName H n s = (r1, s') \<Longrightarrow> keeps s s'" "DeleteVault H i s = (r3, s') \<Longrightarrow> keeps s s'"
  "UpdateVaultSize H i z s = (r3, s') \<Longrightarrow> keeps s s'" "CreateVault H n p z m k s = (r1, s') \<Longrightarrow> keeps s s'"
  by (rule keeps_more, drule db_dests, simp)+

section \<open>The rows an operation adds\<close>

definition fresh_rows :: "db_state \<Rightarrow> db_state \<Rightarrow> vault set" where
  "fresh_rows d d' = {v \<in> set (vaults d'). v_id v \<notin> v_id ` set (vaults d)}"

lemma fresh_rows_refl [simp]: "fresh_rows d d = {}"
  by (auto simp: fresh_rows_def)

lemma fresh_rows_delete [simp]: "fresh_rows d (delete_vault i d) = {}"
  by (auto simp: fresh_rows_def delete_vault_def)

lemma fresh_rows_update [simp]: "fresh_rows d (update_vault_size i n d) = {}"
  by (auto simp: fresh_rows_def update_vault_size_def)

text \<open>What one operation may do to the records: add a row, remove rows, set a size, or nothing.\<close>

inductive row_change :: "(vault \<Rightarrow> bool) \<Rightarrow> db_state \<Rightarrow> db_state \<Rightarrow> bool"
  for P :: "vault \<Rightarrow> bool" and d :: db_state where
  Same: "row_change P d d"
| Added: "insert_vault now name path n mp mapper d = Inr (i, d') \<Longrightarrow>
    P (new_vault_row now name path n mp mapper d) \<Longrightarrow> row_change P d d'"
| Removed: "row_change P d (delete_vault i d)"
| Resized: "row_change P d (update_vault_size i n d)"

inductive_cases row_changeE: "row_change P d d'"

lemma fresh_rows_change: "row_change P d d' \<Longrightarrow> v \<in> fresh_rows d d' \<Longrightarrow> P v"
  by (erule row_changeE) (auto simp: fresh_rows_def insert_vault_Inr delete_vault_def update_vault_size_def)

text \<open>
  An operation keeps the invariant of the database and changes the records in one of these ways,
  adding only rows with \<open>P\<close>; a calm one leaves the records alone.
\<close>

definition db_effect :: "(vault \<Rightarrow> bool) \<Rightarrow> db_state \<Rightarrow> db_state \<Rightarrow> bool" where
  "db_effect P d d' \<longleftrightarrow> (db_ok d \<longrightarrow> db_ok d') \<and> row_change P d d'"

definition db_calm :: "db_state \<Rightarrow> db_state \<Rightarrow> bool" where
  "db_calm d d' \<longleftrightarrow> (db_ok d \<longrightarrow> db_ok d') \<and> vaults d' = vaults d \<and> vault_seq d' = vault_seq d"

lemma db_effect_refl [simp]: "db_effect P d d"
  by (simp add: db_effect_def row_change.Same)

lemma db_effect_delete [simp]: "db_effect P d (delete_vault i d)"
  by (simp add: db_effect_def db_ok_delete_vault row_change.Removed)

lemma db_effect_update [simp]: "db_effect P d (update_vault_size i n d)"
  by (simp add: db_effect_def db_ok_update_vault_size row_change.Resized)

lemma db_calm_refl [simp]: "db_calm d d"
  by (simp add: db_calm_def)

lemma db_calm_trans: "db_calm d d' \<Longrightarrow> db_calm d' d'' \<Longrightarrow> db_calm d d''"
  by (simp add: db_calm_def)

lemma db_calm_tokens [simp]: "db_calm d (touch_token now i d)" "db_calm d (delete_token i d)"
  using db_ok_touch_token [of d now i] db_ok_delete_token [of d i]
  by (simp_all add: db_calm_def touch_token_def delete_token_def)

lemma db_calm_fresh: "db_calm d d' \<Longrightarrow> fresh_rows d d' = {}"
  by (auto simp: db_calm_def fresh_rows_def)

lemma row_change_mono: "row_change P d d' \<Longrightarrow> (\<And>v. P v \<Longrightarrow> Q v) \<Longrightarrow> row_change Q d d'"
  by (erule row_changeE) (auto intro: row_change.intros)

lemma db_effect_create:
  assumes "CreateVault H name path n mp mapper s = (r, s')" and P: "\<And>now d. P (new_vault_row now name path n mp mapper d)"
  shows "db_effect P (sdb s) (sdb s')"
proof (cases "sdb s' = sdb s")
  case False
  then obtain now i where ins: "insert_vault now name path n mp mapper (sdb s) = Inr (i, sdb s')"
    using CreateVaultD [OF assms(1)] by blast
  show ?thesis using row_change.Added [where P = P, OF ins P] db_ok_insert_vault ins by (auto simp: db_effect_def)
qed simp

section \<open>The operations under opMu\<close>

lemma unlock_locked_effect:
  assumes "unlock_locked H v c s = (resp, s')"
  shows "keeps s s' \<and> sdb s' = sdb s"
proof -
  obtain r s1 where u: "(case c of KeyFile key \<Rightarrow> UnlockKeyFileContext H v key s | Password pw \<Rightarrow> UnlockContext H v pw s) = (r, s1)"
    by fastforce
  have q: "quiet s s1" using u by (auto split: credential.splits dest: quiet_unlock)
  show ?thesis
  proof (cases r)
    case None
    then have "s' = markUnlocked H (v_id v) s1" using assms u by (simp add: unlock_locked_def Let_def)
    then show ?thesis using keeps_trans [OF keeps_quiet [OF q] keeps_mark(1)] q by (simp add: quiet_def)
  next
    case Some
    then have "s' = s1" using assms u by (simp add: unlock_locked_def)
    then show ?thesis using keeps_quiet [OF q] q by (simp add: quiet_def)
  qed
qed

lemma lock_locked_effect:
  assumes "lock_locked H v s = (resp, s')"
  shows "keeps s s' \<and> sdb s' = sdb s"
proof -
  obtain r s1 where l: "LockContext H v s = (r, s1)" by fastforce
  note q = quiet_lock [OF l]
  show ?thesis
  proof (cases r)
    case None
    then have "s' = clearUnlocked (v_id v) s1" using assms l by (simp add: lock_locked_def Let_def)
    then show ?thesis using keeps_trans [OF keeps_quiet [OF q] keeps_mark(2)] q by (simp add: quiet_def)
  next
    case Some
    then have "s' = s1" using assms l by (simp add: lock_locked_def)
    then show ?thesis using keeps_quiet [OF q] q by (simp add: quiet_def)
  qed
qed

lemma mount_locked_effect: "mount_locked H v s = (resp, s') \<Longrightarrow> quiet s s'"
  by (auto simp: mount_locked_def split: prod.splits option.splits dest: quiet_mount)

lemma keyslotAdd_locked_effect:
  assumes "keyslotAdd_locked H lib v k s = (resp, s')"
  shows "quiet s s'"
proof -
  obtain r s1 where a: "(case (ka_old k, ka_new k) of
      (Password old, Password new) \<Rightarrow> AddKey H v old new (ka_slot k) s
    | _ \<Rightarrow> AddKeyFile H v (secret (ka_old k)) (secret (ka_new k)) (ka_slot k) s) = (r, s1)" by fastforce
  have q: "quiet s s1"
    using a by (auto split: credential.splits dest: quiet_addkey quiet_addkeyfile)
  have "s' = s1 \<or> (\<exists>d. DumpDetails H (luks lib) v s1 = (d, s'))"
    using assms a by (auto simp: keyslotAdd_locked_def split: option.splits prod.splits sum.splits)
  then show ?thesis using q quiet_dump quiet_trans by blast
qed

lemma keyslotRemove_locked_effect:
  assumes "keyslotRemove_locked H lib v c k s = (resp, s')"
  shows "quiet s s'"
proof -
  obtain d s1 where d: "DumpDetails H (luks lib) v s = (d, s1)" by fastforce
  obtain r s2 where x: "(case c of KeyFile key \<Rightarrow> KillSlotKeyFile H v key k s1 | Password pw \<Rightarrow> KillSlot H v pw k s1) = (r, s2)"
    by fastforce
  have q1: "quiet s s1" using quiet_dump [OF d] .
  have q2: "quiet s1 s2" using x by (auto split: credential.splits dest: quiet_killslot quiet_killslot_keyfile)
  have "s' = s1 \<or> s' = s2 \<or> (\<exists>e. DumpDetails H (luks lib) v s2 = (e, s'))"
    using assms d x by (auto simp: keyslotRemove_locked_def split: option.splits prod.splits sum.splits)
  then show ?thesis using q1 q2 quiet_dump quiet_trans by blast
qed

text \<open>What an import adds is not being created.\<close>

definition not_in_flight :: "('w, 'l) hstate \<Rightarrow> vault \<Rightarrow> bool" where
  "not_in_flight s v \<longleftrightarrow> v_name v \<notin> pendingNames s \<and> v_path v \<notin> pendingPaths s"

text \<open>The row an import adds.\<close>

definition adopts :: "('w, 'l) hstate \<Rightarrow> import_req \<Rightarrow> vault \<Rightarrow> bool" where
  "adopts s q v \<longleftrightarrow> not_in_flight s v \<and> v_name v = q_im_name q \<and> v_path v = q_im_path q \<and> v_mapper v = q_im_name q
     \<and> v_mount v = q_im_mount q @ ''/'' @ q_im_name q"

lemma import_locked_effect:
  assumes "import_locked H lib q s = (resp, s')"
  shows "keeps s s' \<and> db_effect (adopts s q) (sdb s) (sdb s')"
proof -
  let ?name = "q_im_name q" and ?path = "q_im_path q" and ?mount = "q_im_mount q @ ''/'' @ q_im_name q"
  obtain es s1 where l: "ListVaults H s = (es, s1)" by fastforce
  obtain d s2 where p: "DumpDetails H (luks lib) (import_probe ?name ?path) s1 = (d, s2)" by fastforce
  have s1: "quiet s s1" using ListVaultsD [OF l] by (simp add: quiet_def)
  have s2: "quiet s1 s2" using quiet_dump [OF p] .
  have cases: "s' = s \<or> s' = s1 \<or> s' = s2 \<or> ?name \<notin> pendingNames s \<and> ?path \<notin> pendingPaths s \<and>
      (\<exists>n r. CreateVault H ?name ?path n ?mount ?name s2 = (r, s'))"
    using assms l p
    by (auto simp: import_locked_def Let_def split: if_splits prod.splits sum.splits option.splits)
  have q2: "quiet s s2" using s1 s2 quiet_trans by blast
  from cases consider "quiet s s'" | n r where "?name \<notin> pendingNames s" "?path \<notin> pendingPaths s"
      "CreateVault H ?name ?path n ?mount ?name s2 = (r, s')"
    using s1 q2 by auto
  then show ?thesis
  proof cases
    case 1
    then show ?thesis using keeps_quiet by (auto simp: quiet_def)
  next
    case 2
    have "db_effect (adopts s q) (sdb s2) (sdb s')"
      by (rule db_effect_create [OF 2(3)]) (simp add: adopts_def not_in_flight_def new_vault_row_def 2)
    moreover have "keeps s s'" using keeps_trans [OF keeps_quiet [OF q2] keeps_db(6) [OF 2(3)]] .
    ultimately show ?thesis using q2 by (simp add: quiet_def)
  qed
qed

lemma grow_locked_effect:
  assumes "grow_locked H i n key s = (resp, s')"
  shows "keeps s s' \<and> db_effect P (sdb s) (sdb s')"
proof -
  obtain r s1 where g: "GetVault H i s = (r, s1)" by fastforce
  have q1: "quiet s s1" using GetVaultD [OF g] by (simp add: quiet_def)
  show ?thesis
  proof (cases r)
    case (Inl e)
    then show ?thesis using assms g q1 keeps_quiet by (auto simp: grow_locked_def quiet_def)
  next
    case (Inr v)
    obtain e2 s2 where gr: "Grow H v n key s1 = (e2, s2)" by fastforce
    have q2: "quiet s s2" using q1 quiet_grow [OF gr] quiet_trans by blast
    obtain e3 s3 where up: "UpdateVaultSize H i n s2 = (e3, s3)" by fastforce
    obtain e4 s4 where g4: "GetVault H i s3 = (e4, s4)" by fastforce
    have k3: "keeps s s3" using keeps_trans [OF keeps_quiet [OF q2] keeps_db(5) [OF up]] .
    have d3: "db_effect P (sdb s) (sdb s3)" using UpdateVaultSizeD [OF up] q2 by (auto simp: quiet_def)
    have k4: "keeps s s4" "sdb s4 = sdb s3"
      using keeps_trans [OF k3 keeps_db(1) [OF g4]] GetVaultD [OF g4] by simp_all
    have "s' = s1 \<or> s' = s2 \<or> s' = s3 \<or> s' = s4"
      using assms g Inr gr up g4 by (auto simp: grow_locked_def split: if_splits option.splits sum.splits)
    then show ?thesis using q1 q2 k3 d3 k4 keeps_quiet by (auto simp: quiet_def)
  qed
qed

lemma delete_locked_effect:
  assumes "delete_locked H i v s = (resp, s')"
  shows "keeps s s' \<and> db_effect P (sdb s) (sdb s')"
proof -
  obtain e1 s1 where d: "DeleteVault H i s = (e1, s1)" by fastforce
  obtain e2 s2 where r: "Delete H v (clearUnlocked i s1) = (e2, s2)" by fastforce
  have k1: "keeps s s1" using keeps_db(4) [OF d] .
  have d1: "db_effect P (sdb s) (sdb s1)" using DeleteVaultD [OF d] by auto
  have k2: "keeps s s2" using keeps_trans [OF keeps_trans [OF k1 keeps_mark(2)] keeps_quiet [OF quiet_delete [OF r]]] .
  have d2: "sdb s2 = sdb s1" using quiet_delete [OF r] by (simp add: quiet_def)
  have "s' = s \<or> s' = s1 \<or> s' = s2"
    using assms d r by (auto simp: delete_locked_def split: if_splits option.splits)
  then show ?thesis using k1 d1 k2 d2 by auto
qed

lemma autoLock_locked_effect:
  assumes "autoLock_locked H i since v s = (dropped, s')"
  shows "keeps s s' \<and> sdb s' = sdb s"
proof (cases "windowRestarted i since s")
  case False
  obtain e s1 where l: "LockContext H v s = (e, s1)" by fastforce
  have "s' = s1" using assms False l by (simp add: autoLock_locked_def split: option.splits)
  then show ?thesis using keeps_quiet [OF quiet_lock [OF l]] quiet_lock [OF l] by (simp add: quiet_def)
qed (use assms in \<open>simp add: autoLock_locked_def\<close>)

lemma perform_effect:
  assumes "perform H lib p s = (resp, s')"
  shows "keeps s s' \<and> db_effect (\<lambda>v. \<exists>q. p = OpImport q \<and> adopts s q v) (sdb s) (sdb s')"
proof (cases p)
  case (OpUnlock v c)
  then show ?thesis using assms unlock_locked_effect [of H v c s] by (simp add: perform_def)
next
  case (OpLock v)
  then show ?thesis using assms lock_locked_effect [of H v s] by (simp add: perform_def)
next
  case (OpMount v)
  then have "quiet s s'" using assms mount_locked_effect [of H v s] by (simp add: perform_def)
  then show ?thesis using keeps_quiet by (auto simp: quiet_def)
next
  case (OpKeyAdd v k)
  then have "quiet s s'" using assms keyslotAdd_locked_effect [of H lib v k s] by (simp add: perform_def)
  then show ?thesis using keeps_quiet by (auto simp: quiet_def)
next
  case (OpKeyRemove v c k)
  then have "quiet s s'" using assms keyslotRemove_locked_effect [of H lib v c k s] by (simp add: perform_def)
  then show ?thesis using keeps_quiet by (auto simp: quiet_def)
next
  case (OpImport q)
  then show ?thesis using assms import_locked_effect [of H lib q s] by (simp add: perform_def)
next
  case (OpGrow i n key)
  then show ?thesis using assms grow_locked_effect [of H i n key s] by (simp add: perform_def)
next
  case (OpDelete i v)
  then show ?thesis using assms delete_locked_effect [of H i v s] by (simp add: perform_def)
qed

section \<open>Requests\<close>

text \<open>
  What every request but a reservation and a login leaves: the reservations, the auto-lock
  windows, the vault rows, and no session that was not there.
\<close>

definition no_new_session :: "('w, 'l) hstate \<Rightarrow> ('w, 'l) hstate \<Rightarrow> bool" where
  "no_new_session s s' \<longleftrightarrow>
     (\<forall>c y. sessions s' c = Some y \<longrightarrow> (\<exists>x. sessions s c = Some x \<and> se_created y = se_created x))"

definition calm :: "('w, 'l) hstate \<Rightarrow> ('w, 'l) hstate \<Rightarrow> bool" where
  "calm s s' \<longleftrightarrow> pendingNames s' = pendingNames s \<and> pendingPaths s' = pendingPaths s
     \<and> unlockedAt s' = unlockedAt s \<and> db_calm (sdb s) (sdb s') \<and> no_new_session s s'"

lemma no_new_session_refl [simp]: "no_new_session s s"
  by (simp add: no_new_session_def)

lemma no_new_session_trans: "no_new_session s t \<Longrightarrow> no_new_session t u \<Longrightarrow> no_new_session s u"
  unfolding no_new_session_def by metis

lemma no_new_session_same: "sessions t = sessions s \<Longrightarrow> no_new_session s t"
  by (simp add: no_new_session_def)

lemma calm_refl [simp]: "calm s s"
  by (simp add: calm_def)

lemma calm_trans [trans]: "calm s t \<Longrightarrow> calm t u \<Longrightarrow> calm s u"
  using no_new_session_trans db_calm_trans by (auto simp: calm_def)

lemma calm_quiet: "quiet s s' \<Longrightarrow> calm s s'"
  by (auto simp: calm_def quiet_def hstate_more_eq intro: no_new_session_same)

lemma calm_unlockAllowed: "unlockAllowed H lib cfg r s = (a, s') \<Longrightarrow> calm s s'"
  by (drule unlockAllowedD) (simp add: calm_def no_new_session_def)

lemma calm_authAllowed: "authAllowed H lib cfg r s = (a, s') \<Longrightarrow> calm s s'"
  by (drule authAllowedD) (simp add: calm_def no_new_session_def)

lemma calm_lookup: "lookupVault H i s = (r, s') \<Longrightarrow> calm s s'"
  by (drule lookupVaultD) (simp add: calm_def hstate_more_eq no_new_session_def)

lemma calm_clear [simp]: "calm s (clearAuthFailures cfg r s)"
  by (simp add: calm_def no_new_session_def)

lemma calm_auth:
  assumes "auth H lib cfg r s = (res, s')"
  shows "calm s s'"
proof -
  have "db_calm (sdb s) (sdb s')"
    using auth_frame [OF assms] by (metis db_calm_refl db_calm_tokens(1))
  then show ?thesis using auth_frame [OF assms] by (simp add: calm_def no_new_session_def)
qed

lemma calm_listVaults: "listVaults H s = (r, s') \<Longrightarrow> calm s s'"
  by (auto simp: listVaults_def Let_def split: prod.splits sum.splits intro!: calm_quiet dest!: ListVaultsD simp: quiet_def)

lemma calm_details:
  assumes "vaultDetails H lib r s = (resp, s')"
  shows "calm s s'"
proof (cases "parseID r")
  case (Some i)
  obtain l s1 where l: "lookupVault H i s = (l, s1)" by fastforce
  show ?thesis
  proof (cases l)
    case (Inr v)
    obtain d s2 where d: "DumpDetails H (luks lib) v s1 = (d, s2)" by fastforce
    have "s' = s2" using assms Some l Inr d by (auto simp: vaultDetails_def split: sum.splits)
    then show ?thesis using calm_trans [OF calm_lookup [OF l] calm_quiet [OF quiet_dump [OF d]]] by simp
  qed (use assms Some l calm_lookup [OF l] in \<open>simp add: vaultDetails_def\<close>)
qed (use assms in \<open>simp add: vaultDetails_def\<close>)

lemma calm_find_vault: "find_vault H r s = (x, s') \<Longrightarrow> calm s s'"
  by (auto simp: find_vault_def split: option.splits dest: calm_lookup)

lemma calm_delete_prepare: "delete_prepare H r s = (x, s') \<Longrightarrow> calm s s'"
  by (auto simp: delete_prepare_def split: option.splits prod.splits sum.splits dest: calm_lookup)

lemma calm_prepare:
  "unlock_prepare H lib cfg r b1 s = (x1, s') \<Longrightarrow> calm s s'"
  "keyslotAdd_prepare H lib cfg r b2 s = (x2, s') \<Longrightarrow> calm s s'"
  "keyslotRemove_prepare H lib cfg r b3 s = (x3, s') \<Longrightarrow> calm s s'"
  "grow_prepare H lib cfg r b4 s = (x4, s') \<Longrightarrow> calm s s'"
  unfolding unlock_prepare_def keyslotAdd_prepare_def keyslotRemove_prepare_def grow_prepare_def
  by (auto split: prod.splits bool.splits option.splits sum.splits
      dest!: calm_unlockAllowed calm_lookup intro: calm_trans)

lemma calm_listTokens: "listTokens H s = (r, s') \<Longrightarrow> calm s s'"
  by (auto simp: listTokens_def split: prod.splits sum.splits dest!: ListAPITokensD intro!: calm_quiet simp: quiet_def)

lemma newAPITokenD: "newAPIToken H s = (r, s') \<Longrightarrow> sdb s' = sdb s \<and> sys.more s' = sys.more s \<and> sevents s' = sevents s
    \<and> (\<forall>t. r = Some t \<longrightarrow> (\<exists>b. t = ''lukscrypt_'' @ hex_encode b))"
  by (auto simp: newAPIToken_def split: prod.splits option.splits dest!: rand_readD)

lemma CreateAPIToken_db_calm:
  assumes "CreateAPIToken H n h s = (r, s')"
  shows "db_calm (sdb s) (sdb s') \<and> sys.more s' = sys.more s"
proof (cases "sdb s' = sdb s")
  case False
  then obtain now i where ins: "insert_token now n h (sdb s) = Inr (i, sdb s')"
    using CreateAPITokenD [OF assms] by blast
  then show ?thesis using CreateAPITokenD [OF assms] db_ok_insert_token by (auto simp: db_calm_def insert_token_Inr)
qed (use CreateAPITokenD [OF assms] in simp)

lemma calm_createToken:
  assumes "createToken H lib b s = (resp, s')"
  shows "calm s s'"
proof (cases "b = None \<or> trim_space (the b) = [] \<or> 64 < length (trim_space (the b))")
  case True
  then show ?thesis using assms by (auto simp: createToken_def Let_def split: option.splits)
next
  case False
  then obtain n where b: "b = Some n" by auto
  obtain t s1 where t: "newAPIToken H s = (t, s1)" by fastforce
  have c1: "calm s s1" using newAPITokenD [OF t] by (intro calm_quiet) (simp add: quiet_def)
  show ?thesis
  proof (cases t)
    case (Some raw)
    obtain e s2 where c: "CreateAPIToken H (trim_space n) (hashToken lib raw) s1 = (e, s2)" by fastforce
    have "calm s1 s2" using CreateAPIToken_db_calm [OF c]
      by (simp add: calm_def hstate_more_eq no_new_session_def)
    moreover have "s' = s2" using assms False b t Some c by (auto simp: createToken_def Let_def split: sum.splits if_splits)
    ultimately show ?thesis using c1 calm_trans by blast
  qed (use assms False b t c1 in \<open>simp add: createToken_def Let_def\<close>)
qed

lemma calm_deleteToken:
  assumes "deleteToken H r s = (resp, s')"
  shows "calm s s'"
proof (cases "parseID r")
  case (Some i)
  obtain d s1 where d: "DeleteAPIToken H i s = (d, s1)" by fastforce
  have s': "s' = s1" using assms Some d by (auto simp: deleteToken_def split: prod.splits option.splits if_splits)
  have "sdb s1 = sdb s \<or> sdb s1 = delete_token i (sdb s)" using DeleteAPITokenD [OF d] by auto
  then have "db_calm (sdb s) (sdb s1)" by auto
  then show ?thesis using DeleteAPITokenD [OF d] s' by (simp add: calm_def hstate_more_eq no_new_session_def)
qed (use assms in \<open>simp add: deleteToken_def\<close>)

lemma calm_logout: "logout cfg r s = (resp, s') \<Longrightarrow> calm s s'"
  by (auto simp: logout_def calm_def no_new_session_def split: option.splits if_splits)

lemma calm_events: "vaultEvents i f inp s = (resp, s') \<Longrightarrow> calm s s'"
  by (auto simp: vaultEvents_def calm_def no_new_session_def split: option.splits if_splits prod.splits)

text \<open>A creation that is started has reserved its name and its image path.\<close>

definition creation_ok :: "config \<Rightarrow> creation \<Rightarrow> bool" where
  "creation_ok cfg c \<longleftrightarrow> cr_img c = image_path (cr_path c) (cr_name c) \<and> isValidVaultName (cr_name c)
     \<and> allowedStorageDir cfg (cr_path c) \<and> (\<exists>dir. allowedMountDir cfg dir \<and> cr_mount c = dir @ ''/'' @ cr_name c)"

definition reserved :: "config \<Rightarrow> creation \<Rightarrow> ('w, 'l) hstate \<Rightarrow> ('w, 'l) hstate \<Rightarrow> bool" where
  "reserved cfg c s s' \<longleftrightarrow> cr_name c \<notin> pendingNames s \<and> cr_img c \<notin> pendingPaths s
     \<and> pendingNames s' = insert (cr_name c) (pendingNames s) \<and> pendingPaths s' = insert (cr_img c) (pendingPaths s)
     \<and> creation_ok cfg c \<and> sdb s' = sdb s \<and> sessions s' = sessions s \<and> unlockedAt s' = unlockedAt s"

lemma check_create_Inr:
  "check_create cfg b = Inr q \<Longrightarrow> b = Some q \<and> isValidVaultName (q_name q) \<and> allowedStorageDir cfg (q_path q)
     \<and> allowedMountDir cfg (q_mount_dir q) \<and> 0 < q_size q \<and> q_size q \<le> c_max_gb cfg \<and> 8 \<le> length (q_password q)"
  by (auto simp: check_create_def split: option.splits if_splits)

lemma createVault_effect:
  assumes "createVault H cfg b s = ((resp, c), s')"
  shows "(case c of None \<Rightarrow> calm s s' | Some c \<Rightarrow> reserved cfg c s s')"
proof (cases "check_create cfg b")
  case (Inl e)
  then show ?thesis using assms by (auto simp: createVault_def)
next
  case (Inr q)
  let ?n = "q_name q" and ?i = "image_path (q_path q) (q_name q)"
  show ?thesis
  proof (cases "?n \<in> pendingNames s \<or> ?i \<in> pendingPaths s")
    case True
    then show ?thesis using assms Inr by (auto simp: createVault_def reserve_def Let_def split: if_splits)
  next
    case False
    let ?s1 = "s\<lparr>pendingNames := insert ?n (pendingNames s), pendingPaths := insert ?i (pendingPaths s)\<rparr>"
    obtain r s2 where r: "rand_read H 8 ?s1 = (r, s2)" by fastforce
    have s2: "sdb s2 = sdb s" "pendingNames s2 = insert ?n (pendingNames s)"
      "pendingPaths s2 = insert ?i (pendingPaths s)" "sessions s2 = sessions s" "unlockedAt s2 = unlockedAt s"
      using rand_readD [OF r] by (simp_all add: hstate_more_eq)
    show ?thesis
    proof (cases r)
      case None
      then have "c = None" "s' = releasePending ?n ?i s2"
        using assms Inr False r by (auto simp: createVault_def reserve_def Let_def)
      then show ?thesis using s2 False by (simp add: releasePending_def calm_def no_new_session_def)
    next
      case (Some d)
      then have "c = Some \<lparr>cr_name = ?n, cr_path = q_path q, cr_size = q_size q, cr_password = q_password q,
          cr_mount = q_mount_dir q @ ''/'' @ ?n, cr_img = ?i, cr_job = hex_encode d\<rparr>"
        "s' = s2\<lparr>jobs := (jobs s2)(hex_encode d \<mapsto> h_now H (sworld s2))\<rparr>"
        using assms Inr False r by (auto simp: createVault_def reserve_def Let_def)
      then show ?thesis using s2 False check_create_Inr [OF Inr] by (auto simp: reserved_def creation_ok_def)
    qed
  qed
qed

text \<open>What a request's outcome says of the state it leaves.\<close>

definition outcome_effect :: "config \<Rightarrow> outcome \<Rightarrow> ('w, 'l) hstate \<Rightarrow> ('w, 'l) hstate \<Rightarrow> bool" where
  "outcome_effect cfg x s s' \<longleftrightarrow> (case x of Spawn _ c \<Rightarrow> reserved cfg c s s' | _ \<Rightarrow> calm s s')"

lemma outcome_effect_answer: "answer p = (x, s') \<Longrightarrow> calm s (snd p) \<Longrightarrow> outcome_effect cfg x s s'"
  by (auto simp: answer_def outcome_effect_def split: prod.splits)

lemma outcome_effect_waiting: "waiting f p = (x, s') \<Longrightarrow> calm s (snd p) \<Longrightarrow> outcome_effect cfg x s s'"
  by (auto simp: waiting_def outcome_effect_def split: prod.splits sum.splits)

lemma calm_snd:
  "calm s (snd (listVaults H s))" "calm s (snd (vaultDetails H lib r s))" "calm s (snd (find_vault H r s))"
  "calm s (snd (delete_prepare H r s))" "calm s (snd (listTokens H s))" "calm s (snd (createToken H lib b s))"
  "calm s (snd (deleteToken H r s))" "calm s (snd (logout cfg r s))" "calm s (snd (vaultEvents i f inp s))"
  "calm s (snd (unlock_prepare H lib cfg r b1 s))" "calm s (snd (keyslotAdd_prepare H lib cfg r b2 s))"
  "calm s (snd (keyslotRemove_prepare H lib cfg r b3 s))" "calm s (snd (grow_prepare H lib cfg r b4 s))"
  by (rule calm_listVaults calm_details calm_find_vault calm_delete_prepare calm_listTokens calm_createToken
      calm_deleteToken calm_logout calm_events calm_prepare, rule prod.collapse [symmetric])+

lemma handle_effect:
  assumes "handle H lib D cfg inp r rt s = (x, s')"
  shows "outcome_effect cfg x s s'"
proof (cases rt)
  case PostVaults
  obtain resp c t where c: "createVault H cfg (dec_create D (limitBody (in_body inp))) s = ((resp, c), t)"
    by (metis surj_pair)
  have "x = (case c of None \<Rightarrow> Answer resp | Some c \<Rightarrow> Spawn resp c)" "s' = t"
    using assms PostVaults c by (auto simp: handle_def spawning_def Let_def split: option.splits)
  then show ?thesis using createVault_effect [OF c] by (auto simp: outcome_effect_def split: option.splits)
qed (use assms in \<open>auto simp: handle_def Let_def outcome_effect_def calm_snd
    intro: outcome_effect_answer [unfolded outcome_effect_def] outcome_effect_waiting [unfolded outcome_effect_def]\<close>)

text \<open>The login: the one request that opens a session, for the master credentials.\<close>

lemma login_effect:
  assumes "login H lib cfg r q s = (resp, s')"
  shows "pendingNames s' = pendingNames s \<and> pendingPaths s' = pendingPaths s \<and> sdb s' = sdb s
    \<and> unlockedAt s' = unlockedAt s
    \<and> (sessions s' = sessions s
       \<or> q = Some \<lparr>lr_user = c_user cfg, lr_password = c_pass cfg\<rparr>
          \<and> (\<exists>tok now. sessions s' = (sessions s)(tok \<mapsto> \<lparr>se_created = now, se_seen = now\<rparr>)
               \<and> set_cookie resp \<noteq> None \<and> ck_value (the (set_cookie resp)) = tok))"
proof -
  obtain ok s1 where a: "authAllowed H lib cfg r s = (ok, s1)" by fastforce
  note a1 = authAllowedD [OF a]
  show ?thesis
  proof (cases "ok \<and> (\<exists>p. q = Some p \<and> lr_user p \<noteq> [] \<and> lr_password p \<noteq> [] \<and> validCredentials cfg (lr_user p) (lr_password p))")
    case False
    then have "s' = s1" using assms a by (auto simp: login_def split: bool.splits option.splits if_splits)
    then show ?thesis using a1 by simp
  next
    case True
    then obtain p where p: "ok" "q = Some p" "lr_user p \<noteq> []" "lr_password p \<noteq> []"
      "lr_user p = c_user cfg" "lr_password p = c_pass cfg" by (auto simp: validCredentials_def)
    obtain b s2 where b: "rand_read H 32 (clearAuthFailures cfg r s1) = (b, s2)" by fastforce
    have s2: "pendingNames s2 = pendingNames s" "pendingPaths s2 = pendingPaths s" "sdb s2 = sdb s" "sessions s2 = sessions s"
      "unlockedAt s2 = unlockedAt s"
      using rand_readD [OF b] a1 by (simp_all add: hstate_more_eq)
    have pq: "p = \<lparr>lr_user = c_user cfg, lr_password = c_pass cfg\<rparr>" using p by simp
    show ?thesis
    proof (cases b)
      case None
      then have "s' = s2" using assms a p b by (simp add: login_def validCredentials_def)
      then show ?thesis using s2 by simp
    next
      case (Some d)
      then have "s' = s2\<lparr>sessions := (sessions s2)(hex_encode d \<mapsto>
          \<lparr>se_created = h_now H (sworld s2), se_seen = h_now H (sworld s2)\<rparr>)\<rparr>"
        "set_cookie resp = Some \<lparr>ck_value = hex_encode d, ck_secure = (r_tls r \<or> c_proxy cfg),
           ck_max_age = go_div (c_max_age cfg) second\<rparr>"
        using assms a p b by (auto simp: login_def validCredentials_def Let_def)
      then show ?thesis using s2 p(2) pq by auto
    qed
  qed
qed

text \<open>The whole chain.\<close>

definition is_login :: "config \<Rightarrow> decoders \<Rightarrow> request \<Rightarrow> inputs \<Rightarrow> bool" where
  "is_login cfg D r inp \<longleftrightarrow> r_method r = ''POST'' \<and> r_path r = [''login'']
     \<and> dec_login D (limitBody (in_body inp)) = Some \<lparr>lr_user = c_user cfg, lr_password = c_pass cfg\<rparr>"

lemma serve_cases:
  assumes "serve H lib D cfg inp r s = (x, s')"
  obtains (fixed) resp where "x = Answer resp" "s' = s"
  | (health) resp where "top_route (r_method r) (r_path r) = Healthz" "healthz H s = (resp, s')" "x = Answer resp"
  | (login) resp where "top_route (r_method r) (r_path r) = LoginPost" "csrfGuard lib r = None"
      "login H lib cfg r (dec_login D (limitBody (in_body inp))) s = (resp, s')" "x = Answer resp"
  | (refused) resp where "auth H lib cfg r s = (Some resp, s')" "x = Answer resp"
  | (served) s1 where "csrfGuard lib r = None" "auth H lib cfg r s = (None, s1)" "serve_mux H lib D cfg inp r s1 = (x, s')"
      "top_route (r_method r) (r_path r) = Authenticated"
  using assms
  by (auto simp: serve_def answer_def split: if_splits entry.splits option.splits prod.splits)

lemma top_route_login: "top_route m p = LoginPost \<Longrightarrow> m = ''POST'' \<and> p = [''login'']"
  by (auto simp: top_route_def split: if_splits)

lemma healthz_quiet: "healthz H s = (resp, s') \<Longrightarrow> quiet s s'"
  by (auto simp: healthz_def Ping_def quiet_def split: prod.splits option.splits dest!: sqlD)

lemma serve_mux_effect:
  assumes "serve_mux H lib D cfg inp r s = (x, s')"
  shows "outcome_effect cfg x s s'"
proof (cases "api_route (r_method r) (r_path r)")
  case None
  then show ?thesis using assms by (auto simp: serve_mux_def outcome_effect_def split: if_splits)
next
  case (Some p)
  then have "handle H lib D cfg inp (r\<lparr>r_id := snd p\<rparr>) (fst p) s = (x, s')"
    using assms by (simp add: serve_mux_def split: prod.splits)
  then show ?thesis by (rule handle_effect)
qed

lemma reserved_calm:
  assumes "calm s s1" and "reserved cfg c s1 s'"
  shows "pendingNames s' = insert (cr_name c) (pendingNames s) \<and> pendingPaths s' = insert (cr_img c) (pendingPaths s)
    \<and> cr_name c \<notin> pendingNames s \<and> cr_img c \<notin> pendingPaths s \<and> creation_ok cfg c
    \<and> unlockedAt s' = unlockedAt s \<and> db_calm (sdb s) (sdb s') \<and> no_new_session s s'"
  using assms no_new_session_trans [of s s1 s'] no_new_session_same [of s' s1] by (simp add: calm_def reserved_def)

text \<open>What one request may do to the reservations, the vault rows and the sessions.\<close>

definition request_effect :: "config \<Rightarrow> outcome \<Rightarrow> ('w, 'l) hstate \<Rightarrow> ('w, 'l) hstate \<Rightarrow> bool" where
  "request_effect cfg x s s' \<longleftrightarrow> db_calm (sdb s) (sdb s') \<and> unlockedAt s' = unlockedAt s \<and>
     (case x of
        Spawn _ c \<Rightarrow> cr_name c \<notin> pendingNames s \<and> cr_img c \<notin> pendingPaths s
          \<and> pendingNames s' = insert (cr_name c) (pendingNames s) \<and> pendingPaths s' = insert (cr_img c) (pendingPaths s)
          \<and> creation_ok cfg c
      | _ \<Rightarrow> pendingNames s' = pendingNames s \<and> pendingPaths s' = pendingPaths s)"

lemma request_effect_calm: "calm s s' \<Longrightarrow> (\<forall>resp c. x \<noteq> Spawn resp c) \<Longrightarrow> request_effect cfg x s s'"
  by (cases x) (simp_all add: request_effect_def calm_def)

lemma serve_effect:
  assumes "serve H lib D cfg inp r s = (x, s')"
  shows "request_effect cfg x s s' \<and> (no_new_session s s' \<or> is_login cfg D r inp)"
  using assms
proof (cases rule: serve_cases)
  case fixed
  then show ?thesis by (simp add: request_effect_def)
next
  case health
  have cs: "calm s s'" using calm_quiet [OF healthz_quiet [OF health(2)]] .
  have "request_effect cfg x s s'" by (rule request_effect_calm [OF cs]) (simp add: health(3))
  then show ?thesis using cs unfolding calm_def by blast
next
  case login
  note e = login_effect [OF login(3)]
  have "request_effect cfg x s s'" using e login(4) by (simp add: request_effect_def)
  moreover have "no_new_session s s' \<or> is_login cfg D r inp"
    using e top_route_login [OF login(1)] no_new_session_same by (auto simp: is_login_def)
  ultimately show ?thesis by blast
next
  case refused
  have cs: "calm s s'" using calm_auth [OF refused(1)] .
  have "request_effect cfg x s s'" by (rule request_effect_calm [OF cs]) (simp add: refused(2))
  then show ?thesis using cs unfolding calm_def by blast
next
  case (served s1)
  have c: "calm s s1" using calm_auth [OF served(2)] .
  have o: "outcome_effect cfg x s1 s'" using serve_mux_effect [OF served(3)] .
  show ?thesis
  proof (cases "\<exists>resp c2. x = Spawn resp c2")
    case True
    then obtain resp c2 where x: "x = Spawn resp c2" by blast
    then have "reserved cfg c2 s1 s'" using o by (simp add: outcome_effect_def)
    from reserved_calm [OF c this] show ?thesis unfolding x request_effect_def outcome.case by blast
  next
    case False
    then have "calm s1 s'" using o by (cases x) (simp_all add: outcome_effect_def)
    then have cs: "calm s s'" using c calm_trans by blast
    have "request_effect cfg x s s'" using request_effect_calm [OF cs] False by blast
    then show ?thesis using cs unfolding calm_def by blast
  qed
qed

end
