(* ===== verification/Reservations.thy ===== *)
theory Reservations
  imports HandlerEffects
begin

text \<open>
  The reservation protocol of \<open>internal/api/api.go\<close> over all runs of the server: the creation
  goroutines own exactly the pending names and image paths, no two of them share one, and no
  record appears for what a goroutine may still undo. Also: sessions come from logins only, and
  every creation can run to its end and release what it reserved.
\<close>

section \<open>Creation goroutines\<close>

lemma to_from_csys [simp]: "to_csys (from_csys c s) (chan c) = (c :: 'w csys)"
  by (simp add: to_csys_def from_csys_def)

lemma from_from_csys [simp]: "from_csys c2 (from_csys c1 s) = from_csys c2 s"
  by (simp add: from_csys_def)

lemma csys_simps [simp]:
  "sdb (to_csys s ch) = sdb s" "sdb (from_csys c s) = sdb c" "sevents (to_csys s ch) = sevents s"
  "sevents (from_csys c s) = sevents c" "chan (to_csys s ch) = ch"
  by (simp_all add: to_csys_def from_csys_def)

lemma keeps_from_csys [simp]: "keeps s (from_csys c s)"
  by (simp add: keeps_def from_csys_def)

lemma create_undo_sdb [simp]: "sdb (create_undo H name img mp f s) = sdb s"
  by (cases "f_undo f") (simp_all add: create_undo_def Let_def)

lemma create_finish_sdb [simp]: "sdb (create_finish H name img mp r s) = sdb s"
  by (simp add: create_finish_def split: sum.splits)

lemma create_commit_effect:
  assumes "create_commit H name img n mp s = (r, s')"
  shows "db_effect (\<lambda>v. v_name v = name \<and> v_path v = img \<and> v_mapper v = name \<and> v_mount v = mp) (sdb s) (sdb s')"
proof -
  obtain e s1 where c: "CreateVault H name img n mp name s = (e, s1)" by fastforce
  have "s' = s1" using assms c by (auto simp: create_commit_def split: sum.splits)
  moreover have "db_effect (\<lambda>v. v_name v = name \<and> v_path v = img \<and> v_mapper v = name \<and> v_mount v = mp) (sdb s) (sdb s1)"
    by (rule db_effect_create [OF c]) (simp add: new_vault_row_def)
  ultimately show ?thesis by simp
qed

lemma mark_created_effect: "keeps s (mark_created H n s) \<and> sdb (mark_created H n s) = sdb s"
proof -
  obtain r s1 where g: "GetVaultByName H n s = (r, s1)" by fastforce
  have k: "keeps s s1" "sdb s1 = sdb s" using keeps_db(3) [OF g] GetVaultByNameD [OF g] by simp_all
  have "mark_created H n s = (case r of Inl _ \<Rightarrow> s1 | Inr v \<Rightarrow> if IsUnlocked H v s1 then markUnlocked H (v_id v) s1 else s1)"
    by (simp add: mark_created_def g)
  then show ?thesis using k keeps_trans [OF k(1) keeps_mark(1)] by (cases r) simp_all
qed

definition creates :: "creation \<Rightarrow> vault \<Rightarrow> bool" where
  "creates c v \<longleftrightarrow> v_name v = cr_name c \<and> v_path v = image_path (cr_path c) (cr_name c)
     \<and> v_mapper v = cr_name c \<and> v_mount v = cr_mount c"

text \<open>What a step of a goroutine does to the tables.\<close>

lemma job_step_effect:
  assumes "job_step H j s = (j', s')"
  shows "db_effect (creates (j_creation j)) (sdb s) (sdb s') \<and>
    (case j' of
       Some k \<Rightarrow> j_creation k = j_creation j \<and> keeps s s'
     | None \<Rightarrow> j_phase j = Marked \<and> s' = releasePending (cr_name (j_creation j)) (cr_img (j_creation j)) s)"
proof (cases "j_phase j")
  case Started
  then show ?thesis using assms
    by (auto simp: job_step_def on_channel_def Let_def split: prod.splits dest!: create_prepareD)
next
  case (Prepared f)
  then show ?thesis
  proof (cases f)
    case None
    let ?c = "j_creation j"
    obtain r k where c: "create_commit H (cr_name ?c) (image_path (cr_path ?c) (cr_name ?c)) (cr_size ?c)
        (cr_mount ?c) (to_csys s (j_chan j)) = (r, k)" by fastforce
    have "s' = from_csys k s" "j' = Some (j\<lparr>j_phase := Committed r, j_chan := chan k\<rparr>)"
      using assms Prepared None c by (auto simp: job_step_def on_channel_def Let_def)
    moreover have "db_effect (creates ?c) (sdb s) (sdb k)"
      using create_commit_effect [OF c] unfolding creates_def by simp
    ultimately show ?thesis by simp
  qed (use assms Prepared in \<open>auto simp: job_step_def Let_def\<close>)
next
  case (Committed r)
  then show ?thesis using assms by (auto simp: job_step_def on_channel_def Let_def)
next
  case Finished
  then show ?thesis using assms mark_created_effect [of s H "cr_name (j_creation j)"] by (auto simp: job_step_def Let_def)
next
  case Marked
  then show ?thesis using assms by (auto simp: job_step_def Let_def releasePending_def)
qed

text \<open>The stages of a goroutine, run back to back, are the goroutine of the source.\<close>

definition run_stage :: "'w host \<Rightarrow> job option \<times> ('w, 'l) hstate \<Rightarrow> job option \<times> ('w, 'l) hstate" where
  "run_stage H p = (case p of (None, s) \<Rightarrow> (None, s) | (Some j, s) \<Rightarrow> job_step H j s)"

definition spawned :: "creation \<Rightarrow> job" where
  "spawned c = \<lparr>j_creation = c, j_phase = Started, j_chan = []\<rparr>"

lemma stages_run:
  "(run_stage H ^^ 5) (Some (spawned c), s) = (None, snd (create_goroutine H c s))"
proof -
  let ?img = "image_path (cr_path c) (cr_name c)"
  obtain f k1 where p: "create_prepare H (cr_name c) (cr_path c) ?img (cr_size c) (cr_password c) (cr_mount c) (to_csys s []) = (f, k1)"
    by fastforce
  have five: "(5::nat) = Suc (Suc (Suc (Suc (Suc 0))))" by simp
  show ?thesis
  proof (cases f)
    case (Some e)
    then show ?thesis using p
      by (simp add: five run_stage_def job_step_def on_channel_def spawned_def create_goroutine_def Create_def
          create_outcome_def Let_def)
  next
    case None
    obtain r k2 where c: "create_commit H (cr_name c) ?img (cr_size c) (cr_mount c) k1 = (r, k2)" by fastforce
    show ?thesis using p None c
      by (simp add: five run_stage_def job_step_def on_channel_def spawned_def create_goroutine_def Create_def
          create_outcome_def Let_def)
  qed
qed

section \<open>The reservation invariant\<close>

definition job_name :: "job \<Rightarrow> string" where "job_name j = cr_name (j_creation j)"
definition job_img :: "job \<Rightarrow> string" where "job_img j = cr_img (j_creation j)"

definition job_ok :: "config \<Rightarrow> job \<Rightarrow> bool" where
  "job_ok cfg j \<longleftrightarrow> creation_ok cfg (j_creation j)"

definition reservations_ok :: "config \<Rightarrow> ('w, 'l) server \<Rightarrow> bool" where
  "reservations_ok cfg \<sigma> \<longleftrightarrow>
     distinct (map job_name (running \<sigma>)) \<and> distinct (map job_img (running \<sigma>))
     \<and> pendingNames (st \<sigma>) = set (map job_name (running \<sigma>))
     \<and> pendingPaths (st \<sigma>) = set (map job_img (running \<sigma>))
     \<and> list_all (job_ok cfg) (running \<sigma>) \<and> db_ok (sdb (st \<sigma>))"

lemma reservations_ok_keeps:
  assumes "reservations_ok cfg \<sigma>" and "running \<sigma>' = running \<sigma>"
    and "pendingNames (st \<sigma>') = pendingNames (st \<sigma>)" "pendingPaths (st \<sigma>') = pendingPaths (st \<sigma>)"
    and "db_ok (sdb (st \<sigma>))  \<Longrightarrow> db_ok (sdb (st \<sigma>'))"
  shows "reservations_ok cfg \<sigma>'"
  using assms by (simp add: reservations_ok_def)

lemma remove1_distinct_map:
  assumes "distinct (map f xs)" and "x \<in> set xs"
  shows "distinct (map f (remove1 x xs))" and "set (map f (remove1 x xs)) = set (map f xs) - {f x}"
proof -
  have d: "distinct xs" using assms(1) by (simp add: distinct_map)
  then have r: "remove1 x xs = filter (\<lambda>y. y \<noteq> x) xs"
    by (simp add: distinct_remove1_removeAll removeAll_filter_not_eq eq_commute [of x])
  show "distinct (map f (remove1 x xs))" using assms(1) by (simp add: r distinct_map_filter)
  have inj: "inj_on f (set xs)" using assms(1) by (simp add: distinct_map)
  show "set (map f (remove1 x xs)) = set (map f xs) - {f x}"
    using inj assms(2) by (auto simp: r inj_on_def)
qed

text \<open>One goroutine moves to its next stage, or releases and ends.\<close>

lemma advance_Some:
  assumes "distinct (map f xs)" and "x \<in> set xs" and "f y = f x"
  shows "distinct (map f (advance x (Some y) xs))" and "set (map f (advance x (Some y) xs)) = set (map f xs)"
  using remove1_distinct_map [OF assms(1,2)] assms(2,3) by (auto simp: advance_def)

lemma list_all_remove1: "list_all P xs \<Longrightarrow> list_all P (remove1 x xs)"
  by (meson list_all_iff notin_set_remove1)

lemma reservations_ok_goroutine:
  assumes inv: "reservations_ok cfg \<sigma>" and j: "j \<in> set (running \<sigma>)" and s: "job_step H j (st \<sigma>) = (j', s')"
  shows "reservations_ok cfg (\<sigma>\<lparr>st := s', running := advance j j' (running \<sigma>)\<rparr>)"
proof -
  note e = job_step_effect [OF s]
  have dn: "distinct (map job_name (running \<sigma>))" and di: "distinct (map job_img (running \<sigma>))"
    and pn: "pendingNames (st \<sigma>) = set (map job_name (running \<sigma>))"
    and pp: "pendingPaths (st \<sigma>) = set (map job_img (running \<sigma>))"
    and ok: "list_all (job_ok cfg) (running \<sigma>)" and db: "db_ok (sdb (st \<sigma>))"
    using inv by (simp_all add: reservations_ok_def)
  have db': "db_ok (sdb s')" using e db by (simp add: db_effect_def)
  show ?thesis
  proof (cases j')
    case None
    then have "s' = releasePending (job_name j) (job_img j) (st \<sigma>)" using e by (simp add: job_name_def job_img_def)
    then show ?thesis
      using remove1_distinct_map [OF dn j] remove1_distinct_map [OF di j] None db' pn pp list_all_remove1 [OF ok]
      by (simp add: reservations_ok_def advance_def releasePending_def)
  next
    case (Some k)
    then have k: "j_creation k = j_creation j" "keeps (st \<sigma>) s'" using e by simp_all
    then have n: "job_name k = job_name j" "job_img k = job_img j" "job_ok cfg k = job_ok cfg j"
      by (simp_all add: job_name_def job_img_def job_ok_def)
    have "list_all (job_ok cfg) (advance j (Some k) (running \<sigma>))"
      using list_all_remove1 [OF ok] ok j n by (simp add: advance_def list_all_iff)
    then show ?thesis
      using advance_Some [OF dn j n(1)] advance_Some [OF di j n(2)] k(2) db' pn pp Some
      unfolding reservations_ok_def keeps_def by simp
  qed
qed

lemma reservations_ok_request:
  assumes inv: "reservations_ok cfg \<sigma>" and s: "serve H lib D cfg inp r (st \<sigma>) = (x, s')"
  shows "reservations_ok cfg (arrived x s' \<sigma>)"
proof -
  have e: "request_effect cfg x (st \<sigma>) s'" using serve_effect [OF s] by blast
  show ?thesis
  proof (cases x)
    case (Spawn resp c)
    then show ?thesis using e inv
      by (auto simp: reservations_ok_def request_effect_def arrived_def db_calm_def job_name_def job_img_def job_ok_def)
  qed (use e inv in \<open>auto simp: reservations_ok_def request_effect_def arrived_def db_calm_def\<close>)
qed

lemma autoLock_read_effect: "autoLock_read H i s = (r, s') \<Longrightarrow> keeps s s' \<and> sdb s' = sdb s"
proof -
  assume a: "autoLock_read H i s = (r, s')"
  obtain g s1 where g: "GetVault H i s = (g, s1)" by fastforce
  have k: "keeps s s1" "sdb s1 = sdb s" using keeps_db(1) [OF g] GetVaultD [OF g] by simp_all
  show ?thesis using a k keeps_trans [OF k(1) keeps_mark(2)]
    by (cases g) (auto simp: autoLock_read_def g Let_def)
qed

lemma keeps_mark_each: "keeps s (mark_each H vs s)"
  by (simp add: keeps_def)

lemma startup_effect: "keeps s (autoLockStartup H s) \<and> sdb (autoLockStartup H s) = sdb s"
proof -
  obtain r s1 where l: "ListVaults H s = (r, s1)" by fastforce
  have k: "keeps s s1" "sdb s1 = sdb s" using keeps_db(2) [OF l] ListVaultsD [OF l] by simp_all
  show ?thesis using k keeps_trans [OF k(1) keeps_mark_each] by (cases r) (simp_all add: autoLockStartup_def l)
qed

text \<open>Every step keeps the invariant.\<close>

lemma reservations_ok_step:
  assumes inv: "reservations_ok cfg \<sigma>" and s: "step H lib D cfg l \<sigma> \<sigma>'"
  shows "reservations_ok cfg \<sigma>'"
  using s
proof cases
  case (Request inp r x s')
  then show ?thesis using reservations_ok_request [OF inv] by simp
next
  case (Locked p resp s')
  note e = perform_effect [OF Locked(4)]
  show ?thesis
    by (rule reservations_ok_keeps [OF inv]) (use e Locked(2) in \<open>simp_all add: keeps_def db_effect_def\<close>)
next
  case (Goroutine j j' s')
  then show ?thesis using reservations_ok_goroutine [OF inv Goroutine(3,4)] by simp
next
  case (AutoLockGone i rest s')
  note e = autoLock_read_effect [OF AutoLockGone(5)]
  show ?thesis
    by (rule reservations_ok_keeps [OF inv]) (use e AutoLockGone(2) in \<open>simp_all add: keeps_def\<close>)
next
  case (AutoLockFound i rest since v s')
  note e = autoLock_read_effect [OF AutoLockFound(5)]
  show ?thesis
    by (rule reservations_ok_keeps [OF inv]) (use e AutoLockFound(2) in \<open>simp_all add: keeps_def\<close>)
next
  case (AutoLockTry i since v dropped s')
  note e = autoLock_locked_effect [OF AutoLockTry(4)]
  show ?thesis
    by (rule reservations_ok_keeps [OF inv]) (use e AutoLockTry(2) in \<open>simp_all add: keeps_def\<close>)
next
  case StartupScan
  show ?thesis
    by (rule reservations_ok_keeps [OF inv]) (use startup_effect [of "st \<sigma>" H] StartupScan(2) in \<open>simp_all add: keeps_def\<close>)
qed (rule reservations_ok_keeps [OF inv], simp_all add: cleanupSessions_def cleanupJobs_def cleanupLimiters_def)+

lemma reservations_ok_starts: "starts \<sigma> \<Longrightarrow> reservations_ok cfg \<sigma>"
  by (simp add: starts_def reservations_ok_def)

interpretation reservations: invariant_of starts "step H lib D cfg" "reservations_ok cfg"
  by unfold_locales (fact reservations_ok_starts, fact reservations_ok_step)

section \<open>What a step adds to the records\<close>

lemma fresh_rows_step:
  assumes s: "step H lib D cfg l \<sigma> \<sigma>'" and v: "v \<in> fresh_rows (sdb (st \<sigma>)) (sdb (st \<sigma>'))"
  shows "(\<exists>q. l = Locked (OpImport q) \<and> adopts (st \<sigma>) q v)
    \<or> (\<exists>j \<in> set (running \<sigma>). l = Goroutine j \<and> creates (j_creation j) v)"
  using s
proof cases
  case (Request inp r x s')
  have "fresh_rows (sdb (st \<sigma>)) (sdb s') = {}"
    using serve_effect [OF Request(3)] db_calm_fresh by (simp add: request_effect_def)
  moreover have "st \<sigma>' = s'" using Request(2) by (cases x) (simp_all add: arrived_def)
  ultimately show ?thesis using v by simp
next
  case (Locked p resp s')
  then show ?thesis using perform_effect [OF Locked(4)] v fresh_rows_change by (auto simp: db_effect_def)
next
  case (Goroutine j j' s')
  then show ?thesis using job_step_effect [OF Goroutine(4)] v fresh_rows_change by (auto simp: db_effect_def)
next
  case (AutoLockGone i rest s')
  then show ?thesis using autoLock_read_effect [OF AutoLockGone(5)] v by simp
next
  case (AutoLockFound i rest since w s')
  then show ?thesis using autoLock_read_effect [OF AutoLockFound(5)] v by simp
next
  case (AutoLockTry i since w dropped s')
  then show ?thesis using autoLock_locked_effect [OF AutoLockTry(4)] v by simp
next
  case StartupScan
  then show ?thesis using startup_effect [of "st \<sigma>" H] v by simp
qed (use v in \<open>simp_all add: cleanupSessions_def cleanupJobs_def cleanupLimiters_def\<close>)

section \<open>What a step does to the sessions\<close>

lemma sessions_step:
  assumes s: "step H lib D cfg l \<sigma> \<sigma>'"
  shows "no_new_session (st \<sigma>) (st \<sigma>') \<or> (\<exists>r inp. l = Request r inp \<and> is_login cfg D r inp)"
  using s
proof cases
  case (Request inp r x s')
  have "st \<sigma>' = s'" using Request(2) by (cases x) (simp_all add: arrived_def)
  then show ?thesis using serve_effect [OF Request(3)] Request(1) by blast
next
  case (Locked p resp s')
  then show ?thesis using perform_effect [OF Locked(4)] by (simp add: keeps_def no_new_session_def)
next
  case (Goroutine j j' s')
  have "sessions s' = sessions (st \<sigma>)"
    using job_step_effect [OF Goroutine(4)] by (cases j') (simp_all add: keeps_def releasePending_def)
  then show ?thesis using Goroutine(2) by (simp add: no_new_session_def)
next
  case (AutoLockGone i rest s')
  then show ?thesis using autoLock_read_effect [OF AutoLockGone(5)] by (simp add: keeps_def no_new_session_def)
next
  case (AutoLockFound i rest since w s')
  then show ?thesis using autoLock_read_effect [OF AutoLockFound(5)] by (simp add: keeps_def no_new_session_def)
next
  case (AutoLockTry i since v dropped s')
  then show ?thesis using autoLock_locked_effect [OF AutoLockTry(4)] by (simp add: keeps_def no_new_session_def)
next
  case StartupScan
  then show ?thesis using startup_effect [of "st \<sigma>" H] by (simp add: keeps_def no_new_session_def)
next
  case CleanSessions
  then show ?thesis by (auto simp: no_new_session_def cleanupSessions_def session_table.sweep_Some)
qed (simp_all add: no_new_session_def cleanupJobs_def cleanupLimiters_def)

section \<open>Every creation can end\<close>

definition stages_left :: "job \<Rightarrow> nat" where
  "stages_left j = (case j_phase j of Started \<Rightarrow> 4 | Prepared _ \<Rightarrow> 3 | Committed _ \<Rightarrow> 2 | Finished \<Rightarrow> 1 | Marked \<Rightarrow> 0)"

lemma job_step_progress:
  "job_step H j s = (Some k, s') \<Longrightarrow> stages_left k < stages_left j"
  by (auto simp: job_step_def Let_def stages_left_def on_channel_def
      split: phase.splits option.splits prod.splits)

definition goroutine_steps :: "'w host \<Rightarrow> 'l lib \<Rightarrow> decoders \<Rightarrow> config \<Rightarrow> ('w, 'l) server \<Rightarrow> ('w, 'l) server \<Rightarrow> bool" where
  "goroutine_steps H lib D cfg = (\<lambda>\<sigma> \<sigma>'. \<exists>j. step H lib D cfg (Goroutine j) \<sigma> \<sigma>')\<^sup>*\<^sup>*"

lemma creation_ends:
  "j \<in> set (running \<sigma>) \<Longrightarrow>
     \<exists>\<sigma>'. goroutine_steps H lib D cfg \<sigma> \<sigma>' \<and> job_name j \<notin> pendingNames (st \<sigma>') \<and> job_img j \<notin> pendingPaths (st \<sigma>')"
proof (induction "stages_left j" arbitrary: j \<sigma> rule: less_induct)
  case less
  obtain j' s' where s: "job_step H j (st \<sigma>) = (j', s')" by fastforce
  let ?\<sigma>1 = "\<sigma>\<lparr>st := s', running := advance j j' (running \<sigma>)\<rparr>"
  have st1: "step H lib D cfg (Goroutine j) \<sigma> ?\<sigma>1" using less.prems s by (rule step.Goroutine)
  show ?case
  proof (cases j')
    case None
    then have "s' = releasePending (job_name j) (job_img j) (st \<sigma>)"
      using job_step_effect [OF s] by (simp add: job_name_def job_img_def)
    then have "job_name j \<notin> pendingNames (st ?\<sigma>1) \<and> job_img j \<notin> pendingPaths (st ?\<sigma>1)"
      by (simp add: releasePending_def)
    then show ?thesis using st1 unfolding goroutine_steps_def by blast
  next
    case (Some k)
    have k: "job_name k = job_name j" "job_img k = job_img j"
      using job_step_effect [OF s] Some by (simp_all add: job_name_def job_img_def)
    have "k \<in> set (running ?\<sigma>1)" using Some by (simp add: advance_def)
    then obtain \<sigma>' where "goroutine_steps H lib D cfg ?\<sigma>1 \<sigma>'" "job_name k \<notin> pendingNames (st \<sigma>')" "job_img k \<notin> pendingPaths (st \<sigma>')"
      using less.hyps [OF job_step_progress [OF s [unfolded Some]]] by blast
    then show ?thesis using st1 k unfolding goroutine_steps_def by (metis (mono_tags, lifting) converse_rtranclp_into_rtranclp)
  qed
qed

end
