(* ===== verification/CreateView.thy ===== *)
theory CreateView
  imports VaultOps
begin

text \<open>
  The creation pipeline looks the same to an observer of the process table whatever the
  passphrase is: the congruence lemmas of \<open>VaultOps\<close> carried through the stages of \<open>Create\<close>.
\<close>

lemma same_run_c:
  assumes "stdin_blind H" "same_view s t"
  shows "same_result (run H c s) (run H c t)"
  using same_run [OF assms, of "bounded c" "argv c" "stdin c" "stdin c"] by simp

lemma same_view_chan: "same_view s t \<Longrightarrow> chan (s :: 'w csys) = chan t"
  by (cases s; cases t) (auto simp: same_view_def)

lemma same_view_csys:
  "same_view (s :: 'w csys) t \<longleftrightarrow> sworld s = sworld t \<and> sdb s = sdb t \<and> chan s = chan t
     \<and> map visible (sevents s) = map visible (sevents t)"
  by (cases s; cases t) (auto simp: same_view_def)

lemma same_send: "same_view s t \<Longrightarrow> same_view (send H st msg pct s) (send H st msg pct t)"
  by (auto simp: same_view_csys send_def split: prod.splits)

lemma same_sendTerminal: "same_view s t \<Longrightarrow> same_view (sendTerminal H ev s) (sendTerminal H ev t)"
  by (auto simp: same_view_csys sendTerminal_def split: prod.splits)

lemma same_emit: "same_view s t \<Longrightarrow> same_view (emit e s) (emit e t)"
  by (simp add: same_view_def)

lemma same_fail: "same_view s t \<Longrightarrow> same_view (fail H c e s) (fail H c e t)"
  unfolding fail_def by (intro same_sendTerminal same_emit)

lemma same_sql: "same_view s t \<Longrightarrow> same_result (sql H c s) (sql H c t)"
  by (auto simp: same_result_def same_view_def sql_def split: prod.splits)

lemma same_CreateVault:
  assumes st: "same_view s t"
  shows "same_result (CreateVault H n p z m k s) (CreateVault H n p z m k t)"
proof -
  obtain r1 s1 t1 where 1: "sql H ExecInsertVault s = (r1, s1)" "sql H ExecInsertVault t = (r1, t1)"
      "same_view s1 t1"
    by (rule same_resultE [OF same_sql [OF st]])
  have eq: "sdb t1 = sdb s1" "sworld t1 = sworld s1" using 1(3) by (simp_all add: same_view_def)
  have "same_view (s1\<lparr>sdb := d\<rparr>) (t1\<lparr>sdb := d\<rparr>)" for d using 1(3) by (simp add: same_view_def)
  note 2 = same_sql [OF this, of H LastInsertId]
  show ?thesis
  proof (cases "insert_vault (h_timestamp H (sworld s1)) n p z m k (sdb s1)")
    case (Inl e)
    then show ?thesis using 1 eq by (auto simp: CreateVault_def same_result_def split: option.splits)
  next
    case (Inr x)
    obtain i d where x: "x = (i, d)" by fastforce
    obtain r2 s2 t2 where "sql H LastInsertId (s1\<lparr>sdb := d\<rparr>) = (r2, s2)"
        "sql H LastInsertId (t1\<lparr>sdb := d\<rparr>) = (r2, t2)" "same_view s2 t2"
      by (rule same_resultE [OF 2])
    then show ?thesis using 1 eq Inr x by (auto simp: CreateVault_def same_result_def split: option.splits)
  qed
qed

lemma same_create_mount:
  assumes H: "stdin_blind H" and st: "same_view s t"
  shows "same_result (create_mount H n mp s) (create_mount H n mp t)"
proof -
  obtain r1 s1 t1 where 1: "run H (mkfs_cmd n) (send H ''formatting'' ''Formatting ext4 filesystem...'' 85 s) = (r1, s1)"
      "run H (mkfs_cmd n) (send H ''formatting'' ''Formatting ext4 filesystem...'' 85 t) = (r1, t1)" "same_view s1 t1"
    by (rule same_resultE [OF same_run_c [OF H same_send [OF st]]])
  obtain r2 s2 t2 where 2: "mkdir_all H mp (send H ''mounting'' ''Mounting filesystem...'' 95 s1) = (r2, s2)"
      "mkdir_all H mp (send H ''mounting'' ''Mounting filesystem...'' 95 t1) = (r2, t2)" "same_view s2 t2"
    by (rule same_resultE [OF same_other(2) [OF same_send [OF 1(3)]]])
  obtain r3 s3 t3 where 3: "run H (mount_cmd True n mp) s2 = (r3, s3)" "run H (mount_cmd True n mp) t2 = (r3, t3)"
      "same_view s3 t3"
    by (rule same_resultE [OF same_run_c [OF H 2(3)]])
  obtain r4 s4 t4 where 4: "chmod H mp 0x1FF s3 = (r4, s4)" "chmod H mp 0x1FF t3 = (r4, t4)" "same_view s4 t4"
    by (rule same_resultE [OF same_other(3) [OF 3(3)]])
  show ?thesis
    using 1 2 3 4 by (cases r1; cases r3) (auto simp: create_mount_def same_result_def split: option.splits)
qed

lemma same_undo:
  assumes H: "stdin_blind H" and st: "same_view s t"
  shows "same_view (create_undo H n img mp f s) (create_undo H n img mp f t)"
  using st unfolding create_undo_def Let_def
  by (auto intro!: same_snd [OF same_other(1)] same_fail same_snd [OF same_run_c] H)

lemma same_finish:
  assumes H: "stdin_blind H" and st: "same_view s t"
  shows "same_view (create_finish H n img mp r s) (create_finish H n img mp r t)"
  using st by (cases r) (simp_all add: create_finish_def same_undo [OF H] same_sendTerminal)

lemma same_create_luks:
  assumes H: "stdin_blind H"
  shows "same_result (create_luks H n img z pw s) (create_luks H n img z pw' s)"
proof -
  obtain r0 s0 where 0: "allocateFile H img z
      (send H ''creating'' (''Allocating '' @ itoa z @ '' GB container file...'') 0 s) = (r0, s0)" by fastforce
  have v: "same_view a a" for a :: "('a, 'b) sys_scheme" by (simp add: same_view_def)
  obtain r1 s1 t1 where 1: "run H (luksFormat_cmd img pw) (send H ''encrypting'' ''Encrypting vault with LUKS...'' 62 s0) = (r1, s1)"
      "run H (luksFormat_cmd img pw') (send H ''encrypting'' ''Encrypting vault with LUKS...'' 62 s0) = (r1, t1)" "same_view s1 t1"
    unfolding luksFormat_cmd_def by (rule same_resultE [OF same_run [OF H v]])
  obtain r2 s2 t2 where 2: "run H (luksOpen_cmd img n pw) (send H ''opening'' ''Opening LUKS device...'' 75 s1) = (r2, s2)"
      "run H (luksOpen_cmd img n pw') (send H ''opening'' ''Opening LUKS device...'' 75 t1) = (r2, t2)" "same_view s2 t2"
    unfolding luksOpen_cmd_def by (rule same_resultE [OF same_run [OF H same_send [OF 1(3)]]])
  show ?thesis
    using 0 1 2 v by (cases r1; cases r2) (auto simp: create_luks_def same_result_def split: option.splits)
qed

lemma same_create_commit:
  assumes st: "same_view s t"
  shows "same_result (create_commit H n img z mp s) (create_commit H n img z mp t)"
proof -
  obtain r s1 t1 where "CreateVault H n img z mp n s = (r, s1)" "CreateVault H n img z mp n t = (r, t1)"
      "same_view s1 t1"
    by (rule same_resultE [OF same_CreateVault [OF st]])
  then show ?thesis by (auto simp: create_commit_def same_result_def split: sum.splits)
qed

lemma same_create_outcome:
  assumes H: "stdin_blind H"
  shows "same_result (create_outcome H n p z pw mp s) (create_outcome H n p z pw' mp s)"
proof -
  let ?img = "image_path p n"
  have v: "same_view a a" for a :: "('a, 'b) sys_scheme" by (simp add: same_view_def)
  obtain r1 s1 where 1: "create_preflight H n p ?img z s = (r1, s1)" by fastforce
  obtain r2 s2 t2 where 2: "create_luks H n ?img z pw s1 = (r2, s2)" "create_luks H n ?img z pw' s1 = (r2, t2)"
      "same_view s2 t2"
    by (rule same_resultE [OF same_create_luks [OF H]])
  obtain r3 s3 t3 where 3: "create_mount H n mp s2 = (r3, s3)" "create_mount H n mp t2 = (r3, t3)" "same_view s3 t3"
    by (rule same_resultE [OF same_create_mount [OF H 2(3)]])
  show ?thesis
    using 1 2 3 v same_create_commit [OF 3(3), of H n ?img z mp]
    by (cases r1; cases r2; cases r3) (auto simp: create_outcome_def create_prepare_def same_result_def)
qed

lemma same_Create:
  assumes H: "stdin_blind H"
  shows "same_view (Create H n p z pw mp s) (Create H n p z pw' mp s)"
proof -
  obtain r s1 t1 where "create_outcome H n p z pw mp s = (r, s1)" "create_outcome H n p z pw' mp s = (r, t1)"
      "same_view s1 t1"
    by (rule same_resultE [OF same_create_outcome [OF H]])
  then show ?thesis by (simp add: Create_def same_finish [OF H])
qed

end
