(* ===== verification/SimHost.thy ===== *)
theory SimHost
  imports Mounts
begin

text \<open>
  A small executable host: files with sizes, open mapper devices, a mount table, a passphrase
  that opens every image, a list of program names that fail, and fixed answers for the rest.
  Theorems about every host are instantiated with it to show that their hypotheses can hold; no
  definition of the model uses it.
\<close>

record sim =
  sm_files :: "(string \<times> int) list"
  sm_maps :: "string list"
  sm_mounts :: "mount_entry list"
  sm_clock :: int
  sm_pass :: string
  sm_broken :: "string list"
  sm_output :: "string list \<Rightarrow> string"

definition sim_entry :: "string \<Rightarrow> string \<Rightarrow> mount_entry" where
  "sim_entry dev mp = \<lparr>m_dev = dev, m_dir = mp, m_type = ''ext4'', m_opts = ''rw''\<rparr>"

text \<open>The effect of a program that succeeds.\<close>

definition sim_effect :: "string list \<Rightarrow> sim \<Rightarrow> sim" where
  "sim_effect a w =
     (if take 2 a = [''cryptsetup'', ''luksOpen''] then w\<lparr>sm_maps := mapper_path (last a) # sm_maps w\<rparr>
      else if take 2 a = [''cryptsetup'', ''luksClose'']
      then w\<lparr>sm_maps := filter (\<lambda>m. m \<noteq> mapper_path (last a)) (sm_maps w)\<rparr>
      else if take 1 a = [''mount''] then w\<lparr>sm_mounts := sim_entry (a ! 1) (last a) # sm_mounts w\<rparr>
      else if take 1 a = [''umount''] then w\<lparr>sm_mounts := filter (\<lambda>e. m_dir e \<noteq> last a) (sm_mounts w)\<rparr>
      else if take 1 a = [''fallocate''] then w\<lparr>sm_files := (last a, 0) # sm_files w\<rparr>
      else w)"

text \<open>A program named in \<open>sm_broken\<close> fails, and \<open>luksOpen\<close> fails on a wrong passphrase.\<close>

definition sim_fails :: "cmd \<Rightarrow> sim \<Rightarrow> bool" where
  "sim_fails c w \<longleftrightarrow> list_ex (\<lambda>x. x \<in> set (argv c)) (sm_broken w)
     \<or> take 2 (argv c) = [''cryptsetup'', ''luksOpen''] \<and> stdin c \<noteq> sm_pass w"

definition sim_run :: "cmd \<Rightarrow> sim \<Rightarrow> (string \<times> string option) \<times> sim" where
  "sim_run c w = (if sim_fails c w then ((''failed'', Some ''exit status 1''), w)
                  else ((sm_output w (argv c), None), sim_effect (argv c) w))"

definition sim_stat :: "string \<Rightarrow> sim \<Rightarrow> os_error + int" where
  "sim_stat p w = (case map_of (sm_files w) p of
     Some n \<Rightarrow> Inr n
   | None \<Rightarrow> if p \<in> set (sm_maps w) then Inr 0 else Inl (NotExist ''no such file or directory''))"

definition sim_host :: "sim host" where
  "sim_host = \<lparr>
     h_stat = sim_stat,
     h_mounts = (\<lambda>w. render_mounts (sm_mounts w)),
     h_statfs = (\<lambda>_ _. Inr \<lparr>f_bsize = 4096, f_blocks = 1000000000, f_bfree = 900000000, f_bavail = 800000000\<rparr>),
     h_symlinks = (\<lambda>p _. Some p),
     h_now = sm_clock,
     h_timestamp = (\<lambda>_. ''2024-01-01 00:00:00''),
     h_run = sim_run,
     h_dd = (\<lambda>_ w. (Inr ([], Exited None), w)),
     h_mkdir = (\<lambda>_ w. (None, w)),
     h_remove = (\<lambda>p w. (None, w\<lparr>sm_files := filter (\<lambda>f. fst f \<noteq> p) (sm_files w)\<rparr>)),
     h_chmod = (\<lambda>_ _ w. (None, w)),
     h_temp = (\<lambda>w. (Inr ''/tmp/key'', w)),
     h_write = (\<lambda>_ _ w. (None, w)),
     h_close = (\<lambda>_ w. (None, w)),
     h_rand = (\<lambda>n w. (Some (replicate n CHR ''r''), w)),
     h_sql = (\<lambda>_ w. (None, w)),
     h_send = (\<lambda>w. (True, w)),
     h_deliver = (\<lambda>w. (True, w))\<rparr>"

text \<open>A host with a loop driver, a vault image and nothing open.\<close>

definition sim0 :: sim where
  "sim0 = \<lparr>sm_files = [(''/dev/loop-control'', 0), (''/vaults/a.img'', 1073741824)], sm_maps = [], sm_mounts = [],
     sm_clock = 0, sm_pass = ''correct horse'', sm_broken = [], sm_output = (\<lambda>_. [])\<rparr>"

definition sim_vault :: vault where
  "sim_vault = \<lparr>v_id = 1, v_name = ''a'', v_path = ''/vaults/a.img'', v_size = 1, v_mount = ''/mnt/a'',
     v_mapper = ''a'', v_created = ''2024-01-01 00:00:00''\<rparr>"

definition sim_db :: db_state where
  "sim_db = \<lparr>vaults = [sim_vault], vault_seq = 1, tokens = [], token_seq = 0\<rparr>"

definition sim_state :: "sim \<Rightarrow> sim sys" where
  "sim_state w = \<lparr>sworld = w, sevents = [], sdb = sim_db\<rparr>"

lemmas sim_defs = sim_host_def sim_run_def sim_fails_def sim_effect_def sim_stat_def sim0_def sim_vault_def
  sim_db_def sim_state_def

end
