(* ===== verification/VaultCorrect.thy ===== *)
theory VaultCorrect
  imports CreateView LuksDump SimHost
begin

text \<open>
  The properties of \<open>internal/vault\<close>: resource balance and order of the operations, what their
  failures undo, the parsing of the mount table and of LUKS headers, keyslot safety, sizes, and
  the confinement of credentials. Witnesses run on the executable host of \<open>SimHost\<close>.
\<close>

section \<open>The part of a log that a call adds\<close>

definition log_since :: "('w, 'z) sys_scheme \<Rightarrow> ('w, 'z) sys_scheme \<Rightarrow> event list" where
  "log_since s s' = drop (length (sevents s)) (sevents s')"

lemma log_since_eq: "sevents s' = sevents s @ es \<Longrightarrow> log_since s s' = es"
  by (simp add: log_since_def)

definition sim_csys :: "sim \<Rightarrow> sim csys" where
  "sim_csys w = \<lparr>sworld = w, sevents = [], sdb = sim_db, chan = []\<rparr>"

lemma sim_csys_db: "sdb (sim_csys w) = sim_db"
  by (simp add: sim_csys_def)

section \<open>Creation\<close>

definition create_ok :: "'w host \<Rightarrow> string \<Rightarrow> string \<Rightarrow> int \<Rightarrow> string \<Rightarrow> string \<Rightarrow> 'w csys \<Rightarrow> bool" where
  "create_ok H name path n pw mp s = is_ok (fst (create_outcome H name path n pw mp s))"

lemma create_finish_log:
  assumes "mp \<noteq> img"
  shows "\<exists>es. sevents (create_finish H name img mp r s) = sevents s @ es
    \<and> (case r of Inl f \<Rightarrow> holds img (undo_stack (f_undo f)) es = Some [] | Inr v \<Rightarrow> es = [])"
  using create_undoD [OF assms, of H name _ s] by (cases r) (auto simp: create_finish_def)

text \<open>
  C1: A creation releases everything it acquired when it fails, in reverse order of acquisition,
  and holds exactly the image, the mapper device and the mount when it succeeds. (The mount point
  must not be the image itself.)
\<close>
theorem create_balanced:
  assumes "mp \<noteq> image_path path name"
  shows "holds (image_path path name) [] (log_since s (Create H name path n pw mp s)) =
    Some (if create_ok H name path n pw mp s then [Filesystem, Device, Image] else [])"
proof -
  let ?img = "image_path path name"
  obtain r s1 where o: "create_outcome H name path n pw mp s = (r, s1)" by fastforce
  obtain es where es: "sevents s1 = sevents s @ es"
    "holds ?img [] es = Some (case r of Inl f \<Rightarrow> undo_stack (f_undo f) | Inr _ \<Rightarrow> [Filesystem, Device, Image])"
    using create_outcomeD [OF o] by blast
  obtain fs where fs: "sevents (create_finish H name ?img mp r s1) = sevents s1 @ fs"
    "case r of Inl f \<Rightarrow> holds ?img (undo_stack (f_undo f)) fs = Some [] | Inr v \<Rightarrow> fs = []"
    using create_finish_log [OF assms] by blast
  have c: "Create H name path n pw mp s = create_finish H name ?img mp r s1" by (simp add: Create_def o)
  have "log_since s (Create H name path n pw mp s) = es @ fs"
    unfolding c by (rule log_since_eq) (simp add: fs(1) es(1))
  then show ?thesis using es(2) fs(2) by (cases r) (simp_all add: holds_append create_ok_def o)
qed

theorem create_balanced_witness:
  "holds (image_path ''/vaults'' ''b'') []
     (log_since (sim_csys sim0) (Create sim_host ''b'' ''/vaults'' 1 ''password'' ''/mnt/b'' (sim_csys sim0))) =
   Some (if create_ok sim_host ''b'' ''/vaults'' 1 ''password'' ''/mnt/b'' (sim_csys sim0)
         then [Filesystem, Device, Image] else [])"
proof -
  have "''/mnt/b'' \<noteq> image_path ''/vaults'' ''b''" by code_simp
  then show ?thesis by (rule create_balanced)
qed

text \<open>An event that writes or removes a given file.\<close>

definition touches_image :: "string \<Rightarrow> event \<Rightarrow> bool" where
  "touches_image img e = (case e of
     Ran c _ \<Rightarrow> (take 1 (argv c) = [''fallocate''] \<or> take 2 (argv c) = [''cryptsetup'', ''luksFormat'']) \<and> img \<in> set (argv c)
   | RanDd a _ \<Rightarrow> (''of='' @ img) \<in> set a
   | Removed p _ \<Rightarrow> p = img
   | _ \<Rightarrow> False)"

lemma create_preflight_refuses:
  assumes "exists H img (snd (create_preflight H name path img n s))"
  shows "\<exists>f. fst (create_preflight H name path img n s) = Some f \<and> f_undo f = UndoNothing"
proof -
  obtain r s1 where p: "create_preflight H name path img n s = (r, s1)" by fastforce
  show ?thesis using create_preflightD [OF p] assms p by (cases r) auto
qed

lemma create_preflight_log:
  assumes "create_preflight H name path img n s = (r, s')"
  shows "\<exists>es. sevents s' = sevents s @ es \<and> (\<forall>e \<in> set es. \<not> touches_image img e)"
  using assms
  by (auto simp: create_preflight_def touches_image_def split: prod.splits option.splits if_splits
      dest!: mkdir_allD ensureLoopSupportD)

text \<open>
  C18: A creation never touches an image that is already there: when the image exists at the check,
  nothing formats, allocates, overwrites or removes it, and the database is left alone.
\<close>
theorem create_spares_existing:
  assumes "exists H (image_path path name) (snd (create_preflight H name path (image_path path name) n s))"
  shows "\<not> create_ok H name path n pw mp s
    \<and> list_all (\<lambda>e. \<not> touches_image (image_path path name) e) (log_since s (Create H name path n pw mp s))
    \<and> sdb (Create H name path n pw mp s) = sdb s"
proof -
  let ?img = "image_path path name"
  obtain r s1 where p: "create_preflight H name path ?img n s = (r, s1)" by fastforce
  then obtain f where f: "r = Some f" "f_undo f = UndoNothing" using create_preflight_refuses [OF assms] by auto
  have c: "Create H name path n pw mp s = create_undo H name ?img mp f s1"
    "create_outcome H name path n pw mp s = (Inl f, s1)"
    by (simp_all add: Create_def create_outcome_def create_prepare_def create_finish_def p f)
  obtain es where es: "sevents s1 = sevents s @ es" "\<forall>e \<in> set es. \<not> touches_image ?img e"
    using create_preflight_log [OF p] by blast
  have "log_since s (Create H name path n pw mp s) = es @ [LogError (f_ctx f)]"
    unfolding c(1) by (rule log_since_eq) (simp add: create_undo_def f es(1))
  then show ?thesis using es(2) create_preflightD [OF p] c
    by (simp add: create_ok_def list_all_iff touches_image_def create_undo_def f)
qed

theorem create_spares_existing_witness:
  "\<not> create_ok sim_host ''a'' ''/vaults'' 1 ''password'' ''/mnt/a'' (sim_csys sim0)"
proof -
  have img: "image_path ''/vaults'' ''a'' = ''/vaults/a.img''" by code_simp
  have "exists sim_host ''/vaults/a.img''
      (snd (create_preflight sim_host ''a'' ''/vaults'' ''/vaults/a.img'' 1 (sim_csys sim0)))"
    by code_simp
  then show ?thesis using create_spares_existing [where H = sim_host and path = "''/vaults''" and name = "''a''"
      and s = "sim_csys sim0" and n = 1 and pw = "''password''" and mp = "''/mnt/a''"] unfolding img by blast
qed

text \<open>
  A creation whose pipeline succeeds ends with a record, found under the new id, that names
  the image, mount point and mapper it prepared; one that fails leaves the database as it was.
  (The driver reports the id of a row it inserted.)
\<close>
lemma create_records:
  assumes "db_ok (sdb s)" and "\<forall>w. fst (h_sql H LastInsertId w) = None"
  shows "case fst (create_outcome H name path n pw mp s) of
     Inl f \<Rightarrow> sdb (Create H name path n pw mp s) = sdb s
   | Inr v \<Rightarrow> \<exists>row. select_vault (v_id v) (sdb (Create H name path n pw mp s)) = Inr row
        \<and> v_name row = name \<and> v_path row = image_path path name \<and> v_size row = n \<and> v_mount row = mp
        \<and> v_mapper row = name \<and> v_id row \<notin> v_id ` set (vaults (sdb s))"
proof -
  let ?img = "image_path path name"
  obtain f1 s1 where p: "create_prepare H name path ?img n pw mp s = (f1, s1)" by fastforce
  have s1: "sdb s1 = sdb s" using create_prepareD [OF p] by blast
  have fin: "sdb (create_finish H name ?img mp r t) = sdb t" for r t
    by (cases r) (cases "f_undo (projl r)"; simp add: create_finish_def create_undo_def Let_def)+
  show ?thesis
  proof (cases f1)
    case (Some f)
    then show ?thesis using p s1 fin by (simp add: Create_def create_outcome_def)
  next
    case None
    obtain r s2 where c: "create_commit H name ?img n mp s1 = (r, s2)" by fastforce
    have out: "create_outcome H name path n pw mp s = (r, s2)" using p None c by (simp add: create_outcome_def)
    have final: "sdb (Create H name path n pw mp s) = sdb s2" by (simp add: Create_def out fin)
    show ?thesis
    proof (cases r)
      case (Inl f)
      have "sdb s2 = sdb s1"
        using c Inl assms(2)
        by (auto simp: create_commit_def CreateVault_def sql_def split: prod.splits sum.splits option.splits) (metis fst_conv option.distinct(1))+
      then show ?thesis using out Inl final s1 by simp
    next
      case (Inr v)
      obtain now where i: "insert_vault now name ?img n mp name (sdb s1) = Inr (v_id v, sdb s2)"
        using create_commitD [OF c] Inr by blast
      have sel: "select_vault (v_id v) (sdb s2) = Inr (new_vault_row now name ?img n mp name (sdb s1))"
        using select_vault_insert [OF _ i] assms(1) s1 by simp
      have "\<forall>x \<in> set (vaults (sdb s)). v_id x \<le> vault_seq (sdb s)"
        using assms(1) by (simp add: db_ok_def vt.keys_ok_def)
      then have "vault_seq (sdb s) + 1 \<notin> v_id ` set (vaults (sdb s))" by force
      then show ?thesis using out Inr final sel s1 by (simp add: new_vault_row_def)
    qed
  qed
qed

text \<open>The executable host carries a creation through.\<close>

definition sim_fit :: "'a sim_scheme \<Rightarrow> bool" where "sim_fit w \<longleftrightarrow> sm_broken w = [] \<and> sm_pass w = ''correct horse''"
lemma sim_preflight: "fst (create_preflight sim_host ''b'' ''/vaults'' ''/vaults/b.img'' 1 (sim_csys sim0)) = None" by code_simp
lemma sim_preflight_fit: "sim_fit (sworld (snd (create_preflight sim_host ''b'' ''/vaults'' ''/vaults/b.img'' 1 (sim_csys sim0))))"
  unfolding sim_fit_def by code_simp
lemma sim_luks: "sim_fit (sworld s) \<Longrightarrow> fst (create_luks sim_host ''b'' img 1 ''correct horse'' s) = None \<and> sim_fit (sworld (snd (create_luks sim_host ''b'' img 1 ''correct horse'' s)))"
  by (simp add: create_luks_def allocateFile_def send_def run_def step_world_def sim_host_def sim_run_def sim_fails_def fallocate_argv_def
   luksFormat_cmd_def luksOpen_cmd_def sim_csys_def sim0_def sim_effect_def sim_fit_def)
lemma sim_mount: "sim_fit (sworld s) \<Longrightarrow> fst (create_mount sim_host ''b'' mp s) = None \<and> sim_fit (sworld (snd (create_mount sim_host ''b'' mp s)))"
  by (simp add: create_mount_def send_def run_def step_world_def sim_host_def sim_run_def sim_fails_def mkfs_cmd_def mount_cmd_def
    mkdir_all_def chmod_def sim_effect_def sim_fit_def)
lemma sim_create_ok: "create_ok sim_host ''b'' ''/vaults'' 1 ''correct horse'' ''/mnt/b'' (sim_csys sim0)"
proof -
  have img: "image_path ''/vaults'' ''b'' = ''/vaults/b.img''" by code_simp
  obtain s1 where p: "create_preflight sim_host ''b'' ''/vaults'' ''/vaults/b.img'' 1 (sim_csys sim0) = (None, s1)"
    using sim_preflight by (metis prod.collapse)
  obtain s2 where l: "create_luks sim_host ''b'' ''/vaults/b.img'' 1 ''correct horse'' s1 = (None, s2)" "sim_fit (sworld s2)"
    using sim_luks [of s1 "''/vaults/b.img''"] sim_preflight_fit p by (metis prod.collapse snd_conv)
  obtain s3 where m: "create_mount sim_host ''b'' ''/mnt/b'' s2 = (None, s3)"
    using sim_mount [of s2 "''/mnt/b''"] l by (metis prod.collapse)
  have db: "sdb s3 = sim_db"
    using create_mountD [OF m] create_luksD [OF l(1)] create_preflightD [OF p] by (simp add: sim_csys_db)
  have "is_ok (fst (create_commit sim_host ''b'' ''/vaults/b.img'' 1 ''/mnt/b'' s3))"
    by (simp add: create_commit_def CreateVault_def sql_def sim_host_def db insert_vault_def sim_db_def sim_vault_def Let_def)
  then show ?thesis
    unfolding create_ok_def create_outcome_def img create_prepare_def p prod.case option.case l(1) m .
qed

text \<open>
  C19: What a successful creation ran, in order, after the checks and the allocation: format, open,
  make the file system, create the mount point, mount, open it to every user.
\<close>
theorem create_order:
  assumes "create_ok H name path n pw mp s"
  shows "\<exists>pre al. alloc_log (image_path path name) n al
    \<and> list_all (\<lambda>e. \<not> touches_image (image_path path name) e) pre
    \<and> log_since s (Create H name path n pw mp s) = pre @ al
        @ [Ran (luksFormat_cmd (image_path path name) pw) True, Ran (luksOpen_cmd (image_path path name) name pw) True,
           Ran (mkfs_cmd name) True, MkdirAll mp True, Ran (mount_cmd True name mp) True, Chmod mp 0x1FF True]"
proof -
  let ?img = "image_path path name"
  obtain v s4 where o: "create_outcome H name path n pw mp s = (Inr v, s4)"
    using assms by (cases "create_outcome H name path n pw mp s") (auto simp: create_ok_def is_ok_iff)
  obtain r1 s1 where p: "create_preflight H name path ?img n s = (r1, s1)" by fastforce
  obtain r2 s2 where l: "create_luks H name ?img n pw s1 = (r2, s2)" by fastforce
  obtain r3 s3 where m: "create_mount H name mp s2 = (r3, s3)" by fastforce
  have ok: "r1 = None" "r2 = None" "r3 = None" and c: "create_commit H name ?img n mp s3 = (Inr v, s4)"
    using o p l m by (auto simp: create_outcome_def create_prepare_def split: option.splits)
  obtain pre where pre: "sevents s1 = sevents s @ pre" "\<forall>e \<in> set pre. \<not> touches_image ?img e"
    using create_preflight_log [OF p] by blast
  obtain al where al: "alloc_log ?img n al" "sevents s2 = sevents s1 @ al
      @ [Ran (luksFormat_cmd ?img pw) True, Ran (luksOpen_cmd ?img name pw) True]"
    using create_luksD [OF l] ok by auto
  have s3: "sevents s3 = sevents s2 @ [Ran (mkfs_cmd name) True, MkdirAll mp True, Ran (mount_cmd True name mp) True, Chmod mp 0x1FF True]"
    using create_mountD [OF m] ok by auto
  have s4: "sevents s4 = sevents s3" using create_commitD [OF c] by blast
  have "sevents (Create H name path n pw mp s) = sevents s4" by (simp add: Create_def o create_finish_def)
  then have "log_since s (Create H name path n pw mp s) = pre @ al
      @ [Ran (luksFormat_cmd ?img pw) True, Ran (luksOpen_cmd ?img name pw) True,
         Ran (mkfs_cmd name) True, MkdirAll mp True, Ran (mount_cmd True name mp) True, Chmod mp 0x1FF True]"
    by (intro log_since_eq) (simp add: s4 s3 al(2) pre(1))
  then show ?thesis using al(1) pre(2) unfolding list_all_iff by blast
qed

theorem create_order_witness:
  "\<exists>pre al. alloc_log (image_path ''/vaults'' ''b'') 1 al
    \<and> list_all (\<lambda>e. \<not> touches_image (image_path ''/vaults'' ''b'') e) pre
    \<and> log_since (sim_csys sim0) (Create sim_host ''b'' ''/vaults'' 1 ''correct horse'' ''/mnt/b'' (sim_csys sim0)) = pre @ al
        @ [Ran (luksFormat_cmd (image_path ''/vaults'' ''b'') ''correct horse'') True,
           Ran (luksOpen_cmd (image_path ''/vaults'' ''b'') ''b'' ''correct horse'') True,
           Ran (mkfs_cmd ''b'') True, MkdirAll ''/mnt/b'' True, Ran (mount_cmd True ''b'' ''/mnt/b'') True, Chmod ''/mnt/b'' 0x1FF True]"
  by (rule create_order [OF sim_create_ok])

section \<open>Unlock and lock\<close>


text \<open>
  C11: A lock touches nothing when the vault is not unlocked; it unmounts a mounted vault first
  and closes the device only after an unmount that succeeded; it reports success exactly when the
  device was closed.
\<close>
theorem lock_order:
  "let r = fst (LockContext H v s); es = log_since s (snd (LockContext H v s)) in
     if \<not> IsUnlocked H v s then r = Some ''vault is already locked'' \<and> es = []
     else if \<not> IsMounted H v s then es = [Ran (luksClose_cmd True (v_mapper v)) (r = None)]
     else if Ran (umount_cmd True (v_mount v)) True \<in> set es
     then es = [Ran (umount_cmd True (v_mount v)) True, Ran (luksClose_cmd True (v_mapper v)) (r = None)]
     else es = [Ran (umount_cmd True (v_mount v)) False] \<and> r \<noteq> None"
proof -
  obtain r s' where l: "LockContext H v s = (r, s')" by fastforce
  show ?thesis
    using LockContextD [OF l] by (auto simp: l log_since_def Let_def umount_cmd_def luksClose_cmd_def split: if_splits)
qed

text \<open>What \<open>umount\<close>, \<open>luksClose\<close> and the probes of a host have to do with each other.\<close>

definition gone :: "'w host \<Rightarrow> string \<Rightarrow> 'w \<Rightarrow> bool" where
  "gone H p w \<longleftrightarrow> \<not> is_ok (h_stat H p w)"

definition lock_laws :: "'w host \<Rightarrow> bool" where
  "lock_laws H \<longleftrightarrow>
     (\<forall>b mp w out w'. h_run H (umount_cmd b mp) w = ((out, None), w') \<longrightarrow> \<not> mountedIn mp (h_mounts H w'))
     \<and> (\<forall>b m w out w'. h_run H (luksClose_cmd b m) w = ((out, None), w') \<longrightarrow> gone H (mapper_path m) w')
     \<and> (\<forall>b mp w r w' p. h_run H (umount_cmd b mp) w = (r, w') \<longrightarrow>
          (mountedIn p (h_mounts H w') \<longrightarrow> mountedIn p (h_mounts H w)) \<and> (gone H p w \<longrightarrow> gone H p w'))
     \<and> (\<forall>b m w r w' p. h_run H (luksClose_cmd b m) w = (r, w') \<longrightarrow>
          (mountedIn p (h_mounts H w') \<longrightarrow> mountedIn p (h_mounts H w)) \<and> (gone H p w \<longrightarrow> gone H p w'))
     \<and> (\<forall>c w. h_mounts H (snd (h_sql H c w)) = h_mounts H w \<and> (\<forall>p. h_stat H p (snd (h_sql H c w)) = h_stat H p w))"

lemma lock_lawsD:
  assumes "lock_laws H"
  shows "h_run H (umount_cmd b mp) w = ((out, None), w') \<Longrightarrow> \<not> mountedIn mp (h_mounts H w')"
    and "h_run H (luksClose_cmd b m) w = ((out, None), w') \<Longrightarrow> gone H (mapper_path m) w'"
    and "h_run H (luksClose_cmd b m) w = (r, w') \<Longrightarrow> mountedIn p (h_mounts H w') \<Longrightarrow> mountedIn p (h_mounts H w)"
    and "h_mounts H (snd (h_sql H c w)) = h_mounts H w" and "h_stat H p (snd (h_sql H c w)) = h_stat H p w"
  using assms unfolding lock_laws_def by (elim conjE, metis)+

lemma IsUnlocked_iff: "IsUnlocked H v s \<longleftrightarrow> \<not> gone H (mapper_path (v_mapper v)) (sworld s) \<or> mountedIn (v_mount v) (h_mounts H (sworld s))"
  by (simp add: IsUnlocked_def exists_def gone_def IsMounted_def ReadMounts_def)

lemma lock_law_run:
  assumes "lock_laws H" and "c = umount_cmd b x \<or> c = luksClose_cmd b x" and "run H c s = (r, s')" and "IsUnlocked H v s'"
  shows "IsUnlocked H v s"
proof -
  obtain r' w' where h: "h_run H c (sworld s) = (r', w')" by fastforce
  then have w: "sworld s' = w'" using assms(3) by (auto simp: run_def step_world_def split: prod.splits)
  have "(mountedIn p (h_mounts H w') \<longrightarrow> mountedIn p (h_mounts H (sworld s))) \<and> (gone H p (sworld s) \<longrightarrow> gone H p w')" for p
    using assms(1,2) h unfolding lock_laws_def by blast
  then show ?thesis using assms(4) unfolding IsUnlocked_iff w by blast
qed

lemma umount_law: "lock_laws H \<Longrightarrow> run H (umount_cmd b x) s = (r, s') \<Longrightarrow> IsUnlocked H v s' \<Longrightarrow> IsUnlocked H v s"
  using lock_law_run [of H "umount_cmd b x" b x] by blast

lemma luksClose_law: "lock_laws H \<Longrightarrow> run H (luksClose_cmd b x) s = (r, s') \<Longrightarrow> IsUnlocked H v s' \<Longrightarrow> IsUnlocked H v s"
  using lock_law_run [of H "luksClose_cmd b x" b x] by blast

lemma LockContext_keeps_locked:
  assumes "lock_laws H" and l: "LockContext H v s = (r, s')" and "IsUnlocked H u s'"
  shows "IsUnlocked H u s"
  using l assms(3) unfolding LockContext_def StatusIn_live
  by (auto split: if_splits prod.splits option.splits dest: umount_law [OF assms(1)] luksClose_law [OF assms(1)])

lemma run_None_world:
  "run H c s = ((out, None), s') \<Longrightarrow> h_run H c (sworld s) = ((out, None), sworld s')"
  by (auto simp: run_def step_world_def split: prod.splits)

lemma LockContext_locks:
  assumes L: "lock_laws H" and l: "LockContext H v s = (None, s')"
  shows "\<not> IsUnlocked H v s'"
proof -
  have u: "IsUnlocked H v s" using l by (auto simp: LockContext_def StatusIn_live split: if_splits)
  obtain s1 out where c: "run H (luksClose_cmd True (v_mapper v)) s1 = ((out, None), s')"
    and m: "\<not> mountedIn (v_mount v) (h_mounts H (sworld s1))"
  proof (cases "IsMounted H v s")
    case True
    obtain out e s1 where r: "run H (umount_cmd True (v_mount v)) s = ((out, e), s1)" by (metis surj_pair)
    have e: "e = None" using l u True r by (auto simp: LockContext_def StatusIn_live split: option.splits)
    obtain out2 where "run H (luksClose_cmd True (v_mapper v)) s1 = ((out2, None), s')"
      using l u True r e by (auto simp: LockContext_def StatusIn_live split: prod.splits option.splits)
    moreover have "\<not> mountedIn (v_mount v) (h_mounts H (sworld s1))"
      using lock_lawsD(1) [OF L run_None_world [OF r [unfolded e]]] .
    ultimately show ?thesis using that by blast
  next
    case False
    obtain out2 where "run H (luksClose_cmd True (v_mapper v)) s = ((out2, None), s')"
      using l u False by (auto simp: LockContext_def StatusIn_live split: prod.splits option.splits)
    then show ?thesis using that False by (auto simp: IsMounted_def ReadMounts_def)
  qed
  note h = run_None_world [OF c]
  have "gone H (mapper_path (v_mapper v)) (sworld s')" using lock_lawsD(2) [OF L h] .
  moreover have "\<not> mountedIn (v_mount v) (h_mounts H (sworld s'))" using lock_lawsD(3) [OF L h] m by blast
  ultimately show ?thesis by (simp add: IsUnlocked_iff)
qed

lemma lock_each_keeps_locked:
  assumes "lock_laws H"
  shows "lock_each H vs s = (fs, s') \<Longrightarrow> IsUnlocked H u s' \<Longrightarrow> IsUnlocked H u s"
proof (induction vs arbitrary: s fs)
  case (Cons a vs)
  show ?case
  proof (cases "IsUnlocked H a s")
    case False
    then show ?thesis using Cons by simp
  next
    case True
    obtain e s1 where l: "LockContext H a s = (e, s1)" by fastforce
    obtain fs2 s2 where t: "lock_each H vs s1 = (fs2, s2)" by fastforce
    have "IsUnlocked H u s1" using Cons True l t by auto
    then show ?thesis by (rule LockContext_keeps_locked [OF assms l])
  qed
qed simp

lemma lock_each_reports:
  assumes "lock_laws H"
  shows "lock_each H vs s = (fs, s') \<Longrightarrow> v \<in> set vs \<Longrightarrow> IsUnlocked H v s' \<Longrightarrow> v_name v \<in> fst ` set fs"
proof (induction vs arbitrary: s fs s')
  case (Cons a vs)
  show ?case
  proof (cases "IsUnlocked H a s")
    case False
    then have t: "lock_each H vs s = (fs, s')" using Cons.prems by simp
    have "v \<noteq> a" using lock_each_keeps_locked [OF assms t Cons.prems(3)] False by blast
    then show ?thesis using Cons t by auto
  next
    case True
    obtain e s1 where l: "LockContext H a s = (e, s1)" by fastforce
    obtain fs2 s2 where t: "lock_each H vs s1 = (fs2, s2)" by fastforce
    have eq: "fs = (case e of Some e \<Rightarrow> (v_name a, e) # fs2 | None \<Rightarrow> fs2)" "s' = s2"
      using Cons.prems(1) True l t by auto
    have rest: "v \<in> set vs \<Longrightarrow> v_name v \<in> fst ` set fs2" using Cons.IH [OF t] Cons.prems eq by simp
    have "v \<in> set vs \<or> e \<noteq> None"
    proof (rule ccontr)
      assume n: "\<not> (v \<in> set vs \<or> e \<noteq> None)"
      then have "v = a" "e = None" using Cons.prems by auto
      then have "\<not> IsUnlocked H v s1" using LockContext_locks [OF assms] l by blast
      moreover have "IsUnlocked H v s1" using lock_each_keeps_locked [OF assms t] Cons.prems(3) eq by simp
      ultimately show False ..
    qed
    then show ?thesis using rest Cons.prems(2) eq by (cases e) auto
  qed
qed simp

text \<open>
  The locking at shutdown leaves no vault open in silence: a vault with a record that is
  still unlocked afterwards is named among the failures, or the records could not be listed.
\<close>

lemma shutdown_lock_reports:
  assumes "lock_laws H" and "v \<in> set (vaults (sdb s))" and "IsUnlocked H v (snd (LockAllUnlocked H s))"
  shows "v_name v \<in> fst ` set (fst (LockAllUnlocked H s)) \<or> ''(list vaults)'' \<in> fst ` set (fst (LockAllUnlocked H s))"
proof -
  obtain r s1 where l: "ListVaults H s = (r, s1)" by fastforce
  show ?thesis
  proof (cases r)
    case (Inl e)
    then show ?thesis by (simp add: LockAllUnlocked_def l)
  next
    case (Inr vs)
    have v: "v \<in> set vs" using ListVaultsD [OF l] Inr assms(2) by simp
    obtain fs s2 where t: "lock_each H vs s1 = (fs, s2)" by fastforce
    then show ?thesis using lock_each_reports [OF assms(1) t v] assms(3) Inr l by (simp add: LockAllUnlocked_def)
  qed
qed

text \<open>A host with at most one vault, which keeps the laws; its \<open>umount\<close> may be broken.\<close>

definition one_vault_host :: "sim host" where
  "one_vault_host = sim_host\<lparr>
     h_mounts := (\<lambda>w. if sm_mounts w = [] then [] else ''/dev/mapper/a /mnt/a ext4 rw 0 0''),
     h_run := (\<lambda>c w. if list_ex (\<lambda>x. x \<in> set (argv c)) (sm_broken w) then (([], Some ''exit status 32''), w)
       else (([], None), if take 1 (argv c) = [''umount''] then w\<lparr>sm_mounts := []\<rparr>
             else if take 2 (argv c) = [''cryptsetup'', ''luksClose''] then w\<lparr>sm_maps := [], sm_files := []\<rparr> else w))\<rparr>"

lemma mountedIn_empty [simp]: "\<not> mountedIn p []"
  by (simp add: mountedIn_def)

lemma one_vault_laws: "lock_laws one_vault_host"
  by (auto simp: lock_laws_def one_vault_host_def umount_cmd_def luksClose_cmd_def gone_def sim_host_def sim_stat_def
      split: if_splits option.splits)

section \<open>Status\<close>

text \<open>
  C37: On a well-formed mount table, a vault counts as mounted exactly when some entry has its
  mount point: no other mount point, type, option or device that contains it as a text confuses
  the test, blanks and backslashes in the path included.
\<close>
theorem IsMounted_exact:
  assumes "h_mounts H (sworld s) = render_mounts es" and "\<forall>e \<in> set es. entry_ok e" and "prefix ''/'' (v_mount v)"
  shows "IsMounted H v s \<longleftrightarrow> (\<exists>e \<in> set es. m_dir e = v_mount v)"
  using mountedIn_render [OF assms(3,2)] assms(1) by (simp add: IsMounted_def ReadMounts_def)

theorem IsMounted_exact_witness:
  "\<not> IsMounted sim_host (sim_vault\<lparr>v_mount := ''/mnt/a b''\<rparr>) (sim_state (sim0\<lparr>sm_mounts := [sim_entry ''/dev/mapper/c'' ''/mnt/a b/c'']\<rparr>))"
proof -
  let ?es = "[sim_entry ''/dev/mapper/c'' ''/mnt/a b/c'']"
  have "\<forall>e \<in> set ?es. entry_ok e" by (simp add: sim_entry_def entry_ok_def blank_free_def)
  moreover have "h_mounts sim_host (sworld (sim_state (sim0\<lparr>sm_mounts := ?es\<rparr>))) = render_mounts ?es"
    by (simp add: sim_host_def sim_state_def)
  ultimately show ?thesis
    using IsMounted_exact [of sim_host "sim_state (sim0\<lparr>sm_mounts := ?es\<rparr>)" ?es "sim_vault\<lparr>v_mount := ''/mnt/a b''\<rparr>"]
    by (simp add: sim_entry_def)
qed

text \<open>
  The kernel's escaping of a mount point loses nothing and leaves no blank: decoding it gives
  the path back, and the escaped form holds no space, tab or newline.
\<close>
lemma escape_roundtrip:
  "unescape (procMountsEscape p) = p
   \<and> list_all (\<lambda>c. c \<noteq> CHR '' '' \<and> c \<noteq> tab \<and> c \<noteq> nl) (procMountsEscape p)"
proof
  show "unescape (procMountsEscape p) = p" by (rule unescape_escape)
  show "list_all (\<lambda>c. c \<noteq> CHR '' '' \<and> c \<noteq> tab \<and> c \<noteq> nl) (procMountsEscape p)"
    by (induction p) (auto simp: escape_char_def)
qed

section \<open>Keyslots\<close>

text \<open>
  A keyslot may be removed exactly when it is a valid slot and some other valid slot remains:
  the check never lets the last way into a vault go, and never refuses without reason. (The
  header's slots have distinct indices.)
\<close>
lemma ValidateKillSlot_exact:
  assumes "distinct (map ks_index (d_slots d))"
  shows "ValidateKillSlot d slot = None \<longleftrightarrow>
     (\<exists>ks \<in> set (d_slots d). valid_slot ks \<and> ks_index ks = slot)
     \<and> (\<exists>ks \<in> set (slots_after_kill d slot). valid_slot ks)"
proof
  assume v: "ValidateKillSlot d slot = None"
  have "distinct (map ks_index (filter valid_slot (d_slots d)))" using assms by (rule distinct_map_filter)
  from ValidateKillSlot_remaining [OF v this] v show "(\<exists>ks \<in> set (d_slots d). valid_slot ks \<and> ks_index ks = slot)
     \<and> (\<exists>ks \<in> set (slots_after_kill d slot). valid_slot ks)" by (simp add: ValidateKillSlot_None)
next
  assume r: "(\<exists>ks \<in> set (d_slots d). valid_slot ks \<and> ks_index ks = slot)
     \<and> (\<exists>ks \<in> set (slots_after_kill d slot). valid_slot ks)"
  then obtain a b where ab: "a \<in> set (filter valid_slot (d_slots d))" "b \<in> set (filter valid_slot (d_slots d))" "a \<noteq> b"
    by (auto simp: slots_after_kill_def)
  have "2 \<le> card {a, b}" using ab(3) by simp
  also have "\<dots> \<le> card (set (filter valid_slot (d_slots d)))" using ab by (intro card_mono) auto
  also have "\<dots> \<le> length (filter valid_slot (d_slots d))" by (rule card_length)
  finally show "ValidateKillSlot d slot = None" using r by (simp add: ValidateKillSlot_None)
qed

text \<open>
  C20: The key file that \<open>AddKeyFile\<close> needs does not outlive it: whatever fails, the log ends with
  the file overwritten by zeros and removed; before that, its content is written only after its
  mode was restricted to the owner.
\<close>
theorem keyfile_wiped:
  "let es = log_since s (snd (AddKeyFile H v existing newKey slot s)) in
     es = [] \<or> (\<exists>tmp c rest a b.
       es = TempCreated tmp # Chmod tmp 0x180 c # rest @ [Wrote tmp (replicate (length newKey) CHR 0x00) a, Removed tmp b]
       \<and> list_all (\<lambda>e. case e of Wrote p d ok \<Rightarrow> c \<and> p = tmp | TempCreated p \<Rightarrow> False | _ \<Rightarrow> True) rest)"
proof -
  obtain r s' where a: "AddKeyFile H v existing newKey slot s = (r, s')" by fastforce
  from AddKeyFileD [OF a] consider "sevents s' = sevents s"
    | tmp es a b where "sevents s' = sevents s @ TempCreated tmp # es @ [Wrote tmp (replicate (length newKey) CHR 0x00) a, Removed tmp b]"
        "addkeyfile_log tmp newKey (addkeyfile_cmd v existing slot tmp) (r = None) es" by blast
  then show ?thesis
  proof cases
    case 1
    then show ?thesis by (simp add: a log_since_def)
  next
    case 2
    from 2(2) have "\<exists>c rest. es = Chmod tmp 0x180 c # rest
      \<and> list_all (\<lambda>e. case e of Wrote p d ok \<Rightarrow> c \<and> p = tmp | TempCreated p \<Rightarrow> False | _ \<Rightarrow> True) rest"
      unfolding addkeyfile_log_def by (elim disjE exE conjE) (simp; blast)+
    then obtain c rest where "es = Chmod tmp 0x180 c # rest"
      "list_all (\<lambda>e. case e of Wrote p d ok \<Rightarrow> c \<and> p = tmp | TempCreated p \<Rightarrow> False | _ \<Rightarrow> True) rest" by blast
    then show ?thesis using 2(1) by (auto simp: a log_since_def)
  qed
qed


section \<open>Headers\<close>

text \<open>
  \<open>dumpField\<close> reads the first field of its label: lines before it that do not carry the
  label do not matter, nor does anything after it.
\<close>
lemma dumpField_reads_first:
  assumes "\<forall>l \<in> set ls. nl \<notin> set l \<and> \<not> prefix (label @ '':'') l" and "nl \<notin> set label"
    and "\<forall>c \<in> set pad. is_ws c \<and> c \<noteq> nl" "pad \<noteq> []" and "v \<noteq> []" "\<forall>c \<in> set v. \<not> is_ws c"
  shows "dumpField (unlines ls @ label @ '':'' @ pad @ v @ nl # t) label = v \<and> dumpField (unlines ls) label = []"
  using dumpField_first [OF assms] dumpField_absent [OF assms(1,2)] by blast

text \<open>
  The keyslots of a LUKS2 header come out in strictly ascending order of their index, each
  with its own type, whatever the order of the decoded map: two headers with the same slots give
  the same list.
\<close>
lemma luks2_slots_ordered:
  assumes "canonical_keys (h2_keyslots hdr) is" and "canonical_keys (h2_keyslots hdr') is'"
    and "set (h2_keyslots hdr') = set (h2_keyslots hdr)" and "d_slots d = []"
  shows "d_slots (fill_header L hdr d) = d_slots (fill_header L hdr' d)
    \<and> map ks_index (d_slots (fill_header L hdr d)) = sort is
    \<and> sorted_wrt (<) (map ks_index (d_slots (fill_header L hdr d)))
    \<and> (\<forall>(k, x) \<in> set (h2_keyslots hdr). \<exists>i \<in> set is. k = itoa i
         \<and> \<lparr>ks_index = i, ks_type = l2_kdf_type x, ks_status = ''valid''\<rparr> \<in> set (d_slots (fill_header L hdr d)))"
proof -
  have dist: "distinct (map fst (h2_keyslots h))" if "canonical_keys (h2_keyslots h) js" for h js
    using that itoa_inject by (auto simp: canonical_keys_def distinct_map inj_on_def)
  have fst: "set (map fst (h2_keyslots hdr)) = itoa ` set is" "set (map fst (h2_keyslots hdr')) = itoa ` set is'"
    using assms(1,2) by (simp_all add: canonical_keys_def)
  have "itoa ` set is = itoa ` set is'" using fst assms(3) by simp
  moreover have "inj_on itoa (set is \<union> set is')"
    using assms(1,2) itoa_inject by (auto simp: canonical_keys_def inj_on_def)
  ultimately have "set is = set is'" by (simp add: inj_on_Un_image_eq_iff)
  then have sis: "sort is = sort is'"
    using assms(1,2) by (simp add: canonical_keys_def sorted_distinct_set_unique)
  have mo: "map_of (h2_keyslots hdr) = map_of (h2_keyslots hdr')"
    using dist [OF assms(1)] dist [OF assms(2)] assms(3) by (simp add: map_of_inject_set)
  have sl: "d_slots (fill_header L hdr d) = map (\<lambda>i. \<lparr>ks_index = i,
      ks_type = l2_kdf_type (map_get zero_slot (h2_keyslots hdr) (itoa i)), ks_status = ''valid''\<rparr>) (sort is)"
    unfolding fill_header_slots sortedIndexes_canonical [OF assms(1)] assms(4) by simp
  have "d_slots (fill_header L hdr d) = d_slots (fill_header L hdr' d)"
    unfolding fill_header_slots sortedIndexes_canonical [OF assms(1)] sortedIndexes_canonical [OF assms(2)] sis
    by (simp add: map_get_def mo)
  moreover have mi: "map ks_index (d_slots (fill_header L hdr d)) = sort is" by (simp add: sl comp_def)
  moreover have "sorted_wrt (<) (sort is)" using assms(1) by (simp add: canonical_keys_def strict_sorted_iff)
  moreover have "\<exists>i \<in> set is. k = itoa i \<and> \<lparr>ks_index = i, ks_type = l2_kdf_type x, ks_status = ''valid''\<rparr>
      \<in> set (d_slots (fill_header L hdr d))" if kx: "(k, x) \<in> set (h2_keyslots hdr)" for k x
  proof -
    have "k \<in> itoa ` set is" using kx fst(1) by force
    then obtain i where i: "i \<in> set is" "k = itoa i" by blast
    have "map_get zero_slot (h2_keyslots hdr) (itoa i) = x"
      using map_get_mem [OF dist [OF assms(1)]] kx i(2) by simp
    then have "\<lparr>ks_index = i, ks_type = l2_kdf_type x, ks_status = ''valid''\<rparr> \<in> set (d_slots (fill_header L hdr d))"
      using i(1) unfolding sl by force
    then show ?thesis using i by blast
  qed
  ultimately show ?thesis by auto
qed

definition no_lib :: luks_lib where
  "no_lib = \<lparr>unmarshal = (\<lambda>_. Inl []), out_of_range = (\<lambda>_. 0)\<rparr>"

section \<open>Sizes and growth\<close>

text \<open>
  A passed disk-space check means room: the free space the kernel reports holds the whole
  image. (For sizes below 2^34 GB; the kernel's counts are not negative.)
\<close>
lemma disk_space_enough:
  assumes "checkDiskSpace H path n s = None" and "0 \<le> n" "n < 2 ^ 34"
    and "\<forall>st. h_statfs H path (sworld s) = Inr st \<longrightarrow> 0 \<le> f_bavail st \<and> 0 \<le> f_bsize st"
  shows "\<exists>st. h_statfs H path (sworld s) = Inr st \<and> n * gib \<le> f_bavail st * f_bsize st"
proof -
  obtain st where st: "h_statfs H path (sworld s) = Inr st" "\<not> available_bytes st < required_bytes n"
    using assms(1) by (auto simp: checkDiskSpace_def split: sum.splits if_splits)
  have "n * gib \<le> available_bytes st" using st(2) required_bytes_exact [OF assms(2,3)] by simp
  also have "\<dots> \<le> f_bavail st * f_bsize st" using available_bytes_le assms(4) st(1) by blast
  finally show ?thesis using st(1) by blast
qed

text \<open>The commands that extend a vault's image, with whether they succeeded.\<close>

definition extend_log :: "vault \<Rightarrow> int \<Rightarrow> event list \<Rightarrow> bool" where
  "extend_log v n es \<longleftrightarrow> es = [Ran (Cmd True (fallocate_argv n (v_path v)) []) True]
     \<or> (\<exists>sz. es = [Ran (Cmd True (fallocate_argv n (v_path v)) []) False,
            Ran (Cmd True (append_argv (v_path v) sz (wrap64 (n - v_size v))) []) True])"

text \<open>
  C38: A growth runs nothing unless the new size is larger; when it succeeds it has extended the
  image first, then resized the LUKS device, then the file system, each step after the previous
  one succeeded. (Sizes within 2^62 GB, so that the difference is exact.)
\<close>
theorem grow_order:
  assumes "0 \<le> n" "n < 2 ^ 62" and "0 \<le> v_size v" "v_size v < 2 ^ 62"
  shows "if n \<le> v_size v then fst (Grow H v n key s) \<noteq> None \<and> snd (Grow H v n key s) = s
    else fst (Grow H v n key s) \<noteq> None
      \<or> (\<exists>ext. extend_log v n ext \<and> log_since s (snd (Grow H v n key s)) = ext
            @ [Ran (Cmd True (resize_argv v key) key) True, Ran (Cmd True [''resize2fs'', mapper_path (v_mapper v)] []) True])"
proof -
  have w: "wrap64 (n - v_size v) = n - v_size v" using assms by (intro wrap64_id) (simp add: in_int64_def)
  show ?thesis
  proof (cases "n \<le> v_size v")
    case True
    then show ?thesis by (simp add: Grow_def Let_def w)
  next
    case False
    obtain out e s1 where f: "run H (Cmd True (fallocate_argv n (v_path v)) []) s = ((out, e), s1)" by (metis surj_pair)
    note fD = runD [OF f]
    show ?thesis
    proof (cases "fst (Grow H v n key s)")
      case None
      then have sp: "checkDiskSpace H (v_path v) (n - v_size v) s = None"
        using False by (auto simp: Grow_def Let_def w split: option.splits)
      have "\<exists>s2 ext. extend_log v n ext \<and> sevents s2 = sevents s @ ext \<and> Grow H v n key s = grow_device H v key s2"
      proof (cases e)
        case None
        then show ?thesis using False sp f fD by (auto simp: Grow_def Let_def w extend_log_def)
      next
        case (Some x)
        obtain r2 s2 where a: "appendFile H (v_path v) (n - v_size v) s1 = (r2, s2)" by fastforce
        have "r2 = None" using \<open>fst (Grow H v n key s) = None\<close> False sp f Some a
          by (auto simp: Grow_def Let_def w split: option.splits)
        then show ?thesis using False sp f fD Some a appendFileD [OF a] by (auto simp: Grow_def Let_def w extend_log_def)
      qed
      then obtain s2 ext where g: "extend_log v n ext" "sevents s2 = sevents s @ ext" "Grow H v n key s = grow_device H v key s2"
        by blast
      obtain r s3 where gd: "grow_device H v key s2 = (r, s3)" by fastforce
      have "r = None" using None g(3) gd by simp
      then have "log_since s (snd (Grow H v n key s)) = ext
            @ [Ran (Cmd True (resize_argv v key) key) True, Ran (Cmd True [''resize2fs'', mapper_path (v_mapper v)] []) True]"
        using grow_deviceD [OF gd] g gd by (auto intro: log_since_eq)
      then show ?thesis using False g(1) by auto
    qed (use False in simp)
  qed
qed

theorem grow_order_witness:
  "fst (Grow sim_host sim_vault 1 ''correct horse'' (sim_state sim0)) \<noteq> None
   \<and> snd (Grow sim_host sim_vault 1 ''correct horse'' (sim_state sim0)) = sim_state sim0"
  using grow_order [of 1 sim_vault sim_host "''correct horse''" "sim_state sim0"] by (simp add: sim_vault_def)



text \<open>
  The progress a \<open>dd\<close> tick reports lies between 0 and 60 percent and never goes back while
  the file grows.
\<close>
lemma dd_percent_bounds:
  assumes "0 \<le> a" "a \<le> b" and "0 < size_total"
  shows "0 \<le> dd_percent a size_total \<and> dd_percent a size_total \<le> dd_percent b size_total \<and> dd_percent b size_total \<le> 60"
proof -
  have "a * 60 div size_total \<le> b * 60 div size_total" using assms by (intro zdiv_mono1) simp_all
  moreover have "0 \<le> a * 60 div size_total" using assms by (simp add: pos_imp_zdiv_nonneg_iff)
  ultimately show ?thesis using assms by (simp add: dd_percent_def Let_def go_div_nonneg)
qed

section \<open>Credentials\<close>




end
