(* ===== verification/ApiCorrect.thy ===== *)
theory ApiCorrect
  imports Reservations VaultCorrect
begin

text \<open>
  The properties of the handlers of \<open>internal/api\<close>: who is let in, tokens and sessions, request
  validation, rate limits, keyslot and delete safety, imports and the auto-lock policy.
\<close>

section \<open>A concrete server\<close>

text \<open>A limiter that counts to five, and the identity for the hash, for the witnesses.\<close>

definition sim_lib :: "nat lib" where
  "sim_lib = \<lparr>lim_new = (\<lambda>_ n. n), lim_allow = (\<lambda>_ n. (0 < n, n - 1)), sha256 = (\<lambda>x. x),
     url_host = (\<lambda>u. Some (drop 7 u)), luks = no_lib\<rparr>"

definition sim_config :: config where
  "sim_config = \<lparr>c_storage = [''/vaults''], c_mounts = [''/mnt''], c_user = ''admin'', c_pass = ''pw'', c_max_gb = 100,
     c_proxy = False, c_window = Some 100, c_idle = 50, c_max_age = 500\<rparr>"

definition sim_server :: "sim \<Rightarrow> (sim, nat) hstate" where
  "sim_server w = \<lparr>sworld = w, sevents = [], sdb = sim_db, jobs = Map.empty, pendingNames = {}, pendingPaths = {},
     unlockLimiters = Map.empty, authLimiters = Map.empty, sessions = Map.empty, unlockedAt = []\<rparr>"

definition sim_request :: "string \<Rightarrow> string list \<Rightarrow> (string \<times> string) list \<Rightarrow> request" where
  "sim_request m p hs = \<lparr>r_method = m, r_path = p, r_host = ''vault.local'', r_remote = ''10.0.0.7:4711'',
     r_header = (\<lambda>h. case map_of hs h of Some v \<Rightarrow> v | None \<Rightarrow> []), r_cookies = [], r_tls = False, r_id = []\<rparr>"

lemma sim_db_ok: "db_ok sim_db"
  by (simp add: db_ok_def keys_ok_defs sim_db_def sim_vault_def)

section \<open>Authentication\<close>

definition live_session :: "'w host \<Rightarrow> config \<Rightarrow> request \<Rightarrow> ('w, 'l) hstate \<Rightarrow> bool" where
  "live_session H cfg r s \<longleftrightarrow> (\<exists>c x. request_cookie r = Some c \<and> c \<noteq> [] \<and> sessions s c = Some x
     \<and> h_now H (sworld s) - se_seen x \<le> c_idle cfg \<and> h_now H (sworld s) - se_created x \<le> c_max_age cfg)"

lemma live_session_iff: "fst (validSession H cfg r s) = live_session H cfg r s"
  unfolding validSession_iff live_session_def session_expired_def by (simp add: not_less)

lemma GetAPITokenByHash_works:
  assumes "\<forall>w. fst (h_sql H QueryTokenByHash w) = None"
  shows "\<exists>s1. GetAPITokenByHash H h s = (select_token_by_hash h (sdb s), s1)"
proof -
  obtain w where "h_sql H QueryTokenByHash (sworld s) = (None, w)" using assms by (metis prod.collapse)
  then show ?thesis by (simp add: GetAPITokenByHash_def sql_def)
qed

lemma validAPICredentials_exact:
  assumes "\<forall>w. fst (h_sql H QueryTokenByHash w) = None"
  shows "snd (snd (fst (validAPICredentials H lib cfg r s))) \<longleftrightarrow>
    basic_auth r = Some (c_user cfg, c_pass cfg)
    \<or> (\<exists>tok t. offered_token cfg r = Some tok \<and> select_token_by_hash (hashToken lib tok) (sdb s) = Inr t)"
proof (cases "prefix ''Bearer '' (r_header r ''Authorization'')")
  case True
  let ?tok = "trim_space (trim_prefix (r_header r ''Authorization'') ''Bearer '')"
  obtain s1 where g: "GetAPITokenByHash H (hashToken lib ?tok) s = (select_token_by_hash (hashToken lib ?tok) (sdb s), s1)"
    using GetAPITokenByHash_works [OF assms] by blast
  have "basic_auth r \<noteq> Some x" for x using basic_not_bearer True by blast
  then show ?thesis using True g
    by (cases "select_token_by_hash (hashToken lib ?tok) (sdb s)")
      (simp_all add: validAPICredentials_def offered_token_def Let_def)
next
  case False
  show ?thesis
  proof (cases "basic_auth r")
    case None
    then show ?thesis using False by (simp add: validAPICredentials_def offered_token_def Let_def)
  next
    case (Some up)
    obtain u p where up: "up = (u, p)" by fastforce
    obtain s1 where g: "GetAPITokenByHash H (hashToken lib p) s = (select_token_by_hash (hashToken lib p) (sdb s), s1)"
      using GetAPITokenByHash_works [OF assms] by blast
    show ?thesis using False Some up g
      by (cases "select_token_by_hash (hashToken lib p) (sdb s)")
        (auto simp: validAPICredentials_def offered_token_def validCredentials_def Let_def)
  qed
qed

text \<open>Who a request speaks for: a live session, the master credentials, or a stored token.\<close>

definition admitted :: "'w host \<Rightarrow> 'l lib \<Rightarrow> config \<Rightarrow> request \<Rightarrow> ('w, 'l) hstate \<Rightarrow> bool" where
  "admitted H lib cfg r s \<longleftrightarrow> live_session H cfg r s \<or> basic_auth r = Some (c_user cfg, c_pass cfg)
     \<or> (\<exists>tok t. offered_token cfg r = Some tok \<and> t \<in> set (tokens (sdb s)) \<and> t_hash t = hashToken lib tok)"

lemma auth_pass_admitted:
  assumes "db_ok (sdb s)" and "\<forall>w. fst (h_sql H QueryTokenByHash w) = None"
  shows "fst (auth H lib cfg r s) = None \<longleftrightarrow> admitted H lib cfg r s"
proof -
  have sdb: "sdb (snd (validSession H cfg r s)) = sdb s"
    using validSessionD [of H cfg r s] by (metis prod.collapse)
  show ?thesis
    unfolding admitted_def auth_pass_iff live_session_iff validAPICredentials_exact [OF assms(2)] sdb
      select_token_by_hash_iff [OF assms(1)]
    by blast
qed

text \<open>
  C3: The authentication lets exactly three kinds of request through: with the cookie of a session
  that is neither idle nor too old, with the master credentials, or with a token whose hash is in
  the database. (The database answers queries.)
\<close>
theorem auth_exact:
  assumes "db_ok (sdb s)" and "\<forall>w. fst (h_sql H QueryTokenByHash w) = None"
  shows "fst (auth H lib cfg r s) = None \<longleftrightarrow>
    live_session H cfg r s \<or> basic_auth r = Some (c_user cfg, c_pass cfg)
    \<or> (\<exists>tok t. offered_token cfg r = Some tok \<and> t \<in> set (tokens (sdb s)) \<and> t_hash t = hashToken lib tok)"
  using auth_pass_admitted [OF assms] unfolding admitted_def .

theorem auth_exact_witness:
  "fst (auth sim_host sim_lib sim_config (sim_request ''GET'' [''api'', ''vaults''] [(''Authorization'', ''basic YWRtaW46cHc='')]) (sim_server sim0)) = None"
proof -
  let ?r = "sim_request ''GET'' [''api'', ''vaults''] [(''Authorization'', ''basic YWRtaW46cHc='')]"
  have "db_ok (sdb (sim_server sim0))" by (simp add: sim_server_def sim_db_ok)
  moreover have "\<forall>w. fst (h_sql sim_host QueryTokenByHash w) = None" by (simp add: sim_host_def)
  moreover have "basic_auth ?r = Some (c_user sim_config, c_pass sim_config)" by code_simp
  ultimately show ?thesis using auth_exact [of "sim_server sim0" sim_host sim_lib sim_config ?r] by blast
qed

text \<open>
  C29: The failure throttle never decides whether a request passes: with any state of the
  limiters, the same requests pass. A guess of the master password is answered at once, right or
  wrong, however many failures came before; only the status of a wrong one changes.
\<close>
theorem auth_ignores_throttle:
  "fst (auth H lib cfg r (s\<lparr>authLimiters := m\<rparr>)) = None \<longleftrightarrow> fst (auth H lib cfg r s) = None"
  by (auto simp: auth_pass_iff validSession_frame validAPICredentials_frame split: prod.splits)

text \<open>
  C23: A session ends: a cookie is good only within the idle time of its last use and within the
  maximum age of its login; using it moves the last use and never the login, and a cookie that
  expired is dropped.
\<close>
theorem session_expiry:
  "fst (validSession H cfg r s) = live_session H cfg r s
   \<and> sessions (snd (validSession H cfg r s)) =
       (case request_cookie r of
          None \<Rightarrow> sessions s
        | Some c \<Rightarrow> if c = [] then sessions s
            else (sessions s)(c := if live_session H cfg r s
              then map_option (\<lambda>x. x\<lparr>se_seen := h_now H (sworld s)\<rparr>) (sessions s c) else None))"
proof (intro conjI live_session_iff)
  show "sessions (snd (validSession H cfg r s)) =
       (case request_cookie r of
          None \<Rightarrow> sessions s
        | Some c \<Rightarrow> if c = [] then sessions s
            else (sessions s)(c := if live_session H cfg r s
              then map_option (\<lambda>x. x\<lparr>se_seen := h_now H (sworld s)\<rparr>) (sessions s c) else None))"
    unfolding live_session_iff [symmetric]
    by (auto simp: validSession_def Let_def fun_eq_iff split: option.splits)
qed

text \<open>
  The periodic removal of expired sessions is invisible: whenever it ran before, a request is
  accepted or refused as if it had not.
\<close>
lemma session_sweep_invisible:
  assumes "t \<le> h_now H (sworld s)"
  shows "fst (validSession H cfg r (s\<lparr>sessions := sweep (session_expired cfg t) (sessions s)\<rparr>)) = fst (validSession H cfg r s)"
proof -
  let ?s' = "s\<lparr>sessions := sweep (session_expired cfg t) (sessions s)\<rparr>"
  have "sessions ?s' c = Some x \<and> \<not> session_expired cfg (h_now H (sworld s)) x
      \<longleftrightarrow> sessions s c = Some x \<and> \<not> session_expired cfg (h_now H (sworld s)) x" for c x
    using session_table.sweep_Some [of cfg t "sessions s" c x]
      session_table.old_later [of cfg t x "h_now H (sworld s)"] assms
    by auto
  moreover have "sworld ?s' = sworld s" by simp
  ultimately show ?thesis unfolding validSession_iff by metis
qed

section \<open>API tokens\<close>








end
