(* ===== verification/RequestCorrect.thy ===== *)
theory RequestCorrect
  imports ApiCorrect
begin

text \<open>
  The properties of the vault endpoints of \<open>internal/api\<close>: rate limits and client addresses,
  uploaded key files, imports, keyslot removal and deletion.
\<close>

section \<open>Rate limits\<close>

text \<open>
  C33: Every endpoint that tries a vault credential (unlock, keyslot add and remove, grow) is
  behind the same limiter: when a client's budget is spent each of them answers 429 before it
  looks at anything else, and nothing but the limiter's table changes.
\<close>
theorem credential_throttled:
  assumes "unlockAllowed H lib cfg r s = (False, s1)"
  shows "s1 = s\<lparr>unlockLimiters := unlockLimiters s1\<rparr>
    \<and> unlockVault H lib cfg r b1 s = (jsonErr TooManyUnlocks 429, s1)
    \<and> keyslotAdd H lib cfg r b2 s = (jsonErr TooManyAttempts 429, s1)
    \<and> keyslotRemove H lib cfg r b3 s = (jsonErr TooManyAttempts 429, s1)
    \<and> growVault H lib cfg r b4 s = (jsonErr TooManyAttempts 429, s1)"
proof -
  have "s1 = s\<lparr>unlockLimiters := unlockLimiters s1\<rparr>"
    using assms by (auto simp: unlockAllowed_def split: prod.splits)
  moreover have "unlockVault H lib cfg r b1 s = (jsonErr TooManyUnlocks 429, s1)"
    "keyslotAdd H lib cfg r b2 s = (jsonErr TooManyAttempts 429, s1)"
    by (simp_all add: unlockVault_def unlock_prepare_def keyslotAdd_def keyslotAdd_prepare_def assms)
  moreover have "keyslotRemove H lib cfg r b3 s = (jsonErr TooManyAttempts 429, s1)"
    "growVault H lib cfg r b4 s = (jsonErr TooManyAttempts 429, s1)"
    by (simp_all add: keyslotRemove_def keyslotRemove_prepare_def growVault_def grow_prepare_def assms)
  ultimately show ?thesis by simp
qed

text \<open>A client that has spent its burst of five.\<close>

definition spent_server :: "(sim, nat) hstate" where
  "spent_server = (sim_server sim0)\<lparr>unlockLimiters := [''10.0.0.7'' \<mapsto> \<lparr>le_limiter = 0, le_seen = 0\<rparr>]\<rparr>"

theorem credential_throttled_witness:
  "status (fst (unlockVault sim_host sim_lib sim_config (sim_request ''POST'' [] []) (Some \<lparr>q_pass = ''correct horse'', q_keyfile = []\<rparr>)
     spent_server)) = 429"
proof -
  let ?r = "sim_request ''POST'' [] []" and ?b = "Some \<lparr>q_pass = ''correct horse'', q_keyfile = []\<rparr>"
  have "fst (unlockAllowed sim_host sim_lib sim_config ?r spent_server) = False" by code_simp
  then have "unlockAllowed sim_host sim_lib sim_config ?r spent_server =
      (False, snd (unlockAllowed sim_host sim_lib sim_config ?r spent_server))"
    by (metis prod.collapse)
  from credential_throttled [OF this, of ?b None None None] show ?thesis by (simp add: jsonErr_def reply_def)
qed

lemma split_last: "sep \<notin> set b \<Longrightarrow> last (split_on sep (a @ sep # b)) = b"
  by (simp add: split_on_append_sep split_on_no_sep)

text \<open>
  C34: A client cannot choose the address it is counted under. Without a trusted proxy no header
  matters; behind one, the address is the last entry, the one the proxy appends, whatever the
  client put before it.
\<close>
theorem client_address:
  assumes "ip \<noteq> []" and "trim_space ip = ip" and "CHR '','' \<notin> set ip"
  shows "clientIP (r\<lparr>r_header := h\<rparr>) False = clientIP r False
    \<and> clientIP (r\<lparr>r_header := h(''X-Forwarded-For'' := ip)\<rparr>) True = ip
    \<and> clientIP (r\<lparr>r_header := h(''X-Forwarded-For'' := forged @ '','' @ ip)\<rparr>) True = ip"
  using assms by (simp add: clientIP_def Let_def split_last split_on_no_sep split: option.split)

theorem client_address_witness:
  "clientIP (sim_request ''GET'' [[]] [(''X-Forwarded-For'', ''1.2.3.4,203.0.113.9'')]) True = ''203.0.113.9''"
proof -
  let ?r = "sim_request ''GET'' [[]] [(''X-Forwarded-For'', ''1.2.3.4,203.0.113.9'')]"
  let ?h = "(r_header ?r)(''X-Forwarded-For'' := ''1.2.3.4'' @ '','' @ ''203.0.113.9'')"
  have "''203.0.113.9'' \<noteq> []" "trim_space ''203.0.113.9'' = ''203.0.113.9''" "CHR '','' \<notin> set ''203.0.113.9''"
    by (code_simp, code_simp, simp)
  from client_address [OF this, where r = ?r and h = "r_header ?r" and forged = "''1.2.3.4''"]
  have "clientIP (?r\<lparr>r_header := ?h\<rparr>) True = ''203.0.113.9''" by blast
  moreover have "?r\<lparr>r_header := ?h\<rparr> = ?r" by (simp add: sim_request_def fun_eq_iff)
  ultimately show ?thesis by simp
qed

section \<open>Key files\<close>

text \<open>
  C36: A key file survives the upload byte for byte, exactly when it has 8 bytes to 1 MiB; any
  other is refused with the bound it misses.
\<close>
theorem keyfile_roundtrip:
  "decodeKeyFile (b64_encode bs) =
     (if 8 \<le> length bs \<and> length bs \<le> 1048576 then Inr bs
      else if length bs < 8 then Inl ''key_file must be at least 8 bytes''
      else Inl ''key_file exceeds maximum size of 1048576 bytes'')"
proof -
  have "itoa 8 = ''8''" "itoa 1048576 = ''1048576''" by (simp_all add: itoa_def nat_dec.simps digit_char_def, code_simp+)
  then show ?thesis by (simp add: decodeKeyFile_def b64_decode_encode MinKeyFileSize_def MaxKeyFileSize_def)
qed

section \<open>Imports\<close>

text \<open>A path that \<open>Clean\<close> makes absolute was absolute.\<close>

lemma clean_step_ordinary:
  "\<forall>w \<in> set stk. w \<noteq> [] \<and> slash \<notin> set w \<Longrightarrow> slash \<notin> set c \<Longrightarrow>
     \<forall>w \<in> set (clean_step r stk c). w \<noteq> [] \<and> slash \<notin> set w"
  by (auto simp: clean_step_def split: list.splits if_splits)

lemma clean_stack_ordinary:
  assumes "\<forall>c \<in> set cs. slash \<notin> set c"
  shows "\<forall>w \<in> set (clean_stack r cs). w \<noteq> [] \<and> slash \<notin> set w"
proof -
  have "\<forall>w \<in> set stk. w \<noteq> [] \<and> slash \<notin> set w \<Longrightarrow>
      \<forall>w \<in> set (foldl (clean_step r) stk cs). w \<noteq> [] \<and> slash \<notin> set w" for stk
    using assms
  proof (induction cs arbitrary: stk)
    case (Cons c cs)
    have "\<forall>w \<in> set (clean_step r stk c). w \<noteq> [] \<and> slash \<notin> set w"
      by (rule clean_step_ordinary [OF Cons.prems(1)]) (use Cons.prems(2) in simp)
    then show ?case unfolding foldl.simps by (rule Cons.IH) (use Cons.prems(2) in simp)
  qed simp
  from this [of "[]"] show ?thesis by (simp add: clean_stack_def)
qed

lemma rooted_join_with: "ws \<noteq> [] \<Longrightarrow> \<forall>w \<in> set ws. w \<noteq> [] \<and> slash \<notin> set w \<Longrightarrow> \<not> rooted (join_with slash ws)"
  by (cases ws; cases "tl ws"; cases "hd ws") (simp_all add: rooted_iff, metis+)

lemma rooted_of_clean:
  assumes "rooted (clean p)"
  shows "rooted p"
proof (rule ccontr)
  assume n: "\<not> rooted p"
  let ?ws = "rev (clean_stack False (split_on slash p))"
  have ws: "\<forall>w \<in> set ?ws. w \<noteq> [] \<and> slash \<notin> set w"
    using clean_stack_ordinary [of "split_on slash p" False] split_on_pieces by auto
  have "clean p = ''.'' \<or> ?ws \<noteq> [] \<and> clean p = join_with slash ?ws"
    using n by (auto simp: clean_def Let_def)
  then show False using assms rooted_join_with [OF _ ws] by (auto simp: rooted_iff)
qed

lemma rooted_trim_suffix: "rooted d \<Longrightarrow> trim_suffix d ''/'' \<noteq> [] \<Longrightarrow> rooted (trim_suffix d ''/'')"
  by (cases d) (auto simp: rooted_iff trim_suffix_def suffix_def take_Cons' split: if_splits)

lemma rooted_prefix: "prefix d p \<Longrightarrow> rooted d \<Longrightarrow> rooted p"
  by (auto simp: rooted_iff prefix_def)

text \<open>
  C16: An import stays inside the allowed storage directories: the accepted path is canonical,
  has no \<open>..\<close> component, lies below one of them, and stays below it when both can be resolved
  through their symbolic links. (The storage directories are absolute paths.)
\<close>
theorem import_path_contained:
  assumes "\<forall>d \<in> set (c_storage cfg). rooted d" and "check_import H cfg (Some q) s = Inr q'"
  shows "clean (q_im_path q') = q_im_path q' \<and> ''..'' \<notin> set (split_on slash (q_im_path q'))
    \<and> (\<exists>d \<in> set (c_storage cfg). prefix (trim_suffix d ''/'' @ ''/'') (q_im_path q')
         \<and> (case (h_symlinks H (trim_suffix d ''/'') (sworld s), h_symlinks H (q_im_path q') (sworld s)) of
              (Some dir, Some file) \<Rightarrow> prefix (dir @ ''/'') file | _ \<Rightarrow> True))"
proof -
  let ?p = "clean (q_im_path q)"
  have q': "q_im_path q' = ?p" and m: "storage_match (\<lambda>x. h_symlinks H x (sworld s)) ?p (c_storage cfg)"
    using assms(2) by (auto simp: check_import_def pathInStorageDir_def Let_def split: if_splits bool.splits)
  obtain d where d: "d \<in> set (c_storage cfg)" "trim_suffix d ''/'' \<noteq> []" "prefix (trim_suffix d ''/'' @ ''/'') ?p"
    and links: "\<forall>rd rf. h_symlinks H (trim_suffix d ''/'') (sworld s) = Some rd
        \<and> h_symlinks H ?p (sworld s) = Some rf \<longrightarrow> prefix (rd @ ''/'') rf"
    using storage_match_True [OF m] by blast
  have "rooted (trim_suffix d ''/'')" using assms(1) d rooted_trim_suffix by blast
  then have r: "rooted ?p" using d(3) rooted_prefix append_prefixD by blast
  then have rq: "rooted (q_im_path q)" by (rule rooted_of_clean)
  have cs: "list_all plain_comp (clean_comps (q_im_path q))" using clean_comps_plain [OF rq] .
  have "split_on slash ?p = (if clean_comps (q_im_path q) = [] then [[], []] else [] # clean_comps (q_im_path q))"
    using clean_rooted [OF rq] split_join_plain [OF cs] by simp
  then have "''..'' \<notin> set (split_on slash ?p)" using cs by (auto simp: list_all_iff plain_comp_def)
  then show ?thesis using d links clean_idem_rooted [OF rq] unfolding q' by (auto split: option.splits)
qed

definition sim_import :: import_req where
  "sim_import = \<lparr>q_im_name = ''b'', q_im_path = ''/vaults/old/../b.img'', q_im_mount = ''/mnt''\<rparr>"

theorem import_path_contained_witness:
  "''..'' \<notin> set (split_on slash ''/vaults/b.img'')
    \<and> check_import sim_host sim_config (Some sim_import) (sim_server sim0) = Inr (sim_import\<lparr>q_im_path := ''/vaults/b.img''\<rparr>)"
proof -
  have "\<forall>d \<in> set (c_storage sim_config). rooted d" by (simp add: sim_config_def rooted_iff)
  moreover have c: "check_import sim_host sim_config (Some sim_import) (sim_server sim0) =
      Inr (sim_import\<lparr>q_im_path := ''/vaults/b.img''\<rparr>)" by code_simp
  ultimately show ?thesis using import_path_contained [of sim_config sim_host sim_import "sim_server sim0"] by fastforce
qed

lemma import_conflict_None:
  "import_conflict name path vs = None \<longleftrightarrow> (\<forall>v \<in> set vs. v_name v \<noteq> name \<and> v_path v \<noteq> path)"
  by (induction vs) auto

lemma import_conflict_status: "import_conflict name path vs = Some e \<Longrightarrow> status e = 409"
  by (induction vs) (auto simp: jsonErr_def reply_def split: if_splits)

text \<open>The size in the record is the file's size rounded up to whole GiB.\<close>

lemma ceil_gb_bounds:
  assumes "0 \<le> n" and "n \<le> 2 ^ 62"
  shows "n \<le> ceil_gb n * gib \<and> ceil_gb n * gib < n + gib"
proof -
  have i: "in_int64 (n + gib - 1)" using assms by (simp add: in_int64_def gib_def)
  have c: "ceil_gb n = (n + gib - 1) div gib"
    using assms wrap64_id [OF i] by (simp add: ceil_gb_def go_div_nonneg gib_def)
  have "ceil_gb n * gib = n + gib - 1 - (n + gib - 1) mod gib"
    unfolding c by (rule minus_mod_eq_div_mult [symmetric])
  moreover have "(n + gib - 1) mod gib < gib" "0 \<le> (n + gib - 1) mod gib" by (simp_all add: gib_def)
  ultimately show ?thesis by linarith
qed

lemma import_locked_201:
  assumes "import_locked H lib q s = (resp, s')" and "status resp = 201"
  obtains s1 es s2 d bytes v where
    "q_im_name q \<notin> pendingNames s" "q_im_path q \<notin> pendingPaths s"
    "ListVaults H s = (Inr es, s1)" "import_conflict (q_im_name q) (q_im_path q) es = None"
    "\<not> exists H (mapper_path (q_im_name q)) s1"
    "DumpDetails H (luks lib) (import_probe (q_im_name q) (q_im_path q)) s1 = (Inr d, s2)"
    "h_stat H (q_im_path q) (sworld s2) = Inr bytes"
    "CreateVault H (q_im_name q) (q_im_path q) (ceil_gb bytes) (q_im_mount q @ ''/'' @ q_im_name q) (q_im_name q) s2
       = (Inr v, s')"
  using assms
  by (auto simp: import_locked_def Let_def jsonErr_def reply_def split: if_splits prod.splits sum.splits option.splits
      dest!: import_conflict_status)

text \<open>With nothing in the way, an import succeeds.\<close>

lemma import_succeeds:
  assumes "q_im_name q \<notin> pendingNames s" "q_im_path q \<notin> pendingPaths s"
    and "ListVaults H s = (Inr es, s1)" "import_conflict (q_im_name q) (q_im_path q) es = None"
    and "\<not> exists H (mapper_path (q_im_name q)) s1"
    and "is_ok (fst (DumpDetails H (luks lib) (import_probe (q_im_name q) (q_im_path q)) s1))"
    and "s2 = snd (DumpDetails H (luks lib) (import_probe (q_im_name q) (q_im_path q)) s1)"
    and "h_stat H (q_im_path q) (sworld s2) = Inr n"
    and "is_ok (fst (CreateVault H (q_im_name q) (q_im_path q) (ceil_gb n) (q_im_mount q @ ''/'' @ q_im_name q) (q_im_name q) s2))"
  shows "status (fst (import_locked H lib q s)) = 201"
proof -
  obtain d where "fst (DumpDetails H (luks lib) (import_probe (q_im_name q) (q_im_path q)) s1) = Inr d"
    using assms(6) unfolding is_ok_iff ..
  then have d: "DumpDetails H (luks lib) (import_probe (q_im_name q) (q_im_path q)) s1 = (Inr d, s2)"
    using assms(7) by (simp add: prod_eq_iff)
  let ?c = "CreateVault H (q_im_name q) (q_im_path q) (ceil_gb n) (q_im_mount q @ ''/'' @ q_im_name q) (q_im_name q) s2"
  obtain v where "fst ?c = Inr v" using assms(9) unfolding is_ok_iff ..
  then obtain t where "?c = (Inr v, t)" by (metis prod.collapse)
  from this assms(1-5,8) d show ?thesis by (simp add: import_locked_def Let_def reply_def)
qed

text \<open>
  C32: An import that succeeds registers an identity nobody else has: neither a creation in
  flight nor any record uses the name or the image, and the new record, under a fresh id, names
  that image with the size its file has, rounded up to whole GiB.
\<close>
theorem import_registers:
  assumes "db_ok (sdb s)" and "import_locked H lib q s = (resp, s')" and "status resp = 201"
  shows "q_im_name q \<notin> pendingNames s \<and> q_im_path q \<notin> pendingPaths s
    \<and> (\<forall>u \<in> set (vaults (sdb s)). v_name u \<noteq> q_im_name q \<and> v_path u \<noteq> q_im_path q)
    \<and> (\<exists>v w n. vaults (sdb s') = vaults (sdb s) @ [v] \<and> v_id v \<notin> v_id ` set (vaults (sdb s))
         \<and> v_name v = q_im_name q \<and> v_path v = q_im_path q \<and> v_mapper v = q_im_name q
         \<and> v_mount v = q_im_mount q @ ''/'' @ q_im_name q
         \<and> h_stat H (q_im_path q) w = Inr n \<and> v_size v = ceil_gb n
         \<and> (0 \<le> n \<and> n \<le> 2 ^ 62 \<longrightarrow> n \<le> v_size v * gib \<and> v_size v * gib < n + gib))"
proof -
  from assms(2,3) obtain s1 es s2 d n x where
    free: "q_im_name q \<notin> pendingNames s" "q_im_path q \<notin> pendingPaths s"
    and l: "ListVaults H s = (Inr es, s1)" "import_conflict (q_im_name q) (q_im_path q) es = None"
      "\<not> exists H (mapper_path (q_im_name q)) s1"
    and dd: "DumpDetails H (luks lib) (import_probe (q_im_name q) (q_im_path q)) s1 = (Inr d, s2)"
    and sz: "h_stat H (q_im_path q) (sworld s2) = Inr n"
    and c: "CreateVault H (q_im_name q) (q_im_path q) (ceil_gb n) (q_im_mount q @ ''/'' @ q_im_name q) (q_im_name q) s2
       = (Inr x, s')" by (rule import_locked_201)
  have es: "es = select_vaults (sdb s)" "sdb s1 = sdb s" using ListVaultsD [OF l(1)] by simp_all
  have s2: "sdb s2 = sdb s" using quiet_dump [OF dd] es by (simp add: quiet_def)
  obtain now where ins: "insert_vault now (q_im_name q) (q_im_path q) (ceil_gb n) (q_im_mount q @ ''/'' @ q_im_name q)
      (q_im_name q) (sdb s) = Inr (v_id x, sdb s')" using CreateVault_Inr [OF c] s2 by auto
  let ?v = "new_vault_row now (q_im_name q) (q_im_path q) (ceil_gb n) (q_im_mount q @ ''/'' @ q_im_name q) (q_im_name q) (sdb s)"
  have "vaults (sdb s') = vaults (sdb s) @ [?v]" using ins by (simp add: insert_vault_Inr)
  moreover have "v_id ?v \<notin> v_id ` set (vaults (sdb s))"
    using assms(1) by (force simp: db_ok_def vt.keys_ok_def new_vault_row_def)
  moreover have "v_name ?v = q_im_name q \<and> v_path ?v = q_im_path q \<and> v_mapper ?v = q_im_name q
      \<and> v_mount ?v = q_im_mount q @ ''/'' @ q_im_name q \<and> v_size ?v = ceil_gb n" by (simp add: new_vault_row_def)
  moreover have "\<forall>u \<in> set (vaults (sdb s)). v_name u \<noteq> q_im_name q \<and> v_path u \<noteq> q_im_path q"
    using l(2) es(1) by (simp add: import_conflict_None)
  ultimately show ?thesis using free sz ceil_gb_bounds [of n] by metis
qed

text \<open>A host that answers every dump with two enabled keyslots and holds a second image.\<close>

definition sim_luks :: sim where
  "sim_luks = sim0\<lparr>sm_output := (\<lambda>_. unlines [''Version: 1'', ''Key Slot 0: ENABLED'', ''Key Slot 3: ENABLED'']),
     sm_files := (''/vaults/b.img'', 1073741825) # sm_files sim0\<rparr>"

definition sim_listed :: "(db_error + vault list) \<times> (sim, nat) hstate" where
  "sim_listed = ListVaults sim_host (sim_server sim_luks)"

definition sim_ready :: import_req where
  "sim_ready = sim_import\<lparr>q_im_path := ''/vaults/b.img''\<rparr>"

definition sim_probed :: "(string + luks_details) \<times> (sim, nat) hstate" where
  "sim_probed = DumpDetails sim_host (luks sim_lib) (import_probe (q_im_name sim_ready) (q_im_path sim_ready)) (snd sim_listed)"

lemma sim_import_201: "status (fst (import_locked sim_host sim_lib sim_ready (sim_server sim_luks))) = 201"
proof (rule import_succeeds [where es = "[sim_vault]" and ?s1.0 = "snd sim_listed" and ?s2.0 = "snd sim_probed" and n = 1073741825])
  show "ListVaults sim_host (sim_server sim_luks) = (Inr [sim_vault], snd sim_listed)"
    by (rule prod_eqI) (code_simp, simp add: sim_listed_def)
  show "snd sim_probed = snd (DumpDetails sim_host (luks sim_lib)
      (import_probe (q_im_name sim_ready) (q_im_path sim_ready)) (snd sim_listed))"
    by (simp add: sim_probed_def)
qed code_simp+

theorem import_registers_witness:
  "status (fst (import_locked sim_host sim_lib sim_ready (sim_server sim_luks))) = 201
   \<and> ''b'' \<notin> v_name ` set (vaults (sdb (sim_server sim_luks)))"
proof -
  have "db_ok (sdb (sim_server sim_luks))" by (simp add: sim_server_def sim_db_ok)
  then have "\<forall>u \<in> set (vaults (sdb (sim_server sim_luks))). v_name u \<noteq> q_im_name sim_ready"
    using import_registers [OF _ prod.collapse [symmetric] sim_import_201] by blast
  then show ?thesis using sim_import_201 by (auto simp: sim_import_def sim_ready_def)
qed

section \<open>Keyslots\<close>

definition kills_slot :: "event \<Rightarrow> bool" where
  "kills_slot e \<longleftrightarrow> (case e of Ran c ok \<Rightarrow> take 2 (argv c) = [''cryptsetup'', ''luksKillSlot''] | _ \<Rightarrow> False)"

lemma dump_kills_nothing: "c \<in> dump_cmds v \<Longrightarrow> \<not> kills_slot (Ran c ok)"
  by (auto simp: dump_cmds_def kills_slot_def)

lemma dump_log:
  assumes "DumpDetails H L v s = (r, s')"
  obtains es where "sevents s' = sevents s @ es" "\<forall>e \<in> set es. \<not> kills_slot e"
proof -
  obtain es where es: "sevents s' = sevents s @ es" "\<forall>e \<in> set es. \<exists>c ok. c \<in> dump_cmds v \<and> e = Ran c ok"
    using DumpDetailsD [OF assms] by (elim conjE exE)
  show thesis
  proof (rule that [OF es(1)], rule ballI)
    fix e assume "e \<in> set es"
    with es(2) obtain c ok where "c \<in> dump_cmds v" "e = Ran c ok" by meson
    then show "\<not> kills_slot e" using dump_kills_nothing by simp
  qed
qed

text \<open>
  C6: Removing a keyslot never locks everyone out: the command that kills a slot is run only when
  the header just read under the lock shows the slot valid and another valid slot beside it, and
  at most once per request.
\<close>
theorem keyslot_remove_safe:
  assumes "keyslotRemove_locked H lib v c k s = (resp, s')" and "e \<in> set (log_since s s')" and "kills_slot e"
  shows "(\<exists>d s1. DumpDetails H (luks lib) v s = (Inr d, s1)
      \<and> (\<exists>x \<in> set (d_slots d). valid_slot x \<and> ks_index x = k) \<and> 2 \<le> length (filter valid_slot (d_slots d)))
    \<and> length (filter kills_slot (log_since s s')) = 1"
proof -
  obtain d s1 where d: "DumpDetails H (luks lib) v s = (d, s1)" by fastforce
  obtain es where es: "sevents s1 = sevents s @ es" "\<forall>e \<in> set es. \<not> kills_slot e" using dump_log [OF d] .
  show ?thesis
  proof (cases "\<exists>y. d = Inr y \<and> ValidateKillSlot y k = None")
    case False
    then have "s' = s1" using assms(1) d by (auto simp: keyslotRemove_locked_def split: sum.splits option.splits)
    then show ?thesis using assms(2,3) es log_since_eq [OF es(1)] by blast
  next
    case True
    then obtain y where y: "d = Inr y" "ValidateKillSlot y k = None" by blast
    obtain r s2 where x: "(case c of KeyFile key \<Rightarrow> KillSlotKeyFile H v key k s1 | Password pw \<Rightarrow> KillSlot H v pw k s1) = (r, s2)"
      by fastforce
    obtain e2 where e2: "sevents s2 = sevents s1 @ [e2]" "kills_slot e2"
      using x by (cases c) (auto simp: kills_slot_def keyfile_args_def dest!: KillSlotD KillSlotKeyFileD)
    obtain w s3 where w: "DumpDetails H (luks lib) v s2 = (w, s3)" by fastforce
    have "s' = (case r of Some err \<Rightarrow> s2 | None \<Rightarrow> s3)"
      using assms(1) d y x w by (simp add: keyslotRemove_locked_def split: option.splits sum.splits)
    then have "s' = s2 \<or> DumpDetails H (luks lib) v s2 = (w, s')" using w by (simp split: option.splits)
    then obtain fs where fs: "sevents s' = sevents s2 @ fs" "\<forall>e \<in> set fs. \<not> kills_slot e"
      by (metis append_Nil2 dump_log empty_iff empty_set)
    have "log_since s s' = es @ [e2] @ fs" by (rule log_since_eq) (simp add: es(1) e2(1) fs(1))
    moreover have "filter kills_slot es = []" "filter kills_slot fs = []" using es(2) fs(2) by (simp_all add: filter_empty_conv)
    ultimately have "length (filter kills_slot (log_since s s')) = 1" using e2(2) by simp
    then show ?thesis using d y by (auto simp: ValidateKillSlot_None)
  qed
qed

text \<open>Two slots are enabled; slot 3 is killed with the passphrase of slot 0.\<close>

theorem keyslot_remove_safe_witness:
  "let t = snd (keyslotRemove_locked sim_host sim_lib sim_vault (Password ''correct horse'') 3 (sim_server sim_luks)) in
   length (filter kills_slot (log_since (sim_server sim_luks) t)) = 1"
proof -
  let ?k = "keyslotRemove_locked sim_host sim_lib sim_vault (Password ''correct horse'') 3 (sim_server sim_luks)"
  let ?e = "Ran (Cmd False [''cryptsetup'', ''luksKillSlot'', ''/vaults/a.img'', ''3''] ''correct horse'') True"
  have "?e \<in> set (log_since (sim_server sim_luks) (snd ?k))" by code_simp
  moreover have "kills_slot ?e" by code_simp
  ultimately show ?thesis
    using keyslot_remove_safe [OF prod.collapse [symmetric], of ?e _ sim_host sim_lib sim_vault "Password ''correct horse''" 3]
    by (simp add: Let_def)
qed

section \<open>Deletion\<close>

text \<open>
  C17: A deletion touches nothing while the vault is unlocked, and removes files only after the
  record is gone: first the image, then the empty mount point. A failed removal leaves orphaned
  files, never a record without its image.
\<close>
theorem delete_order:
  "case delete_locked H i v s of (resp, s') \<Rightarrow>
     if IsUnlocked H v s then s' = s \<and> status resp = 422
     else if status resp = 204
     then sdb s' = delete_vault i (sdb s) \<and> unlockedSince i s' = None
       \<and> (\<exists>ok. log_since s s' \<in> {[], [Removed (v_path v) False], [Removed (v_path v) True, Removed (v_mount v) ok]})
     else status resp = 500 \<and> sdb s' = sdb s \<and> log_since s s' = []"
proof -
  obtain e s1 where d: "DeleteVault H i s = (e, s1)" by fastforce
  note dd = DeleteVaultD [OF d]
  obtain r s2 where x: "Delete H v (clearUnlocked i s1) = (r, s2)" by fastforce
  note xx = DeleteD [OF x]
  show ?thesis
  proof (cases "IsUnlocked H v s")
    case True
    then show ?thesis by (simp add: delete_locked_def jsonErr_def reply_def)
  next
    case no: False
    show ?thesis
    proof (cases e)
      case (Some m)
      then show ?thesis using no d dd by (simp add: delete_locked_def jsonErr_def reply_def log_since_def)
    next
      case None
      have "unlockedSince i s2 = unlockedSince i (clearUnlocked i s1)"
        using xx by (simp add: hstate_more_eq unlockedSince_def)
      moreover have "\<exists>ok. log_since s s2 \<in> {[], [Removed (v_path v) False], [Removed (v_path v) True, Removed (v_mount v) ok]}"
        using xx dd log_since_eq [of s2 s] by (auto split: if_splits simp: log_since_def)
      ultimately show ?thesis using no None d dd x xx by (simp add: delete_locked_def reply_def)
    qed
  qed
qed

section \<open>A name that is taken\<close>





end
