(* ===== verification/Windows.thy ===== *)
theory Windows
  imports Reservations
begin

text \<open>
  The auto-lock windows over all runs of the server: the table keeps one entry per vault and the
  list of the vaults a sweep has selected has no duplicates, whatever the interleaving.
\<close>

section \<open>What the operations do to the windows\<close>

lemma windows_ok_same: "unlockedAt s' = unlockedAt s \<Longrightarrow> windows_ok s' = windows_ok s"
  by (simp add: windows_ok_def)

lemma windows_ok_quiet: "quiet s s' \<Longrightarrow> windows_ok s' = windows_ok s"
  by (rule windows_ok_same) (simp add: quiet_def hstate_more_eq)

lemma windows_ok_more: "sys.more s' = sys.more s \<Longrightarrow> windows_ok s' = windows_ok s"
  by (rule windows_ok_same) (simp add: hstate_more_eq)

lemma windows_db:
  "GetVault H i s = (r1, s') \<Longrightarrow> windows_ok s' = windows_ok s" "ListVaults H s = (r2, s') \<Longrightarrow> windows_ok s' = windows_ok s"
  "GetVaultByName H n s = (r1, s') \<Longrightarrow> windows_ok s' = windows_ok s"
  "DeleteVault H i s = (r3, s') \<Longrightarrow> windows_ok s' = windows_ok s"
  "UpdateVaultSize H i z s = (r3, s') \<Longrightarrow> windows_ok s' = windows_ok s"
  "CreateVault H n p z m k s = (r1, s') \<Longrightarrow> windows_ok s' = windows_ok s"
  by (rule windows_ok_more, drule db_dests, simp)+

lemmas windows_intros = windows_ok_mark windows_ok_clear windows_ok_mark_each

lemma unlock_locked_windows:
  assumes "unlock_locked H v c s = (resp, s')" and "windows_ok s"
  shows "windows_ok s'"
proof -
  obtain r s1 where u: "(case c of KeyFile key \<Rightarrow> UnlockKeyFileContext H v key s | Password pw \<Rightarrow> UnlockContext H v pw s) = (r, s1)"
    by fastforce
  have "windows_ok s1" using u assms(2) by (auto split: credential.splits dest!: quiet_unlock windows_ok_quiet)
  moreover have "s' = s1 \<or> s' = markUnlocked H (v_id v) s1"
    using assms(1) u by (simp add: unlock_locked_def Let_def split: option.splits)
  ultimately show ?thesis using windows_ok_mark by blast
qed

lemma lock_locked_windows:
  assumes "lock_locked H v s = (resp, s')" and "windows_ok s"
  shows "windows_ok s'"
proof -
  obtain r s1 where l: "LockContext H v s = (r, s1)" by fastforce
  have "windows_ok s1" using windows_ok_quiet [OF quiet_lock [OF l]] assms(2) by simp
  moreover have "s' = s1 \<or> s' = clearUnlocked (v_id v) s1"
    using assms(1) l by (simp add: lock_locked_def Let_def split: option.splits)
  ultimately show ?thesis using windows_ok_clear by blast
qed

lemma import_locked_windows:
  assumes "import_locked H lib q s = (resp, s')"
  shows "windows_ok s' = windows_ok s"
proof -
  let ?name = "q_im_name q" and ?path = "q_im_path q"
  obtain es s1 where l: "ListVaults H s = (es, s1)" by fastforce
  obtain d s2 where p: "DumpDetails H (luks lib) (import_probe ?name ?path) s1 = (d, s2)" by fastforce
  have w: "windows_ok s1 = windows_ok s" "windows_ok s2 = windows_ok s1"
    using windows_db(2) [OF l] windows_ok_quiet [OF quiet_dump [OF p]] by simp_all
  have "s' = s \<or> s' = s1 \<or> s' = s2 \<or> (\<exists>n mp r. CreateVault H ?name ?path n mp ?name s2 = (r, s'))"
    using assms l p
    by (auto simp: import_locked_def Let_def split: if_splits prod.splits sum.splits option.splits)
  then show ?thesis using w windows_db(6) by metis
qed

lemma grow_locked_windows:
  assumes "grow_locked H i n key s = (resp, s')"
  shows "windows_ok s' = windows_ok s"
proof -
  obtain r s1 where g: "GetVault H i s = (r, s1)" by fastforce
  have w1: "windows_ok s1 = windows_ok s" using windows_db(1) [OF g] .
  show ?thesis
  proof (cases r)
    case (Inl e)
    then show ?thesis using assms g w1 by (simp add: grow_locked_def)
  next
    case (Inr v)
    obtain e2 s2 where gr: "Grow H v n key s1 = (e2, s2)" by fastforce
    obtain e3 s3 where up: "UpdateVaultSize H i n s2 = (e3, s3)" by fastforce
    obtain e4 s4 where g4: "GetVault H i s3 = (e4, s4)" by fastforce
    have "s' = s1 \<or> s' = s2 \<or> s' = s3 \<or> s' = s4"
      using assms g Inr gr up g4 by (auto simp: grow_locked_def split: if_splits option.splits sum.splits)
    then show ?thesis
      using w1 windows_ok_quiet [OF quiet_grow [OF gr]] windows_db(5) [OF up] windows_db(1) [OF g4] by auto
  qed
qed

lemma delete_locked_windows:
  assumes "delete_locked H i v s = (resp, s')" and "windows_ok s"
  shows "windows_ok s'"
proof -
  obtain e1 s1 where d: "DeleteVault H i s = (e1, s1)" by fastforce
  obtain e2 s2 where r: "Delete H v (clearUnlocked i s1) = (e2, s2)" by fastforce
  have "windows_ok s1" using windows_db(4) [OF d] assms(2) by simp
  moreover from this have "windows_ok s2" using windows_ok_quiet [OF quiet_delete [OF r]] windows_ok_clear by blast
  moreover have "s' = s \<or> s' = s1 \<or> s' = s2"
    using assms d r by (auto simp: delete_locked_def split: if_splits option.splits)
  ultimately show ?thesis using assms(2) by blast
qed

lemma perform_windows:
  assumes "perform H lib p s = (resp, s')" and "windows_ok s"
  shows "windows_ok s'"
proof (cases p)
  case (OpUnlock v c)
  then show ?thesis using assms unlock_locked_windows by (simp add: perform_def)
next
  case (OpLock v)
  then show ?thesis using assms lock_locked_windows by (simp add: perform_def)
next
  case (OpMount v)
  then have "mount_locked H v s = (resp, s')" using assms(1) by (simp add: perform_def)
  then show ?thesis using windows_ok_quiet [OF mount_locked_effect] assms(2) by blast
next
  case (OpKeyAdd v k)
  then have "keyslotAdd_locked H lib v k s = (resp, s')" using assms(1) by (simp add: perform_def)
  then show ?thesis using windows_ok_quiet [OF keyslotAdd_locked_effect] assms(2) by blast
next
  case (OpKeyRemove v c k)
  then have "keyslotRemove_locked H lib v c k s = (resp, s')" using assms(1) by (simp add: perform_def)
  then show ?thesis using windows_ok_quiet [OF keyslotRemove_locked_effect] assms(2) by blast
next
  case (OpImport q)
  then show ?thesis using assms import_locked_windows by (fastforce simp: perform_def)
next
  case (OpGrow i n key)
  then show ?thesis using assms grow_locked_windows by (fastforce simp: perform_def)
next
  case (OpDelete i v)
  then show ?thesis using assms delete_locked_windows by (simp add: perform_def)
qed

lemma windows_from_csys [simp]: "windows_ok (from_csys c s) = windows_ok s"
  by (simp add: windows_ok_def from_csys_def)

lemma mark_created_windows: "windows_ok s \<Longrightarrow> windows_ok (mark_created H n s)"
  by (auto simp: mark_created_def split: prod.splits sum.splits dest!: windows_db(3) intro: windows_ok_mark)

lemma job_step_windows:
  assumes "job_step H j s = (j', s')" and "windows_ok s"
  shows "windows_ok s'"
proof (cases "j_phase j = Finished")
  case True
  then show ?thesis using assms mark_created_windows by (auto simp: job_step_def Let_def)
next
  case False
  have "unlockedAt s' = unlockedAt s"
    using assms(1) False
    by (auto simp: job_step_def on_channel_def Let_def from_csys_def releasePending_def
        split: phase.splits option.splits prod.splits)
  then show ?thesis using windows_ok_same assms(2) by blast
qed

section \<open>The invariant\<close>

definition windows_inv :: "('w, 'l) server \<Rightarrow> bool" where
  "windows_inv \<sigma> \<longleftrightarrow> windows_ok (st \<sigma>) \<and> distinct (expired \<sigma>)"

lemma windows_inv_step:
  assumes inv: "windows_inv \<sigma>" and s: "step H lib D cfg l \<sigma> \<sigma>'"
  shows "windows_inv \<sigma>'"
proof -
  have w: "windows_ok (st \<sigma>)" and d: "distinct (expired \<sigma>)" using inv by (simp_all add: windows_inv_def)
  from s show ?thesis
  proof cases
    case (Request inp r x s')
    have "unlockedAt s' = unlockedAt (st \<sigma>)"
      using serve_effect [OF Request(3)] by (simp add: request_effect_def)
    then have "windows_ok s'" using windows_ok_same w by blast
    then show ?thesis using Request(2) d by (cases x) (simp_all add: arrived_def windows_inv_def)
  next
    case (Locked p resp s')
    then show ?thesis using perform_windows [OF Locked(4) w] d by (simp add: windows_inv_def)
  next
    case (Goroutine j j' s')
    then show ?thesis using job_step_windows [OF Goroutine(4) w] d by (simp add: windows_inv_def)
  next
    case StartupScan
    have "windows_ok (autoLockStartup H (st \<sigma>))"
      using w by (auto simp: autoLockStartup_def split: prod.splits sum.splits dest!: windows_db(2) intro: windows_ok_mark_each)
    then show ?thesis using StartupScan d by (simp add: windows_inv_def)
  next
    case (Sweep window)
    then show ?thesis using expired_vaults_distinct [OF w] w by (simp add: windows_inv_def)
  next
    case (AutoLockGone i rest s')
    have "windows_ok s'"
      using AutoLockGone(5) w
      by (auto simp: autoLock_read_def Let_def split: prod.splits sum.splits dest!: windows_db(1) intro: windows_ok_clear)
    then show ?thesis using AutoLockGone d by (simp add: windows_inv_def)
  next
    case (AutoLockFound i rest since v s')
    have "windows_ok s'"
      using AutoLockFound(5) w
      by (auto simp: autoLock_read_def Let_def split: prod.splits sum.splits dest!: windows_db(1))
    then show ?thesis using AutoLockFound d by (simp add: windows_inv_def)
  next
    case (AutoLockTry i since v dropped s')
    have "windows_ok s'"
      using AutoLockTry(4) w
      by (auto simp: autoLock_locked_def split: if_splits prod.splits option.splits dest!: quiet_lock windows_ok_quiet)
    then show ?thesis using AutoLockTry d by (simp add: windows_inv_def)
  next
    case (AutoLockDrop i)
    then show ?thesis using windows_ok_clear [OF w] d by (simp add: windows_inv_def)
  qed (use w d in \<open>simp_all add: windows_inv_def windows_ok_def cleanupSessions_def cleanupJobs_def cleanupLimiters_def\<close>)
qed

lemma windows_inv_starts: "starts \<sigma> \<Longrightarrow> windows_inv \<sigma>"
  by (simp add: starts_def windows_inv_def windows_ok_def)

interpretation windows: invariant_of starts "step H lib D cfg" windows_inv
  by unfold_locales (fact windows_inv_starts, fact windows_inv_step)

end
