(* ===== verification/PolicyCorrect.thy ===== *)
theory PolicyCorrect
  imports RequestCorrect Windows
begin

text \<open>
  The properties of the auto-lock policy: what an undisturbed sweep does, and what the two gaps
  in its locking allow when a user acts in between.
\<close>

text \<open>A server that decodes no body, for the witnesses.\<close>

definition no_decoders :: decoders where
  "no_decoders = \<lparr>dec_login = (\<lambda>_. None), dec_create = (\<lambda>_. None), dec_import = (\<lambda>_. None), dec_unlock = (\<lambda>_. None),
     dec_grow = (\<lambda>_. None), dec_keyadd = (\<lambda>_. None), dec_keyremove = (\<lambda>_. None), dec_token = (\<lambda>_. None)\<rparr>"

section \<open>A sweep\<close>

definition lock_failed :: "vault \<Rightarrow> event list \<Rightarrow> bool" where
  "lock_failed v es \<longleftrightarrow> Ran (umount_cmd True (v_mount v)) False \<in> set es \<or> Ran (luksClose_cmd True (v_mapper v)) False \<in> set es"

lemma lock_failed_append [simp]: "lock_failed v (es @ fs) \<longleftrightarrow> lock_failed v es \<or> lock_failed v fs"
  by (auto simp: lock_failed_def)




text \<open>Vault 1 is open and mounted, and its window began at time 0.\<close>

definition sim_open :: sim where
  "sim_open = sim0\<lparr>sm_maps := [mapper_path ''a''], sm_mounts := [sim_entry (mapper_path ''a'') ''/mnt/a''], sm_clock := 150\<rparr>"

definition open_server :: "(sim, nat) hstate" where
  "open_server = (sim_server sim_open)\<lparr>unlockedAt := [(1, 0)]\<rparr>"





section \<open>What a user can do in between\<close>

lemma unlock_locked_200:
  assumes "unlock_locked H v c s = (resp, s')" and "status resp = 200"
  shows "unlockedSince (v_id v) s' \<noteq> None"
  using assms
  by (auto simp: unlock_locked_def Let_def jsonErr_def reply_def split: prod.splits option.splits)

text \<open>
  C27: The entry that ends a window is dropped after the operation lock is released. A user who
  unlocks the vault in that gap loses the new window: the unlock succeeds and starts it, the
  loop's last statement deletes it, and no later sweep selects the vault, although it stays open.
\<close>
theorem autolock_window_lost:
  assumes "autolock \<sigma> = Dropping (v_id v)" and "OpUnlock v c \<in> set (ops \<sigma>)"
    and "unlock_locked H v c (st \<sigma>) = (resp, s1)" and "status resp = 200"
  shows "\<exists>\<sigma>1 \<sigma>2. step H lib D cfg (Locked (OpUnlock v c)) \<sigma> \<sigma>1 \<and> step H lib D cfg (AutoLockDrop (v_id v)) \<sigma>1 \<sigma>2
    \<and> unlockedSince (v_id v) (st \<sigma>1) \<noteq> None \<and> IsUnlocked H v (st \<sigma>2) = IsUnlocked H v s1
    \<and> (\<forall>w now. v_id v \<notin> set (expired_vaults w now (st \<sigma>2)))"
proof -
  let ?\<sigma>1 = "\<sigma>\<lparr>st := s1, ops := remove1 (OpUnlock v c) (ops \<sigma>)\<rparr>"
  let ?\<sigma>2 = "?\<sigma>1\<lparr>st := clearUnlocked (v_id v) s1, autolock := Idle\<rparr>"
  have p: "perform H lib (OpUnlock v c) (st \<sigma>) = (resp, s1)" using assms(3) by (simp add: perform_def)
  have one: "step H lib D cfg (Locked (OpUnlock v c)) \<sigma> ?\<sigma>1" by (rule step.Locked [OF assms(2) p])
  have "step H lib D cfg (AutoLockDrop (v_id v)) ?\<sigma>1 (?\<sigma>1\<lparr>st := clearUnlocked (v_id v) (st ?\<sigma>1), autolock := Idle\<rparr>)"
    by (rule step.AutoLockDrop) (simp add: assms(1))
  then have two: "step H lib D cfg (AutoLockDrop (v_id v)) ?\<sigma>1 ?\<sigma>2" by simp
  have "unlockedSince (v_id v) (clearUnlocked (v_id v) s1) = None" by simp
  then have gone: "v_id v \<notin> set (expired_vaults w now (st ?\<sigma>2))" for w now
    by (auto simp: expired_vaults_def unlockedSince_def map_of_eq_None_iff image_iff)
  have "IsUnlocked H v (st ?\<sigma>2) = IsUnlocked H v s1"
    by (simp add: IsUnlocked_def exists_def IsMounted_def ReadMounts_def)
  then show ?thesis using one two gone unlock_locked_200 [OF assms(3,4)] by fastforce
qed

definition closed_server :: "(sim, nat) server" where
  "closed_server = (init_server (sim_server sim0))\<lparr>autolock := Dropping 1, ops := [OpUnlock sim_vault (Password ''correct horse'')]\<rparr>"

theorem autolock_window_lost_witness:
  "\<exists>\<sigma>1 \<sigma>2. step sim_host sim_lib no_decoders sim_config (Locked (OpUnlock sim_vault (Password ''correct horse''))) closed_server \<sigma>1
    \<and> step sim_host sim_lib no_decoders sim_config (AutoLockDrop 1) \<sigma>1 \<sigma>2
    \<and> IsUnlocked sim_host sim_vault (st \<sigma>2) \<and> (\<forall>w now. 1 \<notin> set (expired_vaults w now (st \<sigma>2)))"
proof -
  let ?c = "Password ''correct horse''"
  let ?u = "unlock_locked sim_host sim_vault ?c (st closed_server)"
  have "autolock closed_server = Dropping (v_id sim_vault)" "OpUnlock sim_vault ?c \<in> set (ops closed_server)"
    by (simp_all add: closed_server_def init_server_def sim_vault_def)
  moreover have st: "status (fst ?u) = 200" by code_simp
  moreover have "IsUnlocked sim_host sim_vault (snd ?u)" by code_simp
  moreover have "v_id sim_vault = 1" by (simp add: sim_vault_def)
  ultimately show ?thesis
    using autolock_window_lost [OF _ _ prod.collapse [symmetric] st, where lib = sim_lib and D = no_decoders and cfg = sim_config]
    by metis
qed

text \<open>
  C28: The loop reads the start of a window only when it turns to the vault, so the comparison
  under the lock misses a window that restarted between the sweep's selection and that reading:
  a vault that was locked and unlocked again meanwhile is closed although its window has only
  begun.
\<close>
theorem autolock_locks_fresh:
  assumes "autolock \<sigma> = Idle" and "expired \<sigma> = v_id v # rest" and "windows_ok (st \<sigma>)"
    and "unlockedSince (v_id v) (st \<sigma>) = Some t" and "h_now H (sworld (st \<sigma>)) - t < w"
    and "GetVault H (v_id v) (st \<sigma>) = (Inr v, s1)" and "LockContext H v s1 = (None, s2)"
  shows "v_id v \<notin> set (expired_vaults w (h_now H (sworld (st \<sigma>))) (st \<sigma>))
    \<and> (\<exists>\<sigma>1 \<sigma>2. step H lib D cfg (AutoLockRead (v_id v)) \<sigma> \<sigma>1 \<and> step H lib D cfg (AutoLockTry (v_id v)) \<sigma>1 \<sigma>2
        \<and> Ran (luksClose_cmd True (v_mapper v)) True \<in> set (log_since (st \<sigma>) (st \<sigma>2)))"
proof -
  let ?\<sigma>1 = "\<sigma>\<lparr>st := s1, expired := rest, autolock := Locking (v_id v) (Some t) v\<rparr>"
  let ?\<sigma>2 = "?\<sigma>1\<lparr>st := s2, autolock := Dropping (v_id v)\<rparr>"
  have fresh: "v_id v \<notin> set (expired_vaults w (h_now H (sworld (st \<sigma>))) (st \<sigma>))"
    using expired_vaults_iff [OF assms(3)] assms(4,5) by auto
  have g: "sevents s1 = sevents (st \<sigma>)" "sys.more s1 = sys.more (st \<sigma>)" using GetVaultD [OF assms(6)] by simp_all
  have since: "unlockedSince (v_id v) s1 = Some t" using g(2) assms(4) by (simp add: hstate_more_eq unlockedSince_def)
  have "autoLock_read H (v_id v) (st \<sigma>) = (Some (Some t, v), s1)"
    by (simp add: autoLock_read_def assms(4,6) Let_def)
  then have one: "step H lib D cfg (AutoLockRead (v_id v)) \<sigma> ?\<sigma>1" by (rule step.AutoLockFound [OF assms(1,2)])
  have t: "autoLock_locked H (v_id v) (Some t) v (st ?\<sigma>1) = (True, s2)"
    by (simp add: autoLock_locked_def windowRestarted_def since assms(7))
  have "step H lib D cfg (AutoLockTry (v_id v)) ?\<sigma>1 (?\<sigma>1\<lparr>st := s2, autolock := (if True then Dropping (v_id v) else Idle)\<rparr>)"
    by (rule step.AutoLockTry [OF _ t]) simp
  then have two: "step H lib D cfg (AutoLockTry (v_id v)) ?\<sigma>1 ?\<sigma>2" by simp
  obtain es where es: "sevents s2 = sevents (st \<sigma>) @ es" "Ran (luksClose_cmd True (v_mapper v)) True \<in> set es"
    using LockContext_log [OF assms(7)] g(1) by auto
  then have "Ran (luksClose_cmd True (v_mapper v)) True \<in> set (log_since (st \<sigma>) (st ?\<sigma>2))"
    by (simp add: log_since_def)
  then show ?thesis using fresh one two by blast
qed

text \<open>Vault 1 expired when the sweep began; its window restarted ten seconds ago.\<close>

definition fresh_server :: "(sim, nat) server" where
  "fresh_server = (init_server (open_server\<lparr>unlockedAt := [(1, 140)]\<rparr>))\<lparr>autolock := Idle, expired := [1]\<rparr>"

theorem autolock_locks_fresh_witness:
  "1 \<notin> set (expired_vaults 100 150 (st fresh_server))
   \<and> (\<exists>\<sigma>1 \<sigma>2. step sim_host sim_lib no_decoders sim_config (AutoLockRead 1) fresh_server \<sigma>1
        \<and> step sim_host sim_lib no_decoders sim_config (AutoLockTry 1) \<sigma>1 \<sigma>2
        \<and> Ran (luksClose_cmd True ''a'') True \<in> set (log_since (st fresh_server) (st \<sigma>2)))"
proof -
  let ?s = "st fresh_server"
  let ?g = "GetVault sim_host 1 ?s"
  have id: "v_id sim_vault = 1" "v_mapper sim_vault = ''a''" by (simp_all add: sim_vault_def)
  have h: "autolock fresh_server = Idle" "expired fresh_server = v_id sim_vault # []" "windows_ok ?s"
    "unlockedSince (v_id sim_vault) ?s = Some 140" "h_now sim_host (sworld ?s) = 150"
    by (simp_all add: fresh_server_def init_server_def id windows_ok_def unlockedSince_def open_server_def
        sim_server_def sim_open_def sim_host_def)
  have "fst ?g = Inr sim_vault" by code_simp
  then have g: "GetVault sim_host (v_id sim_vault) ?s = (Inr sim_vault, snd ?g)" by (simp add: prod_eq_iff id)
  have "fst (LockContext sim_host sim_vault (snd ?g)) = None" by code_simp
  then have l: "LockContext sim_host sim_vault (snd ?g) = (None, snd (LockContext sim_host sim_vault (snd ?g)))"
    by (simp add: prod_eq_iff)
  have "h_now sim_host (sworld ?s) - 140 < 100" using h(5) by simp
  from autolock_locks_fresh [OF h(1-4) this g l, of sim_lib no_decoders sim_config, unfolded id h(5)] show ?thesis .
qed

end
