(* ===== verification/Config.thy ===== *)
theory Config
  imports Handlers GoFloat
begin

text \<open>
  \<open>main.go\<close>: the configuration read from the environment, the opening of the database and the
  shutdown sequence. \<open>None\<close> is \<open>os.Exit(1)\<close>. \<open>strconv.ParseFloat\<close> is the parameter
  \<open>parse_float\<close>, the implementation-defined conversion of an out-of-range float to an integer
  the parameter \<open>oor\<close>.
\<close>

section \<open>Environment values\<close>

definition parseMaxSize :: "string \<Rightarrow> int \<Rightarrow> int option" where
  "parseMaxSize env defaultVal =
     (if env = [] then Some defaultVal
      else (case atoi_opt env of
        None \<Rightarrow> None
      | Some n \<Rightarrow> if n \<le> 0 then None else Some n))"

text \<open>\<open>strconv.ParseBool\<close>.\<close>

definition parse_bool :: "string \<Rightarrow> bool option" where
  "parse_bool s =
     (if s \<in> {''1'', ''t'', ''T'', ''true'', ''TRUE'', ''True''} then Some True
      else if s \<in> {''0'', ''f'', ''F'', ''false'', ''FALSE'', ''False''} then Some False
      else None)"

definition parseBool :: "string \<Rightarrow> bool \<Rightarrow> bool option" where
  "parseBool env defaultVal = (if env = [] then Some defaultVal else parse_bool env)"

definition parseAutoLockHours :: "(string \<Rightarrow> gofloat option) \<Rightarrow> string \<Rightarrow> gofloat option" where
  "parseAutoLockHours parse_float env =
     (if env = [] then Some (Fin 0)
      else (case parse_float env of
        None \<Rightarrow> None
      | Some v \<Rightarrow> if flt_less v (Fin 0) then None else Some v))"

definition parseHours :: "(string \<Rightarrow> gofloat option) \<Rightarrow> string \<Rightarrow> rat \<Rightarrow> gofloat option" where
  "parseHours parse_float env defaultVal =
     (if env = [] then Some (Fin defaultVal)
      else (case parse_float env of
        None \<Rightarrow> None
      | Some v \<Rightarrow> if flt_le v (Fin 0) then None else Some v))"

fun nonempty_trimmed :: "string list \<Rightarrow> string list" where
  "nonempty_trimmed [] = []"
| "nonempty_trimmed (x # xs) =
     (let y = trim_space x in if y \<noteq> [] then y # nonempty_trimmed xs else nonempty_trimmed xs)"

definition parseList :: "string \<Rightarrow> string \<Rightarrow> string list" where
  "parseList env defaultVal =
     (let out = nonempty_trimmed (split_on CHR '','' env) in if out = [] then [defaultVal] else out)"

section \<open>From hours to nanoseconds\<close>

definition hour_ns :: int where "hour_ns = 3600000000000"

definition flt_hours :: "gofloat \<Rightarrow> gofloat" where
  "flt_hours x = (case x of Fin q \<Rightarrow> Fin (q * of_int hour_ns) | _ \<Rightarrow> x)"

definition duration :: "(gofloat \<Rightarrow> int) \<Rightarrow> gofloat \<Rightarrow> int" where
  "duration oor x = float_to_int oor (flt_hours x)"

text \<open>The window of \<open>autoLockSweep\<close>: off when \<open>autoLockHours <= 0\<close>.\<close>

definition auto_lock_window :: "(gofloat \<Rightarrow> int) \<Rightarrow> gofloat \<Rightarrow> int option" where
  "auto_lock_window oor h = (if flt_le h (Fin 0) then None else Some (duration oor h))"

section \<open>Startup\<close>

text \<open>\<open>generated\<close> is the password the process draws when none is set, \<open>None\<close> when that fails.\<close>

definition auth_password :: "string \<Rightarrow> string option \<Rightarrow> string option" where
  "auth_password env generated = (if env = [] then map_option hex_encode generated else Some env)"

definition load_config :: "(string \<Rightarrow> gofloat option) \<Rightarrow> (gofloat \<Rightarrow> int) \<Rightarrow> (string \<Rightarrow> string) \<Rightarrow> string option \<Rightarrow>
    config option" where
  "load_config parse_float oor env generated =
     (let storageDirs = parseList (env ''VAULT_STORAGE_DIRS'') ''/vaults'';
          mountDirs = parseList (env ''VAULT_MOUNT_DIRS'') ''/mnt'' in
      case parseMaxSize (env ''VAULT_MAX_SIZE_GB'') 100 of
        None \<Rightarrow> None
      | Some maxSizeGB \<Rightarrow>
     (let authUser = (if env ''AUTH_USER'' = [] then ''admin'' else env ''AUTH_USER'') in
      case auth_password (env ''AUTH_PASSWORD'') generated of
        None \<Rightarrow> None
      | Some authPass \<Rightarrow>
     (case parseBool (env ''TRUST_PROXY'') False of
        None \<Rightarrow> None
      | Some trustProxy \<Rightarrow>
     (case parseAutoLockHours parse_float (env ''AUTO_LOCK_HOURS'') of
        None \<Rightarrow> None
      | Some autoLockHours \<Rightarrow>
     (case parseHours parse_float (env ''SESSION_IDLE_HOURS'') 12 of
        None \<Rightarrow> None
      | Some idle \<Rightarrow>
     (case parseHours parse_float (env ''SESSION_MAX_AGE_HOURS'') 168 of
        None \<Rightarrow> None
      | Some maxAge \<Rightarrow>
          Some \<lparr>c_storage = storageDirs, c_mounts = mountDirs, c_user = authUser, c_pass = authPass,
                c_max_gb = maxSizeGB, c_proxy = trustProxy, c_window = auto_lock_window oor autoLockHours,
                c_idle = duration oor idle, c_max_age = duration oor maxAge\<rparr>))))))"

text \<open>
  \<open>NewMux\<close>: the state a process starts with. The goroutine of the auto-lock loop begins with
  \<open>autoLockStartup\<close>, a step of its own.
\<close>

definition initial_state :: "'w sys \<Rightarrow> ('w, 'l) hstate" where
  "initial_state s = \<lparr>sworld = sworld s, sevents = sevents s, sdb = sdb s, jobs = Map.empty,
     pendingNames = {}, pendingPaths = {}, unlockLimiters = Map.empty, authLimiters = Map.empty,
     sessions = Map.empty, unlockedAt = []\<rparr>"

definition start :: "'w host \<Rightarrow> db_state option \<Rightarrow> 'w sys \<Rightarrow> ('w, 'l) hstate option" where
  "start H file s =
     (case Open H file s of (Some _, _) \<Rightarrow> None | (None, s1) \<Rightarrow> Some (initial_state s1))"

section \<open>Shutdown\<close>

text \<open>
  After the signal: the drain (\<open>drained\<close> is whether it finished in time), then the locking of
  every unlocked vault, then the exit status.
\<close>

definition shutdown :: "'w host \<Rightarrow> bool \<Rightarrow> ('w, 'l) hstate \<Rightarrow> (lock_error list \<times> int) \<times> ('w, 'l) hstate" where
  "shutdown H drained s =
     (case LockAllUnlocked H s of
        (failures, s1) \<Rightarrow> ((failures, if drained then 0 else 1), s1))"

section \<open>Lemmas\<close>

lemma nonempty_trimmed_iff: "nonempty_trimmed xs = filter (\<lambda>y. y \<noteq> []) (map trim_space xs)"
  by (induction xs) (simp_all add: Let_def)

lemma parseList_nonempty: "d \<noteq> [] \<Longrightarrow> parseList env d \<noteq> [] \<and> [] \<notin> set (parseList env d)"
  by (auto simp: parseList_def nonempty_trimmed_iff Let_def)

lemma parseList_join:
  assumes "xs \<noteq> []" and "\<forall>x \<in> set xs. x \<noteq> [] \<and> CHR '','' \<notin> set x \<and> \<not> is_space (hd x) \<and> \<not> is_space (last x)"
  shows "parseList (join_with CHR '','' xs) d = xs"
proof -
  have "split_on CHR '','' (join_with CHR '','' xs) = xs"
    using assms by (intro split_join) auto
  moreover have "map trim_space xs = xs"
    using assms(2) by (simp add: map_idI trim_space_id)
  moreover have "filter (\<lambda>y. y \<noteq> []) xs = xs"
    using assms(2) by (simp add: filter_id_conv)
  ultimately show ?thesis using assms(1) by (simp add: parseList_def nonempty_trimmed_iff)
qed

lemma parseMaxSize_pos: "0 < d \<Longrightarrow> parseMaxSize env d = Some n \<Longrightarrow> 0 < n"
  by (auto simp: parseMaxSize_def split: if_splits option.splits)

lemma auto_lock_window_Fin: "auto_lock_window oor (Fin q) = (if q \<le> 0 then None else Some (duration oor (Fin q)))"
  by (simp add: auto_lock_window_def)

lemma OpenD_start: "start H file s = Some t \<Longrightarrow> sdb t = migrate file \<and> pendingNames t = {} \<and> pendingPaths t = {}
    \<and> sessions t = Map.empty \<and> unlockedAt t = [] \<and> jobs t = Map.empty \<and> sevents t = sevents s"
  by (auto simp: start_def initial_state_def split: prod.splits option.splits dest!: OpenD)

end
