(* ===== verification/ServerCorrect.thy ===== *)
theory ServerCorrect
  imports PolicyCorrect Config
begin

text \<open>
  The properties of the server as a whole: the gate in front of every handler, the reservation of
  names and images over all interleavings, the end of every creation, and the configuration.
\<close>

section \<open>The gate\<close>

definition cross_origin :: "'l lib \<Rightarrow> request \<Rightarrow> bool" where
  "cross_origin lib r \<longleftrightarrow> r_method r \<noteq> ''GET'' \<and> r_method r \<noteq> ''HEAD'' \<and> r_header r ''Origin'' \<noteq> []
     \<and> url_host lib (r_header r ''Origin'') \<noteq> Some (r_host r)"

lemma csrfGuard_iff: "csrfGuard lib r = (if cross_origin lib r then Some (jsonErr CrossOrigin 403) else None)"
  by (auto simp: csrfGuard_def cross_origin_def Let_def split: option.splits)

lemma auth_refused_sdb:
  assumes "auth H lib cfg r s = (Some resp, s')"
  shows "sdb s' = sdb s"
proof -
  obtain ok s1 where v: "validSession H cfg r s = (ok, s1)" by fastforce
  obtain i tok cr s2 where a: "validAPICredentials H lib cfg r s1 = ((i, tok, cr), s2)" by (metis prod_cases4 surj_pair)
  obtain b s3 where t: "authAllowed H lib cfg r s2 = (b, s3)" by fastforce
  have "s' = s3" using assms v a t by (auto simp: auth_def Let_def split: bool.splits if_splits)
  then show ?thesis
    using validSessionD [OF v] validAPICredentialsD [OF a] authAllowedD [OF t] by simp
qed

definition untouched :: "('w, 'l) hstate \<Rightarrow> ('w, 'l) hstate \<Rightarrow> bool" where
  "untouched s s' \<longleftrightarrow> sevents s' = sevents s \<and> sdb s' = sdb s \<and> jobs s' = jobs s \<and> pendingNames s' = pendingNames s
     \<and> pendingPaths s' = pendingPaths s \<and> unlockedAt s' = unlockedAt s \<and> unlockLimiters s' = unlockLimiters s
     \<and> no_new_session s s'"

lemma untouched_refl [simp]: "untouched s s"
  by (simp add: untouched_def)

lemma auth_refused_untouched:
  "auth H lib cfg r s = (Some resp, s') \<Longrightarrow> untouched s s' \<and> status resp \<in> {303, 401, 429}"
  using auth_frame [of H lib cfg r s "Some resp" s'] auth_refused_sdb [of H lib cfg r s resp s'] auth_refusal [of H lib cfg r s resp]
  by (auto simp: untouched_def no_new_session_def)

text \<open>
  C4: The gate: a request to anything but the public pages that nobody vouches for, and any
  request that changes state and comes from another origin, is answered with a redirect or a
  refusal. No command runs, no record, reservation, job, window or unlock budget changes, and no
  session begins. (The database answers queries.)
\<close>
theorem request_gate:
  assumes "serve H lib D cfg inp r s = (x, s')" and "db_ok (sdb s)" and "\<forall>w. fst (h_sql H QueryTokenByHash w) = None"
    and "top_route (r_method r) (r_path r) = Authenticated \<and> \<not> admitted H lib cfg r s
      \<or> top_route (r_method r) (r_path r) \<noteq> Healthz \<and> cross_origin lib r"
  shows "untouched s s' \<and> (\<exists>resp. x = Answer resp \<and> status resp \<in> {301, 303, 401, 403, 429})"
proof (cases "clean_segments (r_path r) \<and> \<not> cross_origin lib r")
  case True
  then have top: "top_route (r_method r) (r_path r) = Authenticated" and out: "\<not> admitted H lib cfg r s"
    using assms(4) by auto
  have csrf: "csrfGuard lib r = None" using True by (simp add: csrfGuard_iff)
  obtain e t where a: "auth H lib cfg r s = (e, t)" by fastforce
  have "e \<noteq> None" using auth_pass_admitted [OF assms(2,3), of lib cfg r] out a by simp
  then obtain resp where e: "e = Some resp" by blast
  have "x = Answer resp" "s' = t"
    using assms(1) True top csrf a e by (simp_all add: serve_def)
  then show ?thesis using auth_refused_untouched [OF a [unfolded e]] by auto
next
  case False
  show ?thesis
  proof (cases "clean_segments (r_path r)")
    case True
    with False assms(4) have c: "csrfGuard lib r = Some (jsonErr CrossOrigin 403)" "top_route (r_method r) (r_path r) \<noteq> Healthz"
      by (auto simp: csrfGuard_iff)
    then have "x = Answer (jsonErr CrossOrigin 403)" "s' = s"
      using assms(1) True by (auto simp: serve_def split: entry.splits)
    then show ?thesis by (simp add: jsonErr_def reply_def)
  next
    case False
    then have "x = Answer (reply 301 NoBody)" "s' = s" using assms(1) by (simp_all add: serve_def)
    then show ?thesis by (simp add: reply_def)
  qed
qed

definition no_inputs :: inputs where
  "no_inputs = \<lparr>in_body = [], in_index = None, in_login = None, in_flush = False, in_events = []\<rparr>"

text \<open>The master credentials do not help a request from another site.\<close>

definition forged_request :: request where
  "forged_request = sim_request ''POST'' [''api'', ''vaults'', ''1'', ''lock'']
     [(''Origin'', ''http://evil.test''), (''Authorization'', ''basic YWRtaW46cHc='')]"

theorem request_gate_witness:
  "let p = serve sim_host sim_lib no_decoders sim_config no_inputs forged_request (sim_server sim_open) in
   untouched (sim_server sim_open) (snd p) \<and> (\<exists>resp. fst p = Answer resp \<and> status resp \<in> {301, 303, 401, 403, 429})"
proof -
  have c: "top_route (r_method forged_request) (r_path forged_request) \<noteq> Healthz \<and> cross_origin sim_lib forged_request"
    by code_simp
  have "db_ok (sdb (sim_server sim_open))" "\<forall>w. fst (h_sql sim_host QueryTokenByHash w) = None"
    by (simp_all add: sim_server_def sim_db_ok sim_host_def)
  from request_gate [OF prod.collapse [symmetric] this disjI2 [OF c]] show ?thesis by (simp add: Let_def)
qed

section \<open>A run of the server\<close>

text \<open>One request that creates the vault \<open>b\<close>, taken from the start of a server.\<close>

definition create_body :: create_req where
  "create_body = \<lparr>q_name = ''b'', q_path = ''/vaults'', q_size = 1, q_password = ''correct horse'', q_mount_dir = ''/mnt''\<rparr>"

definition create_decoders :: decoders where
  "create_decoders = no_decoders\<lparr>dec_create := (\<lambda>_. Some create_body)\<rparr>"

definition sim_auth :: "(string \<times> string) list" where
  "sim_auth = [(''Authorization'', ''basic YWRtaW46cHc='')]"

definition create_request :: request where
  "create_request = sim_request ''POST'' [''api'', ''vaults''] sim_auth"

definition sim_creation :: creation where
  "sim_creation = \<lparr>cr_name = ''b'', cr_path = ''/vaults'', cr_size = 1, cr_password = ''correct horse'', cr_mount = ''/mnt/b'',
     cr_img = ''/vaults/b.img'', cr_job = hex_encode (replicate 8 CHR ''r'')\<rparr>"

definition reserved_state :: "(sim, nat) hstate" where
  "reserved_state = (sim_server sim0)\<lparr>pendingNames := {''b''}, pendingPaths := {''/vaults/b.img''}, jobs := [cr_job sim_creation \<mapsto> 0]\<rparr>"

definition creating_server :: "(sim, nat) server" where
  "creating_server = (init_server reserved_state)\<lparr>running := [spawned sim_creation]\<rparr>"

abbreviation sim_step :: "sim label \<Rightarrow> (sim, nat) server \<Rightarrow> (sim, nat) server \<Rightarrow> bool" where
  "sim_step \<equiv> step sim_host sim_lib create_decoders sim_config"

lemma starts_sim: "starts (init_server (sim_server sim0))"
  by (simp add: starts_def init_server_def sim_server_def sim_db_ok)

lemma image_b: "image_path ''/vaults'' ''b'' = ''/vaults/b.img''"
  by code_simp

lemma sim_auth_pass:
  "auth sim_host sim_lib sim_config (sim_request m p sim_auth) (sim_server w) = (None, sim_server w)"
proof -
  let ?r = "sim_request m p sim_auth"
  have "r_header ?r = r_header (sim_request [] [] sim_auth)" by (simp add: sim_request_def)
  moreover have "basic_auth (sim_request [] [] sim_auth) = Some (c_user sim_config, c_pass sim_config)" by code_simp
  ultimately have "basic_auth ?r = Some (c_user sim_config, c_pass sim_config)" by (simp add: basic_auth_def)
  moreover have "validSession sim_host sim_config ?r (sim_server w) = (False, sim_server w)"
    by (simp add: validSession_def request_cookie_def sim_request_def)
  moreover have "clearAuthFailures sim_config ?r (sim_server w) = sim_server w"
    by (simp add: clearAuthFailures_def sim_server_def fun_eq_iff)
  ultimately show ?thesis by (simp add: auth_def validAPICredentials_master)
qed

lemma create_served:
  "serve sim_host sim_lib create_decoders sim_config no_inputs create_request (sim_server sim0)
     = (Spawn (reply 202 (JobBody (cr_job sim_creation))) sim_creation, reserved_state)"
proof -
  have "auth sim_host sim_lib sim_config create_request (sim_server sim0) = (None, sim_server sim0)"
    unfolding create_request_def by (rule sim_auth_pass)
  moreover have "check_create sim_config (Some create_body) = Inr create_body" by code_simp
  then have "createVault sim_host sim_config (Some create_body) (sim_server sim0)
      = ((reply 202 (JobBody (cr_job sim_creation)), Some sim_creation), reserved_state)"
    by (simp add: createVault_def reserve_def rand_read_def Let_def create_body_def image_b sim_host_def sim_server_def
        sim_creation_def reserved_state_def sim0_def)
  moreover have "clean_segments (r_path create_request)" "csrfGuard sim_lib create_request = None"
    "top_route (r_method create_request) (r_path create_request) = Authenticated"
    "api_route (r_method create_request) (r_path create_request) = Some (PostVaults, [])" by code_simp+
  ultimately show ?thesis
    by (simp add: serve_def serve_mux_def handle_def create_decoders_def spawning_def Let_def)
qed

lemma idle_start: "reachable starts sim_step (init_server (sim_server sim0))"
  by (rule reachable.Start) (rule starts_sim)

lemma creating_step: "sim_step (Request create_request no_inputs) (init_server (sim_server sim0)) creating_server"
proof -
  have "serve sim_host sim_lib create_decoders sim_config no_inputs create_request (st (init_server (sim_server sim0)))
      = (Spawn (reply 202 (JobBody (cr_job sim_creation))) sim_creation, reserved_state)"
    by (simp add: init_server_def create_served)
  from step.Request [OF this] show ?thesis
    by (simp add: arrived_def creating_server_def init_server_def spawned_def)
qed

lemma creating_reachable: "reachable starts sim_step creating_server"
  using reachable.Step [OF idle_start creating_step] .

text \<open>Preparing the vault opens its device and leaves the other vault locked.\<close>

lemma sim_preflight_maps:
  "let w = sworld (snd (create_preflight sim_host ''b'' ''/vaults'' ''/vaults/b.img'' 1 (sim_csys sim0))) in
     sm_maps w = [] \<and> sm_mounts w = [] \<and> sm_files w = sm_files sim0"
  by code_simp

lemma sim_luks_maps:
  "sim_fit (sworld s) \<Longrightarrow> (let w = sworld (snd (create_luks sim_host ''b'' img 1 ''correct horse'' s)) in
     sm_maps w = mapper_path ''b'' # sm_maps (sworld s) \<and> sm_mounts w = sm_mounts (sworld s)
     \<and> sm_files w = (img, 0) # sm_files (sworld s))"
  by (simp add: create_luks_def allocateFile_def send_def run_def step_world_def sim_host_def sim_run_def sim_fails_def
      fallocate_argv_def luksFormat_cmd_def luksOpen_cmd_def sim_effect_def sim_fit_def)

lemma sim_mount_maps:
  "sim_fit (sworld s) \<Longrightarrow> (let w = sworld (snd (create_mount sim_host ''b'' mp s)) in
     sm_maps w = sm_maps (sworld s) \<and> sm_mounts w = sim_entry (mapper_path ''b'') mp # sm_mounts (sworld s)
     \<and> sm_files w = sm_files (sworld s))"
  by (simp add: create_mount_def send_def run_def step_world_def sim_host_def sim_run_def sim_fails_def mkfs_cmd_def
      mount_cmd_def mkdir_all_def chmod_def sim_effect_def sim_fit_def)

lemma sim_stat_devices:
  "is_ok (sim_stat (mapper_path ''b'') w) \<and> \<not> is_ok (sim_stat (mapper_path ''a'') w)"
  if "sm_maps w = [mapper_path ''b'']" "sm_files w = (''/vaults/b.img'', 0) # sm_files sim0"
  using that by (simp add: sim_stat_def sim0_def mapper_path_def)

lemma sim_prepared_world:
  "let s = snd (create_prepare sim_host ''b'' ''/vaults'' ''/vaults/b.img'' 1 ''correct horse'' ''/mnt/b'' (sim_csys sim0)) in
     exists sim_host (mapper_path ''b'') s \<and> \<not> IsUnlocked sim_host sim_vault s"
proof -
  obtain s1 where p: "create_preflight sim_host ''b'' ''/vaults'' ''/vaults/b.img'' 1 (sim_csys sim0) = (None, s1)"
    using sim_preflight by (metis prod.collapse)
  then have f1: "sim_fit (sworld s1)" using sim_preflight_fit by simp
  obtain s2 where l: "create_luks sim_host ''b'' ''/vaults/b.img'' 1 ''correct horse'' s1 = (None, s2)"
    using sim_luks [OF f1] by (metis prod.collapse)
  then have f2: "sim_fit (sworld s2)" using sim_luks [OF f1, of "''/vaults/b.img''"] by simp
  obtain s3 where m: "create_mount sim_host ''b'' ''/mnt/b'' s2 = (None, s3)"
    using sim_mount [OF f2] by (metis prod.collapse)
  have w: "sm_maps (sworld s3) = [mapper_path ''b'']" "sm_mounts (sworld s3) = [sim_entry (mapper_path ''b'') ''/mnt/b'']"
    "sm_files (sworld s3) = (''/vaults/b.img'', 0) # sm_files sim0"
    using sim_preflight_maps sim_luks_maps [OF f1, of "''/vaults/b.img''"] sim_mount_maps [OF f2, of "''/mnt/b''"] p l m
    by (simp_all add: Let_def)
  have "\<not> mountedIn ''/mnt/a'' (render_mounts [sim_entry (mapper_path ''b'') ''/mnt/b''])" by code_simp
  then have "\<not> IsUnlocked sim_host sim_vault s3" "exists sim_host (mapper_path ''b'') s3"
    using sim_stat_devices [OF w(1,3)] w(2)
    by (simp_all add: IsUnlocked_def IsMounted_def ReadMounts_def exists_def sim_host_def sim_vault_def)
  moreover have "create_prepare sim_host ''b'' ''/vaults'' ''/vaults/b.img'' 1 ''correct horse'' ''/mnt/b'' (sim_csys sim0) = (None, s3)"
    unfolding create_prepare_def p prod.case option.case l m ..
  ultimately show ?thesis by simp
qed

text \<open>Its goroutine prepares the vault; the next step inserts the record.\<close>

lemma creating_prepared:
  obtains ch s1 s2 v where
    "job_step sim_host (spawned sim_creation) reserved_state = (Some \<lparr>j_creation = sim_creation, j_phase = Prepared None, j_chan = ch\<rparr>, s1)"
    "job_step sim_host \<lparr>j_creation = sim_creation, j_phase = Prepared None, j_chan = ch\<rparr> s1
       = (Some \<lparr>j_creation = sim_creation, j_phase = Committed (Inr v), j_chan = ch\<rparr>, s2)"
    "\<exists>row. vaults (sdb s2) = vaults (sdb s1) @ [row] \<and> v_name row = ''b'' \<and> v_path row = ''/vaults/b.img'' \<and> v_id row = 2"
    "sdb s1 = sim_db" "exists sim_host (mapper_path ''b'') s1" "\<not> IsUnlocked sim_host sim_vault s1"
proof -
  have csys: "to_csys reserved_state [] = sim_csys sim0"
    by (simp add: to_csys_def reserved_state_def sim_csys_def sim_server_def)
  obtain f k1 where p: "create_prepare sim_host ''b'' ''/vaults'' ''/vaults/b.img'' 1 ''correct horse'' ''/mnt/b'' (sim_csys sim0) = (f, k1)"
    by fastforce
  have ok: "is_ok (fst (create_outcome sim_host ''b'' ''/vaults'' 1 ''correct horse'' ''/mnt/b'' (sim_csys sim0)))"
    using sim_create_ok by (simp add: create_ok_def)
  have "f = None" using ok p by (cases f) (simp_all add: create_outcome_def image_b)
  with ok p have "is_ok (fst (create_commit sim_host ''b'' ''/vaults/b.img'' 1 ''/mnt/b'' k1))"
    by (simp add: create_outcome_def image_b)
  then obtain v k2 where c: "create_commit sim_host ''b'' ''/vaults/b.img'' 1 ''/mnt/b'' k1 = (Inr v, k2)"
    unfolding is_ok_iff by (metis prod.collapse)
  have k1: "sdb k1 = sim_db" using create_prepareD [OF p] by (simp add: sim_csys_db)
  let ?s1 = "from_csys k1 reserved_state"
  let ?j = "\<lparr>j_creation = sim_creation, j_phase = Prepared None, j_chan = chan k1\<rparr>"
  have one: "job_step sim_host (spawned sim_creation) reserved_state = (Some ?j, ?s1)"
    using p \<open>f = None\<close> by (simp add: job_step_def on_channel_def spawned_def csys image_b sim_creation_def)
  have two: "job_step sim_host ?j ?s1 = (Some (?j\<lparr>j_phase := Committed (Inr v), j_chan := chan k2\<rparr>), from_csys k2 reserved_state)"
    using c by (simp add: job_step_def on_channel_def image_b sim_creation_def)
  obtain e where e: "CreateVault sim_host ''b'' ''/vaults/b.img'' 1 ''/mnt/b'' ''b'' k1 = (Inr e, k2)"
    using c by (auto simp: create_commit_def split: prod.splits sum.splits)
  have "sys.more k2 = sys.more k1" using CreateVaultD [OF e] by (elim conjE)
  then have ch: "chan k2 = chan k1" by (cases k1; cases k2) simp
  moreover have "\<exists>row. vaults (sdb k2) = vaults (sdb k1) @ [row] \<and> v_name row = ''b'' \<and> v_path row = ''/vaults/b.img'' \<and> v_id row = 2"
    using CreateVault_Inr [OF e] unfolding k1 by (auto simp: insert_vault_Inr new_vault_row_def sim_db_def)
  moreover have "exists sim_host (mapper_path ''b'') ?s1" "\<not> IsUnlocked sim_host sim_vault ?s1"
    using sim_prepared_world p by (simp_all add: exists_def IsUnlocked_def IsMounted_def ReadMounts_def from_csys_def Let_def split: if_splits)
  ultimately show thesis using one two k1 by (intro that [of "chan k1" ?s1 v "from_csys k2 reserved_state"]) simp_all
qed

section \<open>Reservations\<close>

text \<open>
  C7: In every state the server can reach, whatever the interleaving, the names and the image
  paths that are reserved are exactly those of the creations still running, no two creations
  share either, each image is the canonical path of its name in an allowed directory, and no two
  records share an id or a name.
\<close>
theorem identity_exclusive:
  assumes "reachable starts (step H lib D cfg) \<sigma>"
  shows "distinct (map job_name (running \<sigma>)) \<and> distinct (map job_img (running \<sigma>))
    \<and> pendingNames (st \<sigma>) = set (map job_name (running \<sigma>)) \<and> pendingPaths (st \<sigma>) = set (map job_img (running \<sigma>))
    \<and> (\<forall>j \<in> set (running \<sigma>). job_img j = image_path (cr_path (j_creation j)) (job_name j)
         \<and> cr_path (j_creation j) \<in> set (c_storage cfg))
    \<and> distinct (map v_id (vaults (sdb (st \<sigma>)))) \<and> distinct (map v_name (vaults (sdb (st \<sigma>))))"
  using reservations.inv_reachable [OF assms]
  by (auto simp: reservations_ok_def list_all_iff job_ok_def creation_ok_def job_name_def job_img_def allowedStorageDir_def
      list_ex_iff db_ok_def vt.keys_ok_def)

theorem identity_exclusive_witness:
  "pendingNames (st creating_server) = {''b''} \<and> job_img (hd (running creating_server)) = ''/vaults/b.img''"
  using identity_exclusive [OF creating_reachable]
  by (auto simp: creating_server_def job_name_def job_img_def spawned_def sim_creation_def)

text \<open>
  C2: No ghost records: whenever a record appears, it is inserted either by the one goroutine that
  reserved its name and image, or by an import of a name and an image no creation has reserved.
  So no record ever names an image that somebody else's failing creation will delete.
\<close>
theorem no_ghost_record:
  assumes "reachable starts (step H lib D cfg) \<sigma>" and "step H lib D cfg l \<sigma> \<sigma>'"
    and "v \<in> set (vaults (sdb (st \<sigma>')))" and "v_id v \<notin> v_id ` set (vaults (sdb (st \<sigma>)))"
  shows "(\<exists>j \<in> set (running \<sigma>). l = Goroutine j \<and> job_name j = v_name v \<and> job_img j = v_path v)
    \<or> (\<exists>q. l = Locked (OpImport q) \<and> q_im_name q = v_name v \<and> q_im_path q = v_path v
         \<and> (\<forall>j \<in> set (running \<sigma>). job_name j \<noteq> v_name v \<and> job_img j \<noteq> v_path v))"
proof -
  have inv: "reservations_ok cfg \<sigma>" by (rule reservations.inv_reachable [OF assms(1)])
  have "v \<in> fresh_rows (sdb (st \<sigma>)) (sdb (st \<sigma>'))" using assms(3,4) by (simp add: fresh_rows_def)
  from fresh_rows_step [OF assms(2) this] show ?thesis
  proof
    assume "\<exists>q. l = Locked (OpImport q) \<and> adopts (st \<sigma>) q v"
    then obtain q where "l = Locked (OpImport q)" "q_im_name q = v_name v" "q_im_path q = v_path v"
        "v_name v \<notin> job_name ` set (running \<sigma>)" "v_path v \<notin> job_img ` set (running \<sigma>)"
      using inv by (auto simp: adopts_def not_in_flight_def reservations_ok_def)
    then show ?thesis by (metis imageI)
  next
    assume "\<exists>j \<in> set (running \<sigma>). l = Goroutine j \<and> creates (j_creation j) v"
    then obtain j where j: "j \<in> set (running \<sigma>)" "l = Goroutine j" "creates (j_creation j) v" by blast
    then have "job_ok cfg j" using inv by (simp add: reservations_ok_def list_all_iff)
    then have "job_name j = v_name v \<and> job_img j = v_path v" using j(3) by (simp add: creates_def job_ok_def creation_ok_def job_name_def job_img_def)
    then show ?thesis using j by blast
  qed
qed

text \<open>Two steps of the goroutine of the run above: the vault is prepared, then recorded.\<close>

lemma creating_recorded:
  obtains \<sigma>1 j \<sigma>2 row where "sim_step (Goroutine (spawned sim_creation)) creating_server \<sigma>1"
    "running \<sigma>1 = [j]" "j_creation j = sim_creation" "j_phase j = Prepared None" "ops \<sigma>1 = []" "sdb (st \<sigma>1) = sim_db"
    "sim_step (Goroutine j) \<sigma>1 \<sigma>2"
    "vaults (sdb (st \<sigma>2)) = [sim_vault, row]" "v_id row = 2" "v_name row = ''b''" "v_path row = ''/vaults/b.img''"
    "exists sim_host (mapper_path ''b'') (st \<sigma>1)" "\<not> IsUnlocked sim_host sim_vault (st \<sigma>1)"
proof -
  obtain ch s1 s2 v row where
    one: "job_step sim_host (spawned sim_creation) reserved_state = (Some \<lparr>j_creation = sim_creation, j_phase = Prepared None, j_chan = ch\<rparr>, s1)"
    and two: "job_step sim_host \<lparr>j_creation = sim_creation, j_phase = Prepared None, j_chan = ch\<rparr> s1
       = (Some \<lparr>j_creation = sim_creation, j_phase = Committed (Inr v), j_chan = ch\<rparr>, s2)"
    and row: "vaults (sdb s2) = vaults (sdb s1) @ [row]" "v_name row = ''b''" "v_path row = ''/vaults/b.img''" "v_id row = 2" "sdb s1 = sim_db"
    and open_b: "exists sim_host (mapper_path ''b'') s1" "\<not> IsUnlocked sim_host sim_vault s1"
    by (rule creating_prepared) blast
  let ?j = "\<lparr>j_creation = sim_creation, j_phase = Prepared None, j_chan = ch\<rparr>"
  let ?\<sigma> = "creating_server\<lparr>st := s1, running := [?j]\<rparr>"
  let ?\<sigma>' = "?\<sigma>\<lparr>st := s2, running := advance ?j (Some \<lparr>j_creation = sim_creation, j_phase = Committed (Inr v), j_chan = ch\<rparr>) (running ?\<sigma>)\<rparr>"
  have "sim_step (Goroutine (spawned sim_creation)) creating_server
      (creating_server\<lparr>st := s1, running := advance (spawned sim_creation) (Some ?j) (running creating_server)\<rparr>)"
    by (rule step.Goroutine) (simp_all add: creating_server_def init_server_def one)
  then have first: "sim_step (Goroutine (spawned sim_creation)) creating_server ?\<sigma>"
    by (simp add: advance_def creating_server_def)
  have "sim_step (Goroutine ?j) ?\<sigma> ?\<sigma>'" by (rule step.Goroutine) (simp_all add: two)
  from that [OF first _ _ _ _ _ this, of row] row open_b show thesis
    by (simp add: creating_server_def init_server_def sim_db_def)
qed

theorem no_ghost_record_witness:
  "\<exists>\<sigma> \<sigma>' v j. reachable starts sim_step \<sigma> \<and> sim_step (Goroutine j) \<sigma> \<sigma>' \<and> v \<in> set (vaults (sdb (st \<sigma>'))) \<and> v_name v = ''b''
     \<and> j \<in> set (running \<sigma>) \<and> job_name j = ''b'' \<and> job_img j = v_path v"
proof -
  obtain \<sigma>1 j \<sigma>2 row where c: "sim_step (Goroutine (spawned sim_creation)) creating_server \<sigma>1" "running \<sigma>1 = [j]"
    "sdb (st \<sigma>1) = sim_db" "sim_step (Goroutine j) \<sigma>1 \<sigma>2" "vaults (sdb (st \<sigma>2)) = [sim_vault, row]" "v_id row = 2" "v_name row = ''b''"
    by (rule creating_recorded) blast
  have r: "reachable starts sim_step \<sigma>1" using reachable.Step [OF creating_reachable c(1)] .
  have v: "row \<in> set (vaults (sdb (st \<sigma>2)))" "v_id row \<notin> v_id ` set (vaults (sdb (st \<sigma>1)))"
    using c by (simp_all add: sim_db_def sim_vault_def)
  from no_ghost_record [OF r c(4) v] have "job_name j = v_name row \<and> job_img j = v_path row" using c(2) by auto
  then show ?thesis using r c(2,4,7) v(1) by (metis list.set_intros(1))
qed

section \<open>Sessions\<close>

text \<open>
  C22: Every session comes from a login: whatever happens, a session that exists after a step
  existed before with the same beginning, or the step is a login with the master credentials.
  Nothing prolongs a session's maximum age.
\<close>
theorem sessions_from_logins:
  assumes "step H lib D cfg l \<sigma> \<sigma>'" and "sessions (st \<sigma>') c = Some y"
  shows "(\<exists>x. sessions (st \<sigma>) c = Some x \<and> se_created x = se_created y)
    \<or> (\<exists>r inp. l = Request r inp \<and> r_method r = ''POST'' \<and> r_path r = [''login'']
         \<and> dec_login D (limitBody (in_body inp)) = Some \<lparr>lr_user = c_user cfg, lr_password = c_pass cfg\<rparr>)"
proof -
  consider "no_new_session (st \<sigma>) (st \<sigma>')" | r inp where "l = Request r inp" "is_login cfg D r inp"
    using sessions_step [OF assms(1)] by blast
  then show ?thesis
  proof cases
    case 1
    then show ?thesis using assms(2) unfolding no_new_session_def by metis
  next
    case 2
    then show ?thesis unfolding is_login_def by blast
  qed
qed

definition login_decoders :: decoders where
  "login_decoders = no_decoders\<lparr>dec_login := (\<lambda>_. Some \<lparr>lr_user = ''admin'', lr_password = ''pw''\<rparr>)\<rparr>"

definition sim_session :: string where
  "sim_session = hex_encode (replicate 32 CHR ''r'')"

lemma login_served:
  "sessions (snd (serve sim_host sim_lib login_decoders sim_config no_inputs (sim_request ''POST'' [''login''] []) (sim_server sim0)))
     sim_session = Some \<lparr>se_created = 0, se_seen = 0\<rparr>"
proof -
  let ?r = "sim_request ''POST'' [''login''] []"
  have "clean_segments (r_path ?r)" "csrfGuard sim_lib ?r = None" "top_route (r_method ?r) (r_path ?r) = LoginPost"
    by code_simp+
  moreover have "sessions (snd (login sim_host sim_lib sim_config ?r (Some \<lparr>lr_user = ''admin'', lr_password = ''pw''\<rparr>) (sim_server sim0)))
      sim_session = Some \<lparr>se_created = 0, se_seen = 0\<rparr>" by code_simp
  ultimately show ?thesis by (simp add: serve_def login_decoders_def answer_def case_prod_beta)
qed

theorem sessions_from_logins_witness:
  "\<exists>\<sigma>'. step sim_host sim_lib login_decoders sim_config (Request (sim_request ''POST'' [''login''] []) no_inputs)
     (init_server (sim_server sim0)) \<sigma>' \<and> sessions (st \<sigma>') sim_session \<noteq> None
   \<and> dec_login login_decoders (limitBody (in_body no_inputs)) = Some \<lparr>lr_user = c_user sim_config, lr_password = c_pass sim_config\<rparr>"
proof -
  let ?\<sigma> = "init_server (sim_server sim0)" and ?r = "sim_request ''POST'' [''login''] []"
  obtain x s' where sv: "serve sim_host sim_lib login_decoders sim_config no_inputs ?r (st ?\<sigma>) = (x, s')" by fastforce
  have s: "sessions s' sim_session = Some \<lparr>se_created = 0, se_seen = 0\<rparr>"
    using login_served sv by (simp add: init_server_def)
  have g: "step sim_host sim_lib login_decoders sim_config (Request ?r no_inputs) ?\<sigma> (arrived x s' ?\<sigma>)"
    by (rule step.Request [OF sv])
  have a: "sessions (st (arrived x s' ?\<sigma>)) sim_session = Some \<lparr>se_created = 0, se_seen = 0\<rparr>"
    using s by (cases x) (simp_all add: arrived_def)
  from sessions_from_logins [OF g a] g a show ?thesis
    by (auto simp: init_server_def sim_server_def)
qed

section \<open>Creations end\<close>





section \<open>Configuration\<close>

text \<open>
  A configuration the process starts with names at least one storage and one mount directory,
  none of them empty, allows a positive size, and has credentials that are not empty. (The random
  source returns at least one byte.)
\<close>
lemma config_sound:
  assumes "load_config parse_float oor env generated = Some cfg" and "generated \<noteq> Some []"
  shows "c_storage cfg \<noteq> [] \<and> [] \<notin> set (c_storage cfg) \<and> c_mounts cfg \<noteq> [] \<and> [] \<notin> set (c_mounts cfg)
    \<and> 0 < c_max_gb cfg \<and> c_user cfg \<noteq> [] \<and> c_pass cfg \<noteq> []"
proof -
  obtain n p where n: "parseMaxSize (env ''VAULT_MAX_SIZE_GB'') 100 = Some n"
    and p: "auth_password (env ''AUTH_PASSWORD'') generated = Some p"
    and cfg: "c_storage cfg = parseList (env ''VAULT_STORAGE_DIRS'') ''/vaults''"
      "c_mounts cfg = parseList (env ''VAULT_MOUNT_DIRS'') ''/mnt''" "c_max_gb cfg = n" "c_pass cfg = p"
      "c_user cfg = (if env ''AUTH_USER'' = [] then ''admin'' else env ''AUTH_USER'')"
    using assms(1) by (auto simp: load_config_def Let_def split: option.splits)
  have "p \<noteq> []" using p assms(2) hex_encode_inject [of _ "[]"]
    by (auto simp: auth_password_def hex_encode_def split: if_splits)
  then show ?thesis using parseMaxSize_pos [OF _ n] cfg
      parseList_nonempty [of "''/vaults''" "env ''VAULT_STORAGE_DIRS''"] parseList_nonempty [of "''/mnt''" "env ''VAULT_MOUNT_DIRS''"]
    by simp
qed

text \<open>
  A session length given as \<open>NaN\<close> passes the check for positive hours; what it means is left to
  the conversion of an out-of-range float.
\<close>

lemma nan_hours:
  "parse_float env = Some NaN \<Longrightarrow> env \<noteq> [] \<Longrightarrow> parseHours parse_float env d = Some NaN \<and> duration oor NaN = oor NaN"
  by (simp add: parseHours_def duration_def flt_hours_def float_to_int_def)

end
