(* ===== verification/Registry.thy ===== *)
theory Registry
  imports Windows
begin

text \<open>
  An abstract registry of vaults, the promise behind \<open>internal/api\<close> and \<open>internal/db\<close> together:
  records under ids that are given out once, names and images booked before they are entered. The
  server refines it. What the registry guarantees about ids carries over: a vault that an
  operation read before it waited for \<open>opMu\<close> is, when its turn comes, still the same vault or gone.
\<close>

section \<open>The abstract registry\<close>

record registry =
  entry :: "int \<Rightarrow> vault option"
  last_id :: int
  booked :: "(string \<times> string) set"

definition free_name :: "string \<Rightarrow> registry \<Rightarrow> bool" where
  "free_name n R \<longleftrightarrow> (\<forall>i w. entry R i = Some w \<longrightarrow> v_name w \<noteq> n)"

definition enter :: "vault \<Rightarrow> registry \<Rightarrow> registry" where
  "enter v R = R\<lparr>entry := (entry R)(v_id v \<mapsto> v), last_id := v_id v\<rparr>"

text \<open>
  A name and an image are booked together; a booked vault is entered under the next id; an
  imported one needs a name and an image nobody has booked; a booking is released; a record
  leaves, or gets another size.
\<close>

inductive reg_step :: "registry \<Rightarrow> registry \<Rightarrow> bool" where
  Stutter: "reg_step R R"
| Book: "n \<notin> fst ` booked R \<Longrightarrow> p \<notin> snd ` booked R \<Longrightarrow> reg_step R (R\<lparr>booked := insert (n, p) (booked R)\<rparr>)"
| Enter: "(v_name v, v_path v) \<in> booked R \<Longrightarrow> free_name (v_name v) R \<Longrightarrow> v_id v = last_id R + 1 \<Longrightarrow>
    reg_step R (enter v R)"
| Adopt: "v_name v \<notin> fst ` booked R \<Longrightarrow> v_path v \<notin> snd ` booked R \<Longrightarrow> free_name (v_name v) R \<Longrightarrow>
    v_id v = last_id R + 1 \<Longrightarrow> reg_step R (enter v R)"
| Release: "b \<in> booked R \<Longrightarrow> reg_step R (R\<lparr>booked := booked R - {b}\<rparr>)"
| Leave: "entry R i = Some v \<Longrightarrow> reg_step R (R\<lparr>entry := (entry R)(i := None)\<rparr>)"
| Resize: "entry R i = Some v \<Longrightarrow> reg_step R (R\<lparr>entry := (entry R)(i \<mapsto> v\<lparr>v_size := n\<rparr>)\<rparr>)"

definition reg_starts :: "registry \<Rightarrow> bool" where
  "reg_starts R \<longleftrightarrow> booked R = {} \<and> (\<forall>i w. entry R i = Some w \<longrightarrow> v_id w = i \<and> i \<le> last_id R)"

subsection \<open>Ids are given out once\<close>

definition same_vault :: "vault \<Rightarrow> vault \<Rightarrow> bool" where
  "same_vault v w \<longleftrightarrow> w = v\<lparr>v_size := v_size w\<rparr>"

lemma same_vault_refl [simp]: "same_vault v v"
  by (simp add: same_vault_def)

lemma same_vault_trans: "same_vault u v \<Longrightarrow> same_vault v w \<Longrightarrow> same_vault u w"
  by (cases u; cases v; cases w) (simp add: same_vault_def)

lemma same_vault_size [simp]: "same_vault v (v\<lparr>v_size := n\<rparr>)"
  by (simp add: same_vault_def)

text \<open>In a later registry an id of the earlier one stands for the same vault, or for none.\<close>

definition later :: "registry \<Rightarrow> registry \<Rightarrow> bool" where
  "later R R' \<longleftrightarrow> last_id R \<le> last_id R' \<and>
     (\<forall>i w. i \<le> last_id R \<longrightarrow> entry R' i = Some w \<longrightarrow> (\<exists>v. entry R i = Some v \<and> same_vault v w))"

lemma later_refl [simp]: "later R R"
  by (auto simp: later_def)

lemma later_trans: "later R S \<Longrightarrow> later S T \<Longrightarrow> later R T"
  unfolding later_def by (meson order_trans same_vault_trans)

lemma reg_step_later: "reg_step R R' \<Longrightarrow> later R R'"
  by (induction rule: reg_step.induct) (auto simp: later_def enter_def)

lemma reg_run_later: "reg_step\<^sup>*\<^sup>* R R' \<Longrightarrow> later R R'"
  by (induction rule: rtranclp_induct) (auto intro: later_trans reg_step_later)

section \<open>Simulation\<close>

text \<open>A system with an invariant, and what its steps look like through an abstraction.\<close>

locale simulation_of = invariant_of init trans inv
  for init :: "'s \<Rightarrow> bool" and trans :: "'l \<Rightarrow> 's \<Rightarrow> 's \<Rightarrow> bool" and inv :: "'s \<Rightarrow> bool" +
  fixes ainit :: "'a \<Rightarrow> bool" and atrans :: "'a \<Rightarrow> 'a \<Rightarrow> bool" and abs :: "'s \<Rightarrow> 'a"
  assumes abs_init: "init s \<Longrightarrow> ainit (abs s)"
    and abs_step: "inv s \<Longrightarrow> trans l s t \<Longrightarrow> atrans (abs s) (abs t)"
begin

lemma abs_reachable: "reachable init trans s \<Longrightarrow> reachable ainit (\<lambda>_ :: unit. atrans) (abs s)"
proof (induction rule: reachable.induct)
  case (Start s)
  then show ?case by (rule reachable.Start [where init = ainit, OF abs_init])
next
  case (Step s l t)
  then show ?case using inv_reachable abs_step reachable.Step [where trans = "\<lambda>_ :: unit. atrans"] by metis
qed

lemma abs_run:
  assumes "reachable init trans s" and "(\<lambda>s t. \<exists>l. trans l s t)\<^sup>*\<^sup>* s t"
  shows "reachable init trans t \<and> atrans\<^sup>*\<^sup>* (abs s) (abs t)"
  using assms(2)
proof (induction rule: rtranclp_induct)
  case (step t u)
  then obtain l where l: "trans l t u" by blast
  have "atrans (abs t) (abs u)" using abs_step [OF inv_reachable l] step.IH by blast
  then show ?case using step.IH reachable.Step [where trans = trans and l = l] l by (meson rtranclp.rtrancl_into_rtrancl)
qed (use assms(1) in simp)

end

section \<open>The server as a registry\<close>

definition entry_of :: "db_state \<Rightarrow> int \<Rightarrow> vault option" where
  "entry_of d i = find (\<lambda>v. v_id v = i) (vaults d)"

definition bookings :: "job list \<Rightarrow> (string \<times> string) set" where
  "bookings js = (\<lambda>j. (job_name j, job_img j)) ` set js"

definition rows_registry :: "(string \<times> string) set \<Rightarrow> db_state \<Rightarrow> registry" where
  "rows_registry B d = \<lparr>entry = entry_of d, last_id = vault_seq d, booked = B\<rparr>"

definition registry_of :: "('w, 'l) server \<Rightarrow> registry" where
  "registry_of \<sigma> = rows_registry (bookings (running \<sigma>)) (sdb (st \<sigma>))"

lemma rows_registry_simps [simp]:
  "entry (rows_registry B d) = entry_of d" "last_id (rows_registry B d) = vault_seq d" "booked (rows_registry B d) = B"
  by (simp_all add: rows_registry_def)

lemma entry_of_Some: "db_ok d \<Longrightarrow> entry_of d i = Some v \<longleftrightarrow> v \<in> set (vaults d) \<and> v_id v = i"
  using select_vault_iff [of d i v] by (simp add: entry_of_def select_vault_def row_or_none_def split: option.splits)

lemma entry_of_mem: "db_ok d \<Longrightarrow> v \<in> set (vaults d) \<Longrightarrow> entry_of d (v_id v) = Some v"
  by (simp add: entry_of_Some)

lemma entry_of_delete: "entry_of (delete_vault i d) = (entry_of d)(i := None)"
  using vt.find_del_same vt.find_del_other by (auto simp: entry_of_def fun_eq_iff)

lemma entry_of_size:
  "entry_of (update_vault_size i n d) =
     (case entry_of d i of None \<Rightarrow> entry_of d | Some v \<Rightarrow> (entry_of d)(i \<mapsto> v\<lparr>v_size := n\<rparr>))"
proof -
  have *: "find (\<lambda>v. v_id v = j) (map (\<lambda>v. if v_id v = i then v\<lparr>v_size := n\<rparr> else v) vs)
      = map_option (\<lambda>v. if v_id v = i then v\<lparr>v_size := n\<rparr> else v) (find (\<lambda>v. v_id v = j) vs)" for j vs
    by (induction vs) auto
  have "entry_of (update_vault_size i n d) j =
      (if j = i then map_option (\<lambda>v. v\<lparr>v_size := n\<rparr>) (entry_of d j) else entry_of d j)" for j
    by (cases "entry_of d j") (auto simp: entry_of_def update_vault_size_def * dest: find_Some_mem)
  then show ?thesis by (auto simp: fun_eq_iff split: option.splits)
qed

lemma entry_of_insert:
  assumes "db_ok d" and "insert_vault now name path n mp mapper d = Inr (i, d')"
  shows "entry_of d' = (entry_of d)(i \<mapsto> new_vault_row now name path n mp mapper d)"
proof -
  let ?r = "new_vault_row now name path n mp mapper d"
  have i: "i = v_id ?r" "vaults d' = vaults d @ [?r]" using assms(2) by (simp_all add: insert_vault_Inr new_vault_row_def)
  have "entry_of d' j = entry_of d j" if "j \<noteq> i" for j
    using vt.find_ins_other [of "(now, name, path, n, mp, mapper)" d i d' j] assms(2) that
    by (simp add: insert_vault_args_def entry_of_def)
  moreover have "entry_of d' i = Some ?r"
    using entry_of_mem [OF db_ok_insert_vault [OF assms]] i by simp
  ultimately show ?thesis by auto
qed

text \<open>A change of the records is a step of the registry.\<close>

lemma row_change_registry:
  assumes "row_change P d d'" and ok: "db_ok d"
    and P: "\<And>v. P v \<Longrightarrow> (v_name v, v_path v) \<in> B \<or> v_name v \<notin> fst ` B \<and> v_path v \<notin> snd ` B"
  shows "reg_step (rows_registry B d) (rows_registry B d')"
  using assms(1)
proof cases
  case (Added now name path n mp mapper i)
  let ?r = "new_vault_row now name path n mp mapper d"
  have r: "v_id ?r = vault_seq d + 1" "i = v_id ?r" "vault_seq d' = v_id ?r" "v_name ?r = name"
    using Added(1) by (simp_all add: insert_vault_Inr new_vault_row_def)
  have free: "free_name (v_name ?r) (rows_registry B d)"
    using Added(1) ok by (auto simp: free_name_def entry_of_Some insert_vault_Inr r(4))
  have e: "enter ?r (rows_registry B d) = rows_registry B d'"
    using entry_of_insert [OF ok Added(1)] r by (simp add: enter_def rows_registry_def)
  from P [OF Added(2)] show ?thesis
    using reg_step.Enter [of ?r "rows_registry B d"] reg_step.Adopt [of ?r "rows_registry B d"] free r(1) e by auto
next
  case (Removed i)
  have "rows_registry B d' = (rows_registry B d)\<lparr>entry := (entry_of d)(i := None)\<rparr>"
    using Removed entry_of_delete [of i d] by (simp add: rows_registry_def delete_vault_def)
  moreover have "entry_of d i = None \<Longrightarrow> (rows_registry B d)\<lparr>entry := (entry_of d)(i := None)\<rparr> = rows_registry B d"
    by (auto simp: rows_registry_def)
  ultimately show ?thesis
    using reg_step.Stutter reg_step.Leave [of "rows_registry B d" i] by (cases "entry_of d i") auto
next
  case (Resized i n)
  have "rows_registry B d' = (rows_registry B d)\<lparr>entry := entry_of (update_vault_size i n d)\<rparr>"
    using Resized by (simp add: rows_registry_def update_vault_size_def)
  moreover have "(rows_registry B d)\<lparr>entry := entry_of d\<rparr> = rows_registry B d" by (simp add: rows_registry_def)
  ultimately show ?thesis
    using reg_step.Stutter reg_step.Resize [of "rows_registry B d" i] by (cases "entry_of d i") (auto simp: entry_of_size)
qed (simp add: reg_step.Stutter)

lemma rows_registry_same: "vaults d' = vaults d \<Longrightarrow> vault_seq d' = vault_seq d \<Longrightarrow> rows_registry B d' = rows_registry B d"
  by (simp add: rows_registry_def entry_of_def fun_eq_iff)

lemma bookings_pending:
  assumes "reservations_ok cfg \<sigma>"
  shows "fst ` bookings (running \<sigma>) = pendingNames (st \<sigma>)" and "snd ` bookings (running \<sigma>) = pendingPaths (st \<sigma>)"
  using assms by (simp_all add: reservations_ok_def bookings_def image_image)

lemma bookings_advance:
  assumes "reservations_ok cfg \<sigma>" and "j \<in> set (running \<sigma>)"
  shows "bookings (remove1 j (running \<sigma>)) = bookings (running \<sigma>) - {(job_name j, job_img j)}"
    and "job_name k = job_name j \<Longrightarrow> job_img k = job_img j \<Longrightarrow>
      bookings (advance j (Some k) (running \<sigma>)) = bookings (running \<sigma>)"
proof -
  let ?f = "\<lambda>j. (job_name j, job_img j)"
  have d: "distinct (map ?f (running \<sigma>))"
    using assms(1) by (auto simp: reservations_ok_def distinct_map inj_on_def)
  show "bookings (remove1 j (running \<sigma>)) = bookings (running \<sigma>) - {(job_name j, job_img j)}"
    using remove1_distinct_map(2) [OF d assms(2)] by (simp add: bookings_def)
  show "job_name k = job_name j \<Longrightarrow> job_img k = job_img j \<Longrightarrow>
      bookings (advance j (Some k) (running \<sigma>)) = bookings (running \<sigma>)"
    using advance_Some(2) [OF d assms(2), of k] by (simp add: bookings_def)
qed

section \<open>The server refines the registry\<close>

lemma registry_request:
  assumes inv: "reservations_ok cfg \<sigma>" and e: "request_effect cfg x (st \<sigma>) s'"
  shows "reg_step (registry_of \<sigma>) (registry_of (arrived x s' \<sigma>))"
proof -
  have d: "rows_registry B (sdb s') = rows_registry B (sdb (st \<sigma>))" for B
    using e by (intro rows_registry_same) (simp_all add: request_effect_def db_calm_def)
  show ?thesis
  proof (cases x)
    case (Spawn resp c)
    let ?R = "registry_of \<sigma>"
    have "cr_name c \<notin> fst ` booked ?R" "cr_img c \<notin> snd ` booked ?R"
      using e Spawn bookings_pending [OF inv] by (auto simp: request_effect_def registry_of_def)
    then have "reg_step ?R (?R\<lparr>booked := insert (cr_name c, cr_img c) (booked ?R)\<rparr>)" by (rule reg_step.Book)
    moreover have "registry_of (arrived x s' \<sigma>) = ?R\<lparr>booked := insert (cr_name c, cr_img c) (booked ?R)\<rparr>"
      using d by (simp add: Spawn arrived_def registry_of_def bookings_def job_name_def job_img_def rows_registry_def)
    ultimately show ?thesis by simp
  qed (simp_all add: arrived_def registry_of_def d reg_step.Stutter)
qed

lemma registry_goroutine:
  assumes inv: "reservations_ok cfg \<sigma>" and j: "j \<in> set (running \<sigma>)" and s: "job_step H j (st \<sigma>) = (j', s')"
  shows "reg_step (registry_of \<sigma>) (registry_of (\<sigma>\<lparr>st := s', running := advance j j' (running \<sigma>)\<rparr>))"
proof -
  note e = job_step_effect [OF s]
  have mem: "(job_name j, job_img j) \<in> bookings (running \<sigma>)" using j by (auto simp: bookings_def)
  show ?thesis
  proof (cases j')
    case None
    then have "sdb s' = sdb (st \<sigma>)" using e by (simp add: releasePending_def)
    then have "registry_of (\<sigma>\<lparr>st := s', running := advance j j' (running \<sigma>)\<rparr>)
        = (registry_of \<sigma>)\<lparr>booked := booked (registry_of \<sigma>) - {(job_name j, job_img j)}\<rparr>"
      using None bookings_advance(1) [OF inv j] by (simp add: registry_of_def advance_def rows_registry_def)
    then show ?thesis using reg_step.Release [of "(job_name j, job_img j)" "registry_of \<sigma>"] mem by (simp add: registry_of_def)
  next
    case (Some k)
    then have k: "job_name k = job_name j" "job_img k = job_img j" using e by (simp_all add: job_name_def job_img_def)
    have ok: "db_ok (sdb (st \<sigma>))" "job_ok cfg j" using inv j by (simp_all add: reservations_ok_def list_all_iff)
    have r: "row_change (creates (j_creation j)) (sdb (st \<sigma>)) (sdb s')" using e by (simp add: db_effect_def)
    have "(v_name v, v_path v) \<in> bookings (running \<sigma>)" if "creates (j_creation j) v" for v
      using that mem ok(2) by (simp add: creates_def job_ok_def creation_ok_def job_name_def job_img_def)
    then show ?thesis
      using row_change_registry [OF r ok(1)] bookings_advance(2) [OF inv j k] Some by (simp add: registry_of_def)
  qed
qed

lemma registry_stutter:
  "running \<sigma>' = running \<sigma> \<Longrightarrow> sdb (st \<sigma>') = sdb (st \<sigma>) \<Longrightarrow> reg_step (registry_of \<sigma>) (registry_of \<sigma>')"
  by (simp add: registry_of_def reg_step.Stutter)

lemma registry_step:
  assumes inv: "reservations_ok cfg \<sigma>" and s: "step H lib D cfg l \<sigma> \<sigma>'"
  shows "reg_step (registry_of \<sigma>) (registry_of \<sigma>')"
  using s
proof cases
  case (Request inp r x s')
  then show ?thesis using registry_request [OF inv] serve_effect [OF Request(3)] by blast
next
  case (Locked p resp s')
  have r: "row_change (not_in_flight (st \<sigma>)) (sdb (st \<sigma>)) (sdb s')"
    using perform_effect [OF Locked(4)] row_change_mono by (fastforce simp: db_effect_def adopts_def)
  have "db_ok (sdb (st \<sigma>))" using inv by (simp add: reservations_ok_def)
  from row_change_registry [OF r this, of "bookings (running \<sigma>)"] bookings_pending [OF inv] Locked(2)
  show ?thesis by (simp add: registry_of_def not_in_flight_def)
next
  case (Goroutine j j' s')
  then show ?thesis using registry_goroutine [OF inv Goroutine(3,4)] by simp
next
  case StartupScan
  then show ?thesis using startup_effect [of "st \<sigma>" H] by (intro registry_stutter) simp_all
next
  case (AutoLockGone i rest s')
  then show ?thesis using autoLock_read_effect [OF AutoLockGone(5)] by (intro registry_stutter) simp_all
next
  case (AutoLockFound i rest since v s')
  then show ?thesis using autoLock_read_effect [OF AutoLockFound(5)] by (intro registry_stutter) simp_all
next
  case (AutoLockTry i since v dropped s')
  then show ?thesis using autoLock_locked_effect [OF AutoLockTry(4)] by (intro registry_stutter) simp_all
qed (intro registry_stutter; simp add: cleanupSessions_def cleanupJobs_def cleanupLimiters_def)+

lemma registry_starts: "starts \<sigma> \<Longrightarrow> reg_starts (registry_of \<sigma>)"
  by (auto simp: starts_def reg_starts_def registry_of_def bookings_def entry_of_Some db_ok_def vt.keys_ok_def)

interpretation registry: simulation_of starts "step H lib D cfg" "reservations_ok cfg" reg_starts reg_step registry_of
  by unfold_locales (fact registry_starts, fact registry_step)

section \<open>What waits for opMu\<close>

text \<open>The vault an operation has read before it waits.\<close>

definition op_vault :: "op \<Rightarrow> vault option" where
  "op_vault p = (case p of
     OpUnlock v _ \<Rightarrow> Some v | OpLock v \<Rightarrow> Some v | OpMount v \<Rightarrow> Some v | OpKeyAdd v _ \<Rightarrow> Some v
   | OpKeyRemove v _ _ \<Rightarrow> Some v | OpDelete _ v \<Rightarrow> Some v | OpImport _ \<Rightarrow> None | OpGrow _ _ _ \<Rightarrow> None)"

text \<open>A vault read earlier: its id is given out, and whoever has it now is that vault.\<close>

definition read_before :: "db_state \<Rightarrow> vault \<Rightarrow> bool" where
  "read_before d v \<longleftrightarrow> v_id v \<le> vault_seq d \<and> (\<forall>w. entry_of d (v_id v) = Some w \<longrightarrow> same_vault v w)"

definition op_ok :: "db_state \<Rightarrow> op \<Rightarrow> bool" where
  "op_ok d p \<longleftrightarrow> (\<forall>v. op_vault p = Some v \<longrightarrow> read_before d v) \<and> (\<forall>i v. p = OpDelete i v \<longrightarrow> v_id v = i)"

definition snapshots_ok :: "config \<Rightarrow> ('w, 'l) server \<Rightarrow> bool" where
  "snapshots_ok cfg \<sigma> \<longleftrightarrow> reservations_ok cfg \<sigma> \<and> (\<forall>p \<in> set (ops \<sigma>). op_ok (sdb (st \<sigma>)) p)
     \<and> (case autolock \<sigma> of Locking i _ v \<Rightarrow> v_id v = i \<and> read_before (sdb (st \<sigma>)) v | _ \<Rightarrow> True)"

lemma read_before_now: "db_ok d \<Longrightarrow> v \<in> set (vaults d) \<Longrightarrow> read_before d v"
  by (auto simp: read_before_def entry_of_mem) (auto simp: db_ok_def vt.keys_ok_def)

lemma read_before_later:
  assumes "later (rows_registry B d) (rows_registry B' d')" and "read_before d v"
  shows "read_before d' v"
  using assms unfolding read_before_def later_def rows_registry_simps by (meson order_trans same_vault_trans)

lemma op_ok_later: "later (rows_registry B d) (rows_registry B' d') \<Longrightarrow> op_ok d p \<Longrightarrow> op_ok d' p"
  using read_before_later unfolding op_ok_def by blast

text \<open>A request that ends up waiting has read its vault from the database just before.\<close>

lemma lookup_row: "lookupVault H i s = (Inr v, s') \<Longrightarrow> v \<in> set (vaults (sdb s)) \<and> v_id v = i \<and> sdb s' = sdb s"
  by (drule lookupVaultD) (auto dest: select_vault_Inr)

lemma unlockAllowed_sdb: "unlockAllowed H lib cfg r s = (a, s') \<Longrightarrow> sdb s' = sdb s"
  by (drule unlockAllowedD) simp

lemma waiting_rows:
  "find_vault H r s = (Inr v, s') \<Longrightarrow> v \<in> set (vaults (sdb s))"
  "delete_prepare H r s = (Inr (i, v), s') \<Longrightarrow> v \<in> set (vaults (sdb s)) \<and> v_id v = i"
  "unlock_prepare H lib cfg r b1 s = (Inr (v, c), s') \<Longrightarrow> v \<in> set (vaults (sdb s))"
  "keyslotAdd_prepare H lib cfg r b2 s = (Inr (v, k), s') \<Longrightarrow> v \<in> set (vaults (sdb s))"
  "keyslotRemove_prepare H lib cfg r b3 s = (Inr (v, c, n), s') \<Longrightarrow> v \<in> set (vaults (sdb s))"
  unfolding find_vault_def delete_prepare_def unlock_prepare_def keyslotAdd_prepare_def keyslotRemove_prepare_def
  by (auto split: prod.splits bool.splits option.splits sum.splits dest!: lookup_row unlockAllowed_sdb)

definition reads_row :: "db_state \<Rightarrow> op \<Rightarrow> bool" where
  "reads_row d p \<longleftrightarrow> (\<forall>v. op_vault p = Some v \<longrightarrow> v \<in> set (vaults d)) \<and> (\<forall>i v. p = OpDelete i v \<longrightarrow> v_id v = i)"

lemma waiting_Wait: "waiting f q = (Wait p, s') \<longleftrightarrow> (\<exists>x. q = (Inr x, s') \<and> p = f x)"
  by (auto simp: waiting_def split: prod.splits sum.splits)

lemma not_Wait [simp]: "answer q \<noteq> (Wait p, s')" "spawning q' \<noteq> (Wait p, s')"
  by (auto simp: answer_def spawning_def split: prod.splits option.splits)

lemma handle_waits: "handle H lib D cfg inp r rt s = (Wait p, s') \<Longrightarrow> reads_row (sdb s) p"
  by (cases rt) (auto simp: handle_def Let_def waiting_Wait reads_row_def op_vault_def dest: waiting_rows)

lemma serve_waits:
  assumes "serve H lib D cfg inp r s = (Wait p, s')"
  shows "reads_row (sdb s) p"
  using assms
proof (cases rule: serve_cases)
  case (served s1)
  have c: "vaults (sdb s1) = vaults (sdb s)" using calm_auth [OF served(2)] by (simp add: calm_def db_calm_def)
  have "reads_row (sdb s1) p"
    using served(3) handle_waits by (auto simp: serve_mux_def split: option.splits prod.splits if_splits)
  then show ?thesis using c by (simp add: reads_row_def)
qed simp_all

lemma op_ok_read: "db_ok d \<Longrightarrow> reads_row d p \<Longrightarrow> op_ok d p"
  using read_before_now by (auto simp: op_ok_def reads_row_def)

text \<open>What was read before stays so; what a step newly reads is a row.\<close>

lemma snapshots_ok_step:
  assumes inv: "snapshots_ok cfg \<sigma>" and s: "step H lib D cfg l \<sigma> \<sigma>'"
  shows "snapshots_ok cfg \<sigma>'"
proof -
  have r: "reservations_ok cfg \<sigma>" and o: "\<forall>p \<in> set (ops \<sigma>). op_ok (sdb (st \<sigma>)) p"
    and a: "\<And>i t v. autolock \<sigma> = Locking i t v \<Longrightarrow> v_id v = i \<and> read_before (sdb (st \<sigma>)) v"
    using inv by (auto simp: snapshots_ok_def)
  have ok: "db_ok (sdb (st \<sigma>))" using r by (simp add: reservations_ok_def)
  have l: "later (registry_of \<sigma>) (registry_of \<sigma>')" using reg_step_later [OF registry_step [OF r s]] .
  note keep = op_ok_later [OF l [unfolded registry_of_def]] read_before_later [OF l [unfolded registry_of_def]]
  have waits: "\<forall>p \<in> set (ops \<sigma>'). op_ok (sdb (st \<sigma>')) p"
  proof
    fix p assume p: "p \<in> set (ops \<sigma>')"
    from s p have "p \<in> set (ops \<sigma>) \<or> reads_row (sdb (st \<sigma>)) p"
      by cases (auto simp: arrived_def split: outcome.splits dest: serve_waits notin_set_remove1 in_set_remove1 set_remove1_subset [THEN subsetD])
    then show "op_ok (sdb (st \<sigma>')) p" using o keep(1) op_ok_read [OF ok] by blast
  qed
  have locks: "v_id v = i \<and> read_before (sdb (st \<sigma>')) v" if v: "autolock \<sigma>' = Locking i t v" for i t v
  proof -
    from s v have "autolock \<sigma> = Locking i t v \<or> (\<exists>s'. autoLock_read H i (st \<sigma>) = (Some (t, v), s'))"
      by cases (auto simp: arrived_def split: outcome.splits if_splits)
    then have "v_id v = i \<and> read_before (sdb (st \<sigma>)) v"
    proof
      assume "\<exists>s'. autoLock_read H i (st \<sigma>) = (Some (t, v), s')"
      then have "select_vault i (sdb (st \<sigma>)) = Inr v"
        by (auto simp: autoLock_read_def Let_def split: prod.splits sum.splits dest!: GetVaultD)
      then show ?thesis using read_before_now [OF ok] select_vault_Inr by blast
    qed (use a in blast)
    then show ?thesis using keep(2) by blast
  qed
  show ?thesis
    using reservations_ok_step [OF r s] waits locks by (auto simp: snapshots_ok_def split: loop.splits)
qed

lemma snapshots_ok_starts: "starts \<sigma> \<Longrightarrow> snapshots_ok cfg \<sigma>"
  using reservations_ok_starts [of \<sigma> cfg] by (simp add: snapshots_ok_def starts_def)

interpretation snapshots: invariant_of starts "step H lib D cfg" "snapshots_ok cfg"
  by unfold_locales (fact snapshots_ok_starts, fact snapshots_ok_step)

end
