(* ===== verification/RowTypes.thy ===== *)
theory RowTypes
  imports Registry
begin

text \<open>
  What the vault records look like. The names, image paths, mount points and mapper names that
  reach \<open>cryptsetup\<close>, \<open>mount\<close> and the file system come from records; every record entered since
  the process started has the shape the validation of the handlers promises, whichever way and
  in whichever interleaving it was entered.
\<close>

definition below_storage :: "config \<Rightarrow> string \<Rightarrow> bool" where
  "below_storage cfg p \<longleftrightarrow> (\<exists>d \<in> set (c_storage cfg). trim_suffix d ''/'' \<noteq> [] \<and> prefix (trim_suffix d ''/'' @ ''/'') p)"

definition row_ok :: "config \<Rightarrow> vault \<Rightarrow> bool" where
  "row_ok cfg v \<longleftrightarrow> isValidVaultName (v_name v) \<and> v_mapper v = v_name v
     \<and> (\<exists>d \<in> set (c_mounts cfg). v_mount v = d @ ''/'' @ v_name v)
     \<and> ((\<exists>d \<in> set (c_storage cfg). v_path v = image_path d (v_name v)) \<or> below_storage cfg (v_path v))"

text \<open>What a validated import still waiting for \<open>opMu\<close> carries.\<close>

definition import_ok :: "config \<Rightarrow> import_req \<Rightarrow> bool" where
  "import_ok cfg q \<longleftrightarrow> isValidVaultName (q_im_name q) \<and> q_im_mount q \<in> set (c_mounts cfg) \<and> below_storage cfg (q_im_path q)"

lemma check_import_ok: "check_import H cfg b s = Inr q \<Longrightarrow> import_ok cfg q"
  by (auto simp: check_import_def import_ok_def below_storage_def pathInStorageDir_def allowedMountDir_def list_ex_iff Let_def
      split: option.splits if_splits bool.splits dest!: storage_match_True)

lemma import_waits:
  "serve H lib D cfg inp r s = (Wait (OpImport q), s') \<Longrightarrow> import_ok cfg q"
proof (erule serve_cases)
  fix s1 assume "serve_mux H lib D cfg inp r s1 = (Wait (OpImport q), s')"
  then obtain rt i where "handle H lib D cfg inp (r\<lparr>r_id := i\<rparr>) rt s1 = (Wait (OpImport q), s')"
    by (auto simp: serve_mux_def split: option.splits prod.splits if_splits)
  then show "import_ok cfg q"
    by (cases rt) (auto simp: handle_def Let_def waiting_Wait dest: check_import_ok)
qed simp_all

lemma adopts_row_ok: "adopts s q v \<Longrightarrow> import_ok cfg q \<Longrightarrow> row_ok cfg v"
  by (auto simp: adopts_def import_ok_def row_ok_def)

lemma creates_row_ok: "creates c v \<Longrightarrow> creation_ok cfg c \<Longrightarrow> row_ok cfg v"
  by (auto simp: creates_def creation_ok_def row_ok_def allowedStorageDir_def allowedMountDir_def list_ex_iff)

section \<open>The invariant\<close>

text \<open>\<open>n\<close> is the last id given out before the process started.\<close>

definition rows_ok :: "config \<Rightarrow> int \<Rightarrow> db_state \<Rightarrow> bool" where
  "rows_ok cfg n d \<longleftrightarrow> n \<le> vault_seq d \<and> (\<forall>v \<in> set (vaults d). n < v_id v \<longrightarrow> row_ok cfg v)"

definition typed :: "config \<Rightarrow> int \<Rightarrow> ('w, 'l) server \<Rightarrow> bool" where
  "typed cfg n \<sigma> \<longleftrightarrow> reservations_ok cfg \<sigma> \<and> rows_ok cfg n (sdb (st \<sigma>)) \<and> (\<forall>q. OpImport q \<in> set (ops \<sigma>) \<longrightarrow> import_ok cfg q)"

definition starts_after :: "int \<Rightarrow> ('w, 'l) server \<Rightarrow> bool" where
  "starts_after n \<sigma> \<longleftrightarrow> starts \<sigma> \<and> vault_seq (sdb (st \<sigma>)) = n"

lemma rows_ok_change:
  assumes "rows_ok cfg n d" and "row_change P d d'" and "\<And>v. P v \<Longrightarrow> row_ok cfg v"
  shows "rows_ok cfg n d'"
  using assms(2)
proof cases
  case (Added now name path sz mp mapper i)
  then show ?thesis using assms(1,3) by (auto simp: rows_ok_def insert_vault_Inr)
qed (use assms(1) in \<open>auto simp: rows_ok_def row_ok_def delete_vault_def update_vault_size_def\<close>)

lemma rows_ok_same: "rows_ok cfg n d \<Longrightarrow> vaults d' = vaults d \<Longrightarrow> vault_seq d' = vault_seq d \<Longrightarrow> rows_ok cfg n d'"
  by (simp add: rows_ok_def)

lemma typed_starts: "starts_after n \<sigma> \<Longrightarrow> typed cfg n \<sigma>"
  using reservations_ok_starts [of \<sigma> cfg]
  by (auto simp: starts_after_def typed_def rows_ok_def starts_def db_ok_def vt.keys_ok_def)

lemma typed_rows_step:
  assumes t: "typed cfg n \<sigma>" and s: "step H lib D cfg l \<sigma> \<sigma>'"
  shows "rows_ok cfg n (sdb (st \<sigma>'))"
proof -
  have r: "rows_ok cfg n (sdb (st \<sigma>))" using t by (simp add: typed_def)
  from s show ?thesis
  proof cases
    case (Request inp q x s')
    have "st \<sigma>' = s'" using Request(2) by (cases x) (simp_all add: arrived_def)
    then show ?thesis using serve_effect [OF Request(3)] rows_ok_same [OF r] by (simp add: request_effect_def db_calm_def)
  next
    case (Locked p resp s')
    have "row_ok cfg v" if "\<exists>q. p = OpImport q \<and> adopts (st \<sigma>) q v" for v
      using that t Locked(3) adopts_row_ok unfolding typed_def by blast
    then show ?thesis using rows_ok_change [OF r] perform_effect [OF Locked(4)] Locked(2) unfolding db_effect_def by auto
  next
    case (Goroutine j j' s')
    have "creation_ok cfg (j_creation j)" using t Goroutine(3) by (simp add: typed_def reservations_ok_def list_all_iff job_ok_def)
    then have "row_ok cfg v" if "creates (j_creation j) v" for v using creates_row_ok that by blast
    then show ?thesis using rows_ok_change [OF r] job_step_effect [OF Goroutine(4)] Goroutine(2) unfolding db_effect_def by auto
  next
    case StartupScan
    then show ?thesis using startup_effect [of "st \<sigma>" H] r by simp
  next
    case (AutoLockGone i rest s')
    then show ?thesis using autoLock_read_effect [OF AutoLockGone(5)] r by simp
  next
    case (AutoLockFound i rest since v s')
    then show ?thesis using autoLock_read_effect [OF AutoLockFound(5)] r by simp
  next
    case (AutoLockTry i since v dropped s')
    then show ?thesis using autoLock_locked_effect [OF AutoLockTry(4)] r by simp
  qed (use r in \<open>simp_all add: cleanupSessions_def cleanupJobs_def cleanupLimiters_def\<close>)
qed

lemma typed_step:
  assumes t: "typed cfg n \<sigma>" and s: "step H lib D cfg l \<sigma> \<sigma>'"
  shows "typed cfg n \<sigma>'"
proof -
  have "import_ok cfg q" if q: "OpImport q \<in> set (ops \<sigma>')" for q
  proof -
    have "OpImport q \<in> set (ops \<sigma>) \<or> import_ok cfg q"
      using s q by cases (auto simp: arrived_def split: outcome.splits dest: import_waits set_remove1_subset [THEN subsetD])
    then show ?thesis using t by (auto simp: typed_def)
  qed
  moreover have "reservations_ok cfg \<sigma>'" using reservations_ok_step [OF _ s] t by (simp add: typed_def)
  ultimately show ?thesis using typed_rows_step [OF t s] by (simp add: typed_def)
qed

interpretation typing: invariant_of "starts_after n" "step H lib D cfg" "typed cfg n"
  by unfold_locales (fact typed_starts, fact typed_step)

end
