(* ===== verification/CreateStream.thy ===== *)
theory CreateStream
  imports Handlers
begin

text \<open>
  What a creation tells its client: the events its channel carries, stage by stage, and the stream
  \<open>vaultEvents\<close> makes of them. Every stage adds notes of progress only (\<open>noted\<close>); the outcome adds
  the one terminal event, which \<open>verdict\<close> reads.
\<close>

section \<open>Notes of progress\<close>

definition progress_note :: "progress \<Rightarrow> bool" where
  "progress_note p \<longleftrightarrow> \<not> p_done p \<and> p_error p = [] \<and> p_percent p \<le> 95"

definition noted :: "'w csys \<Rightarrow> 'w csys \<Rightarrow> bool" where
  "noted s s' \<longleftrightarrow> (\<exists>es. chan s' = chan s @ es \<and> list_all progress_note es)"

lemma notes_same [intro]: "chan s' = chan s \<Longrightarrow> noted s s'"
  by (simp add: noted_def)

lemma notes_trans [trans]: "noted r s \<Longrightarrow> noted s t \<Longrightarrow> noted r t"
  by (auto simp: noted_def)

lemma notes_send: "n \<le> 95 \<Longrightarrow> noted s (send H st msg n s)"
  by (simp add: noted_def send_def progress_event_def progress_note_def split: prod.splits)

lemma notes_send_then: "n \<le> 95 \<Longrightarrow> noted (send H st msg n s) t \<Longrightarrow> noted s t"
  by (rule notes_trans [OF notes_send])

lemma notes_effect:
  "run H c s = (r, s') \<Longrightarrow> noted s s'" "mkdir_all H p s = (e, s') \<Longrightarrow> noted s s'"
  "remove H p s = (e, s') \<Longrightarrow> noted s s'" "chmod H p m s = (e, s') \<Longrightarrow> noted s s'"
  "run_dd H a s = (d, s') \<Longrightarrow> noted s s'" "sql H q s = (x, s') \<Longrightarrow> noted s s'"
  by (cases r, auto dest: csys_chanD)+

text \<open>The ticks of \<open>dd\<close> never claim more than 60 percent.\<close>

lemma dd_percent_le: "dd_percent sz tot \<le> 60"
  by (simp add: dd_percent_def Let_def)

lemma notes_dd_ticks: "noted s (dd_ticks H tot ts s)"
proof (induction H tot ts s rule: dd_ticks.induct)
  case (3 H tot sz ts s)
  have "dd_percent sz tot \<le> 95" using dd_percent_le [of sz tot] by simp
  then show ?case unfolding dd_ticks.simps Let_def by (rule notes_send_then) (rule 3 [OF refl])
qed (simp_all add: notes_same)

lemma notes_createFile: "createFile H img n s = (r, s') \<Longrightarrow> noted s s'"
  by (auto simp: createFile_def Let_def split: prod.splits sum.splits dd_end.splits
      dest!: notes_effect(5) intro: notes_trans [OF _ notes_dd_ticks])

lemma notes_allocateFile: "allocateFile H img n s = (r, s') \<Longrightarrow> noted s s'"
  by (cases "remove H img (snd (run H (Cmd True (fallocate_argv n img) []) s))")
    (auto simp: allocateFile_def split: prod.splits option.splits
      dest!: notes_effect(1) notes_effect(3) notes_createFile intro: notes_trans notes_trans [OF _ notes_send])

lemma notes_preflight: "create_preflight H name path img n s = (r, s') \<Longrightarrow> noted s s'"
  by (auto simp: create_preflight_def ensureLoopSupport_def Let_def
      split: prod.splits option.splits if_splits dest!: csys_chanD intro!: notes_same)
    (metis csys_runD prod.collapse)+

lemma notes_luks:
  assumes "create_luks H name img n pw s = (r, s')"
  shows "noted s s'"
proof -
  obtain e1 s1 where a: "allocateFile H img n
      (send H ''creating'' (''Allocating '' @ itoa n @ '' GB container file...'') 0 s) = (e1, s1)" by fastforce
  have n1: "noted s s1" using notes_allocateFile [OF a] by (rule notes_send_then [rotated]) simp
  obtain o2 e2 s2 where b: "run H (luksFormat_cmd img pw)
      (send H ''encrypting'' ''Encrypting vault with LUKS...'' 62 s1) = ((o2, e2), s2)" by (metis prod.collapse)
  have n2: "noted s1 s2" using notes_effect(1) [OF b] by (rule notes_send_then [rotated]) simp
  obtain o3 e3 s3 where c: "run H (luksOpen_cmd img name pw)
      (send H ''opening'' ''Opening LUKS device...'' 75 s2) = ((o3, e3), s3)" by (metis prod.collapse)
  have n3: "noted s2 s3" using notes_effect(1) [OF c] by (rule notes_send_then [rotated]) simp
  show ?thesis using assms a b c notes_trans [OF n1 n2] notes_trans [OF notes_trans [OF n1 n2] n3] n1
    by (auto simp: create_luks_def split: option.splits)
qed

lemma notes_mount:
  assumes "create_mount H name mp s = (r, s')"
  shows "noted s s'"
proof -
  obtain o1 e1 s1 where a: "run H (mkfs_cmd name)
      (send H ''formatting'' ''Formatting ext4 filesystem...'' 85 s) = ((o1, e1), s1)" by (metis prod.collapse)
  have n1: "noted s s1" using notes_effect(1) [OF a] by (rule notes_send_then [rotated]) simp
  obtain e2 s2 where b: "mkdir_all H mp (send H ''mounting'' ''Mounting filesystem...'' 95 s1) = (e2, s2)" by fastforce
  have n2: "noted s1 s2" using notes_effect(2) [OF b] by (rule notes_send_then [rotated]) simp
  note n12 = notes_trans [OF n1 n2]
  show ?thesis using assms a b n1 n12
    by (auto simp: create_mount_def split: prod.splits option.splits
        dest!: notes_effect(1) notes_effect(4) intro: notes_trans)
qed

lemma notes_prepare: "create_prepare H name path img n pw mp s = (r, s') \<Longrightarrow> noted s s'"
  by (auto simp: create_prepare_def split: prod.splits option.splits
      dest!: notes_preflight notes_luks notes_mount intro: notes_trans)

lemma notes_commit: "create_commit H name img n mp s = (r, s') \<Longrightarrow> noted s s'"
  by (auto simp: create_commit_def CreateVault_def Let_def split: prod.splits sum.splits option.splits
      dest!: csys_sqlD intro!: notes_same)

lemma notes_outcome: "create_outcome H name path n pw mp s = (r, s') \<Longrightarrow> noted s s'"
  by (auto simp: create_outcome_def split: prod.splits option.splits
      dest!: notes_prepare notes_commit intro: notes_trans)

section \<open>The verdict\<close>

definition verdict :: "failure + vault \<Rightarrow> progress" where
  "verdict r = (case r of Inl f \<Rightarrow> error_event (f_ctx f @ '': '' @ f_err f) | Inr v \<Rightarrow> done_event (v_id v))"

lemma verdict_simps [simp]:
  "p_done (verdict (Inr v))" "p_vault (verdict (Inr v)) = v_id v" "p_error (verdict (Inr v)) = []"
  "\<not> p_done (verdict (Inl f))" "p_error (verdict (Inl f)) = f_ctx f @ '': '' @ f_err f"
  by (simp_all add: verdict_def error_event_def done_event_def)

lemma chan_snd [simp]: "chan (snd (run H c (s :: 'w csys))) = chan s" "chan (snd (remove H p (s :: 'w csys))) = chan s"
  by (cases "run H c s"; auto dest: csys_runD) (cases "remove H p s"; auto dest: csys_removeD)

lemma chan_finish:
  assumes "\<forall>w. fst (h_deliver H w)"
  shows "chan (create_finish H name img mp r s) = chan s @ [verdict r]"
proof -
  have t: "chan (sendTerminal H ev s) = chan s @ [ev]" for ev s
    using assms by (auto simp: sendTerminal_def split: prod.splits) (metis fst_conv)
  show ?thesis
    by (auto simp: create_finish_def create_undo_def fail_def emit_def Let_def verdict_def t split: sum.splits)
qed

lemma Create_chan:
  assumes "\<forall>w. fst (h_deliver H w)"
  obtains es where "chan (Create H name path n pw mp s) = chan s @ es @ [verdict (fst (create_outcome H name path n pw mp s))]"
    and "list_all progress_note es"
proof -
  obtain r s1 where o: "create_outcome H name path n pw mp s = (r, s1)" by fastforce
  show thesis using notes_outcome [OF o] that
    by (auto simp: Create_def o chan_finish [OF assms] noted_def)
qed

section \<open>The stream\<close>

text \<open>A client that stays until the channel is closed reads all of it, and its job is dropped.\<close>

lemma sse_all: "sse_loop (map Event es @ [ChannelClosed]) = (es, True)"
  by (induction es) simp_all

lemma vaultEvents_all:
  assumes "jobs s i = Some k"
  shows "vaultEvents i True (map Event es @ [ChannelClosed]) s = (reply 200 (EventStream es), s\<lparr>jobs := (jobs s)(i := None)\<rparr>)"
  using assms by (simp add: vaultEvents_def sse_all)

end
