(* ===== verification/RunCorrect.thy ===== *)
theory RunCorrect
  imports ServerCorrect RowTypes CreateStream
begin

text \<open>
  The properties over whole runs of the server: the registry it refines, the identity of the
  vaults that operations wait with, the shape of the records, the end of every creation under
  a fair scheduler, and what its client is told.
\<close>

section \<open>The registry\<close>

text \<open>
  C9: The server refines the abstract registry: every step of every run, seen through the
  records and the reservations, is one step of the registry or none. Names and images are booked
  together before a record is entered, a record gets the next id, an import takes only what nobody
  has booked, and nothing else changes the records.
\<close>
theorem server_refines_registry:
  assumes "reachable starts (step H lib D cfg) \<sigma>" and "step H lib D cfg l \<sigma> \<sigma>'"
  shows "reg_step (registry_of \<sigma>) (registry_of \<sigma>') \<and> reachable reg_starts (\<lambda>_ :: unit. reg_step) (registry_of \<sigma>)"
  using registry.abs_step [OF reservations.inv_reachable [OF assms(1)] assms(2)] registry.abs_reachable [OF assms(1)]
  by blast

theorem server_refines_registry_witness:
  "reg_step (registry_of (init_server (sim_server sim0))) (registry_of creating_server)
     \<and> booked (registry_of creating_server) = {(''b'', ''/vaults/b.img'')}"
  using server_refines_registry [OF idle_start creating_step]
  by (simp add: registry_of_def creating_server_def bookings_def job_name_def job_img_def spawned_def sim_creation_def)

text \<open>
  C10: Ids are given out once: a record that exists later under an id given out by now is a record
  of now, the same in everything but its size. So the id of a deleted vault never comes back, and
  an auto-lock window, a job or a bookmark kept by id can never reach another vault.
\<close>
theorem ids_never_reused:
  assumes "reachable starts (step H lib D cfg) \<sigma>" and "(\<lambda>\<sigma> \<sigma>'. \<exists>l. step H lib D cfg l \<sigma> \<sigma>')\<^sup>*\<^sup>* \<sigma> \<sigma>'"
    and "w \<in> set (vaults (sdb (st \<sigma>')))" and "v_id w \<le> vault_seq (sdb (st \<sigma>))"
  shows "\<exists>v \<in> set (vaults (sdb (st \<sigma>))). w = v\<lparr>v_size := v_size w\<rparr>"
proof -
  have r: "reachable starts (step H lib D cfg) \<sigma>'" and "reg_step\<^sup>*\<^sup>* (registry_of \<sigma>) (registry_of \<sigma>')"
    using registry.abs_run [OF assms(1,2)] by blast+
  then have l: "later (registry_of \<sigma>) (registry_of \<sigma>')" by (simp add: reg_run_later)
  have ok: "db_ok (sdb (st \<sigma>))" "db_ok (sdb (st \<sigma>'))"
    using reservations.inv_reachable [OF assms(1)] reservations.inv_reachable [OF r] by (simp_all add: reservations_ok_def)
  have "entry (registry_of \<sigma>') (v_id w) = Some w" using entry_of_mem [OF ok(2) assms(3)] by (simp add: registry_of_def)
  then obtain v where "entry (registry_of \<sigma>) (v_id w) = Some v" "same_vault v w"
    using l assms(4) unfolding later_def registry_of_def rows_registry_simps by blast
  then show ?thesis using entry_of_Some [OF ok(1)] by (auto simp: registry_of_def same_vault_def)
qed

theorem ids_never_reused_witness:
  "sim_vault \<in> set (vaults (sdb (st (init_server (sim_server sim0)))))
     \<and> (\<exists>v \<in> set (vaults (sdb (st (init_server (sim_server sim0))))). v_id v = 1 \<and> v_name v = ''a'')"
proof -
  let ?\<sigma> = "init_server (sim_server sim0)"
  have r: "(\<lambda>\<sigma> \<sigma>'. \<exists>l. sim_step l \<sigma> \<sigma>')\<^sup>*\<^sup>* ?\<sigma> creating_server" using creating_step by blast
  have m: "sim_vault \<in> set (vaults (sdb (st creating_server)))" "v_id sim_vault \<le> vault_seq (sdb (st ?\<sigma>))"
    by (simp_all add: creating_server_def init_server_def reserved_state_def sim_server_def sim_db_def sim_vault_def)
  from ids_never_reused [OF idle_start r m] obtain v where
    "v \<in> set (vaults (sdb (st ?\<sigma>)))" "sim_vault = v\<lparr>v_size := v_size sim_vault\<rparr>" by blast
  then show ?thesis by (auto simp: init_server_def sim_server_def sim_db_def sim_vault_def)
qed

section \<open>What waits for opMu\<close>

text \<open>
  C8: An operation reads its vault before it waits for \<open>opMu\<close>, and the auto-lock loop before it
  takes it. When its turn comes, after whatever else has run meanwhile, the record with that id
  is still that vault, with the same name, image, mount point and mapper, or there is none: no
  lock, unlock, mount, key change or deletion is ever applied to a vault its sender did not mean.
\<close>
theorem waiting_identity:
  assumes "reachable starts (step H lib D cfg) \<sigma>"
    and "(\<exists>p \<in> set (ops \<sigma>). op_vault p = Some v) \<or> (\<exists>i since. autolock \<sigma> = Locking i since v)"
    and "w \<in> set (vaults (sdb (st \<sigma>)))" and "v_id w = v_id v"
  shows "w = v\<lparr>v_size := v_size w\<rparr>"
proof -
  have s: "snapshots_ok cfg \<sigma>" by (rule snapshots.inv_reachable [OF assms(1)])
  then have "read_before (sdb (st \<sigma>)) v" using assms(2) by (auto simp: snapshots_ok_def op_ok_def)
  moreover have "db_ok (sdb (st \<sigma>))" using s by (simp add: snapshots_ok_def reservations_ok_def)
  then have "entry_of (sdb (st \<sigma>)) (v_id v) = Some w" using entry_of_mem [OF _ assms(3)] assms(4) by simp
  ultimately show ?thesis by (simp add: read_before_def same_vault_def)
qed

definition lock_request :: request where
  "lock_request = sim_request ''POST'' [''api'', ''vaults'', ''1'', ''lock''] sim_auth"

definition waiting_server :: "(sim, nat) server" where
  "waiting_server = (init_server (sim_server sim0))\<lparr>ops := [OpLock sim_vault]\<rparr>"

lemma waiting_reachable: "reachable starts sim_step waiting_server"
proof -
  let ?\<sigma> = "init_server (sim_server sim0)"
  have "auth sim_host sim_lib sim_config lock_request (sim_server sim0) = (None, sim_server sim0)"
    unfolding lock_request_def by (rule sim_auth_pass)
  moreover have "find_vault sim_host (lock_request\<lparr>r_id := ''1''\<rparr>) (sim_server sim0) = (Inr sim_vault, sim_server sim0)"
  proof -
    have "parseID (lock_request\<lparr>r_id := ''1''\<rparr>) = Some 1" by code_simp
    moreover have "select_vault 1 sim_db = Inr sim_vault" by code_simp
    ultimately show ?thesis
      by (simp add: find_vault_def lookupVault_def GetVault_def sql_def sim_server_def sim_host_def)
  qed
  moreover have "clean_segments (r_path lock_request)" "csrfGuard sim_lib lock_request = None"
    "top_route (r_method lock_request) (r_path lock_request) = Authenticated"
    "api_route (r_method lock_request) (r_path lock_request) = Some (PostLock, ''1'')" by code_simp+
  ultimately have "serve sim_host sim_lib create_decoders sim_config no_inputs lock_request (st ?\<sigma>) = (Wait (OpLock sim_vault), sim_server sim0)"
    by (simp add: serve_def serve_mux_def handle_def waiting_def init_server_def Let_def)
  from step.Request [OF this] have "sim_step (Request lock_request no_inputs) ?\<sigma> waiting_server"
    by (simp add: arrived_def waiting_server_def init_server_def)
  then show ?thesis using reachable.Step [OF idle_start] by metis
qed

theorem waiting_identity_witness:
  "\<exists>w \<in> set (vaults (sdb (st waiting_server))). v_id w = v_id sim_vault \<and> w = sim_vault\<lparr>v_size := v_size w\<rparr>"
proof -
  have op: "\<exists>p \<in> set (ops waiting_server). op_vault p = Some sim_vault" and m: "sim_vault \<in> set (vaults (sdb (st waiting_server)))"
    by (simp_all add: waiting_server_def op_vault_def init_server_def sim_server_def sim_db_def)
  from waiting_identity [OF waiting_reachable disjI1 [OF op] m refl] m show ?thesis by blast
qed

section \<open>The shape of the records\<close>

text \<open>
  C12: Whatever the interleaving, every record entered since the process started is well formed:
  its name is a valid vault name (so it has no slash, dot or blank), its mapper device is called
  like it, its mount point is that name in an allowed mount directory, and its image is either
  the canonical path of the name in an allowed storage directory or an imported path below one.
\<close>
theorem records_typed:
  assumes "reachable (starts_after n) (step H lib D cfg) \<sigma>" and "v \<in> set (vaults (sdb (st \<sigma>)))" and "n < v_id v"
  shows "isValidVaultName (v_name v) \<and> v_mapper v = v_name v
    \<and> (\<exists>d \<in> set (c_mounts cfg). v_mount v = d @ ''/'' @ v_name v)
    \<and> ((\<exists>d \<in> set (c_storage cfg). v_path v = image_path d (v_name v)) \<or> below_storage cfg (v_path v))"
  using typing.inv_reachable [OF assms(1)] assms(2,3) by (auto simp: typed_def rows_ok_def row_ok_def)

theorem records_typed_witness:
  "\<exists>\<sigma> v. reachable (starts_after 1) sim_step \<sigma> \<and> v \<in> set (vaults (sdb (st \<sigma>))) \<and> v_id v = 2 \<and> v_mapper v = ''b''"
proof -
  obtain \<sigma>1 j \<sigma>2 row where c: "sim_step (Goroutine (spawned sim_creation)) creating_server \<sigma>1"
    "sim_step (Goroutine j) \<sigma>1 \<sigma>2" "vaults (sdb (st \<sigma>2)) = [sim_vault, row]" "v_id row = 2" "v_name row = ''b''"
    by (rule creating_recorded) blast
  have "starts_after 1 (init_server (sim_server sim0))"
    using starts_sim by (simp add: starts_after_def init_server_def sim_server_def sim_db_def)
  then have r: "reachable (starts_after 1) sim_step \<sigma>2"
    using reachable.Start reachable.Step creating_step c(1,2) by metis
  have v: "row \<in> set (vaults (sdb (st \<sigma>2)))" "1 < v_id row" using c by simp_all
  from records_typed [OF r v] show ?thesis using r v(1) c(4,5) by metis
qed

section \<open>Every creation ends\<close>

text \<open>
  A run of the server for ever, and a scheduler that is fair to the creation goroutines: whenever
  one stands at some stage, its next stage is taken at some later time.
\<close>

definition forever :: "'w host \<Rightarrow> 'l lib \<Rightarrow> decoders \<Rightarrow> config \<Rightarrow> (nat \<Rightarrow> 'w label) \<Rightarrow> (nat \<Rightarrow> ('w, 'l) server) \<Rightarrow> bool" where
  "forever H lib D cfg ls tr \<longleftrightarrow> (\<forall>i. step H lib D cfg (ls i) (tr i) (tr (Suc i)))"

definition fair_jobs :: "(nat \<Rightarrow> 'w label) \<Rightarrow> (nat \<Rightarrow> ('w, 'l) server) \<Rightarrow> bool" where
  "fair_jobs ls tr \<longleftrightarrow> (\<forall>i. \<forall>j \<in> set (running (tr i)). \<exists>k \<ge> i. ls k = Goroutine j)"

lemma job_stays:
  "step H lib D cfg l \<sigma> \<sigma>' \<Longrightarrow> j \<in> set (running \<sigma>) \<Longrightarrow> l \<noteq> Goroutine j \<Longrightarrow> j \<in> set (running \<sigma>')"
  by (erule step.cases) (auto simp: arrived_def advance_def in_set_remove1 split: outcome.splits option.splits)

lemma job_taken:
  assumes f: "forever H lib D cfg ls tr" and "fair_jobs ls tr" and j: "j \<in> set (running (tr i))"
  shows "\<exists>k \<ge> i. ls k = Goroutine j \<and> j \<in> set (running (tr k))"
proof -
  let ?P = "\<lambda>k. i \<le> k \<and> ls k = Goroutine j"
  let ?k = "LEAST k. ?P k"
  have "\<exists>k. ?P k" using assms(2) j by (auto simp: fair_jobs_def)
  then have k: "?P ?k" by (rule LeastI_ex)
  have "j \<in> set (running (tr m))" if "i \<le> m" "m \<le> ?k" for m
    using that
  proof (induction m rule: dec_induct)
    case (step m)
    then have "ls m \<noteq> Goroutine j" using not_less_Least [of m ?P] by auto
    then show ?case using job_stays step f by (metis forever_def Suc_leD)
  qed (rule j)
  then show ?thesis using k by blast
qed

text \<open>
  C13: Under a fair scheduler every creation comes to its end: whatever else the server does, and
  however the creation fares, its goroutine releases the name and the image path it reserved, so
  neither can stay blocked. (A stage is one step of the model: the commands of a creation return.)
\<close>
theorem creation_releases:
  assumes "forever H lib D cfg ls tr" and "fair_jobs ls tr" and "j \<in> set (running (tr i))"
  shows "\<exists>k \<ge> i. job_name j \<notin> pendingNames (st (tr k)) \<and> job_img j \<notin> pendingPaths (st (tr k))"
  using assms(3)
proof (induction "stages_left j" arbitrary: j i rule: less_induct)
  case less
  obtain k where k: "i \<le> k" "ls k = Goroutine j" using job_taken [OF assms(1,2) less.prems] by blast
  then have "step H lib D cfg (Goroutine j) (tr k) (tr (Suc k))" using assms(1) by (metis forever_def)
  then obtain j' s' where s: "job_step H j (st (tr k)) = (j', s')" "st (tr (Suc k)) = s'"
      "running (tr (Suc k)) = advance j j' (running (tr k))"
    by (auto simp: step_Goroutine_iff)
  note e = job_step_effect [OF s(1)]
  show ?case
  proof (cases j')
    case None
    then have "job_name j \<notin> pendingNames (st (tr (Suc k))) \<and> job_img j \<notin> pendingPaths (st (tr (Suc k)))"
      using e s(2) by (simp add: releasePending_def job_name_def job_img_def)
    then show ?thesis using k(1) le_SucI by blast
  next
    case (Some j2)
    then have n: "job_name j2 = job_name j" "job_img j2 = job_img j" and m: "j2 \<in> set (running (tr (Suc k)))"
      using e s(3) by (simp_all add: job_name_def job_img_def advance_def)
    from less.hyps [OF job_step_progress [OF s(1) [unfolded Some]] m] show ?thesis
      unfolding n using k(1) by (meson le_SucI order_trans)
  qed
qed

text \<open>A run in which a creation goes through its stages and nothing else happens.\<close>

definition sim_stage :: "nat \<Rightarrow> job option \<times> (sim, nat) hstate" where
  "sim_stage i = (run_stage sim_host ^^ i) (Some (spawned sim_creation), reserved_state)"

definition sim_trace :: "nat \<Rightarrow> (sim, nat) server" where
  "sim_trace i = creating_server\<lparr>st := snd (sim_stage i), running := (case fst (sim_stage i) of None \<Rightarrow> [] | Some j \<Rightarrow> [j])\<rparr>"

definition sim_labels :: "nat \<Rightarrow> sim label" where
  "sim_labels i = (case fst (sim_stage i) of None \<Rightarrow> World (sworld (snd (sim_stage i))) | Some j \<Rightarrow> Goroutine j)"

lemma sim_stage_Suc: "sim_stage (Suc i) = run_stage sim_host (sim_stage i)"
  by (simp add: sim_stage_def)

lemma sim_forever: "forever sim_host sim_lib create_decoders sim_config sim_labels sim_trace"
  unfolding forever_def
proof
  fix i
  obtain jo s where p: "sim_stage i = (jo, s)" by fastforce
  show "sim_step (sim_labels i) (sim_trace i) (sim_trace (Suc i))"
  proof (cases jo)
    case None
    have "sim_trace (Suc i) = (sim_trace i)\<lparr>st := (st (sim_trace i))\<lparr>sworld := sworld s\<rparr>\<rparr>"
      using None p by (simp add: sim_trace_def sim_stage_Suc run_stage_def)
    then show ?thesis using step.World [of sim_host sim_lib create_decoders sim_config "sworld s" "sim_trace i"] None p
      by (simp add: sim_labels_def)
  next
    case (Some j)
    obtain j' s' where q: "job_step sim_host j s = (j', s')" by fastforce
    have "sim_trace (Suc i) = (sim_trace i)\<lparr>st := s', running := advance j j' (running (sim_trace i))\<rparr>"
      using Some p q by (simp add: sim_trace_def sim_stage_Suc run_stage_def advance_def split: option.splits)
    moreover have "j \<in> set (running (sim_trace i))" "st (sim_trace i) = s" using Some p by (simp_all add: sim_trace_def)
    ultimately show ?thesis using step.Goroutine [of j "sim_trace i" sim_host j' s'] q Some p by (simp add: sim_labels_def)
  qed
qed

theorem creation_releases_witness:
  "\<exists>k. ''b'' \<notin> pendingNames (st (sim_trace k)) \<and> ''b'' \<in> pendingNames (st (sim_trace 0))"
proof -
  have "sim_labels i = Goroutine j" if "j \<in> set (running (sim_trace i))" for i j
    using that by (cases "fst (sim_stage i)") (simp_all add: sim_labels_def sim_trace_def)
  then have "fair_jobs sim_labels sim_trace" unfolding fair_jobs_def by blast
  moreover have "spawned sim_creation \<in> set (running (sim_trace 0))" by (simp add: sim_trace_def sim_stage_def)
  ultimately obtain k where "job_name (spawned sim_creation) \<notin> pendingNames (st (sim_trace k))"
    using creation_releases [OF sim_forever] by blast
  then show ?thesis
    by (auto simp: job_name_def spawned_def sim_creation_def sim_trace_def sim_stage_def reserved_state_def)
qed

section \<open>What the client is told\<close>

text \<open>
  C14: A client that follows a creation to its end is told the truth about it: the stream is notes
  of progress, none of them past 95 percent or final, and then exactly one verdict. It says done
  precisely when the pipeline succeeded, and the id it carries is that of the one new record, which
  names the image, mount point, size and mapper that were prepared; otherwise it is an error and the
  records are as they were. (The last event is delivered, as it is to a client that reads; the driver
  reports the id of a row it inserted.)
\<close>
theorem creation_told:
  assumes "\<forall>w. fst (h_deliver H w)" and "\<forall>w. fst (h_sql H LastInsertId w) = None" and "db_ok (sdb s)"
    and "jobs t (cr_job c) = Some k"
  shows "\<exists>es e. fst (vaultEvents (cr_job c) True (map Event (fst (create_goroutine H c s)) @ [ChannelClosed]) t)
        = reply 200 (EventStream (es @ [e]))
    \<and> list_all progress_note es
    \<and> p_done e = create_ok H (cr_name c) (cr_path c) (cr_size c) (cr_password c) (cr_mount c) (to_csys s [])
    \<and> (if p_done e
       then \<exists>row. select_vault (p_vault e) (sdb (snd (create_goroutine H c s))) = Inr row
         \<and> v_name row = cr_name c \<and> v_mapper row = cr_name c \<and> v_path row = image_path (cr_path c) (cr_name c)
         \<and> v_size row = cr_size c \<and> v_mount row = cr_mount c \<and> p_error e = [] \<and> v_id row = p_vault e
         \<and> v_id row \<notin> v_id ` set (vaults (sdb s))
       else p_error e \<noteq> [] \<and> sdb (snd (create_goroutine H c s)) = sdb s)"
proof -
  let ?C = "Create H (cr_name c) (cr_path c) (cr_size c) (cr_password c) (cr_mount c) (to_csys s [])"
  obtain r s1 where o: "create_outcome H (cr_name c) (cr_path c) (cr_size c) (cr_password c) (cr_mount c) (to_csys s []) = (r, s1)"
    by fastforce
  obtain es where ch: "chan ?C = es @ [verdict r]" "list_all progress_note es"
    using Create_chan [OF assms(1)] o by (metis append_Nil fst_conv csys_simps(5))
  have db: "sdb (snd (create_goroutine H c s)) = sdb ?C"
    by (simp add: create_goroutine_def Let_def mark_created_effect releasePending_def)
  have str: "fst (vaultEvents (cr_job c) True (map Event (fst (create_goroutine H c s)) @ [ChannelClosed]) t)
      = reply 200 (EventStream (es @ [verdict r]))"
    using ch vaultEvents_all [OF assms(4), of "es @ [verdict r]"] by (simp add: create_goroutine_def Let_def)
  have rec: "case r of Inl f \<Rightarrow> sdb ?C = sdb s | Inr v \<Rightarrow> \<exists>row. select_vault (v_id v) (sdb ?C) = Inr row
      \<and> v_name row = cr_name c \<and> v_path row = image_path (cr_path c) (cr_name c) \<and> v_size row = cr_size c
      \<and> v_mount row = cr_mount c \<and> v_mapper row = cr_name c \<and> v_id row \<notin> v_id ` set (vaults (sdb s))"
    using create_records [of "to_csys s []" H "cr_name c" "cr_path c" "cr_size c" "cr_password c" "cr_mount c"] assms(2,3)
    unfolding o fst_conv csys_simps by blast
  have ok: "create_ok H (cr_name c) (cr_path c) (cr_size c) (cr_password c) (cr_mount c) (to_csys s []) = is_ok r"
    by (simp add: create_ok_def o)
  show ?thesis using str ch(2) rec db ok
    by (intro exI [of _ es] exI [of _ "verdict r"]) (cases r; auto dest: select_vault_Inr)
qed

theorem creation_told_witness:
  "\<exists>es e. fst (vaultEvents (cr_job sim_creation) True
       (map Event (fst (create_goroutine sim_host sim_creation reserved_state)) @ [ChannelClosed]) reserved_state)
        = reply 200 (EventStream (es @ [e]))
    \<and> p_done e
    \<and> (\<exists>row. select_vault (p_vault e) (sdb (snd (create_goroutine sim_host sim_creation reserved_state))) = Inr row
         \<and> v_name row = ''b'' \<and> v_mount row = ''/mnt/b'')"
proof -
  have h: "\<forall>w. fst (h_deliver sim_host w)" "\<forall>w. fst (h_sql sim_host LastInsertId w) = None" by (simp_all add: sim_host_def)
  have s: "db_ok (sdb reserved_state)" "jobs reserved_state (cr_job sim_creation) = Some 0"
    using sim_db_ok by (simp_all add: reserved_state_def sim_server_def)
  have "to_csys reserved_state [] = sim_csys sim0"
    by (simp add: to_csys_def reserved_state_def sim_csys_def sim_server_def)
  then have "create_ok sim_host (cr_name sim_creation) (cr_path sim_creation) (cr_size sim_creation) (cr_password sim_creation)
      (cr_mount sim_creation) (to_csys reserved_state [])"
    using sim_create_ok by (simp add: sim_creation_def)
  moreover have "cr_name sim_creation = ''b''" "cr_mount sim_creation = ''/mnt/b''" by (simp_all add: sim_creation_def)
  ultimately show ?thesis using creation_told [OF h s] by metis
qed

end
