(* ===== verification/Lifecycle.thy ===== *)
theory Lifecycle
  imports Server Config
begin

text \<open>
  \<open>main.go\<close> after the configuration: the HTTP server, the signals and the way to the exit of the
  process. The goroutines of the server go on in between: cancelling their context asks them to
  stop, nothing waits until they have.
\<close>

section \<open>The HTTP server\<close>

record http_server =
  srv_addr :: string
  srv_read_header_timeout :: int
  srv_read_timeout :: int
  srv_idle_timeout :: int
  srv_write_timeout :: int

text \<open>No limit on a response, so that an event stream may last.\<close>

definition newHTTPServer :: http_server where
  "newHTTPServer = \<lparr>srv_addr = '':8080'', srv_read_header_timeout = 10 * second, srv_read_timeout = 30 * second,
     srv_idle_timeout = 120 * second, srv_write_timeout = 0\<rparr>"

section \<open>The process\<close>

text \<open>
  \<open>main\<close> waits for a signal, for the drain, or locks one vault after the other: whether the drain
  succeeded, the vaults still to look at and the failures so far. \<open>Terminated\<close> holds the status.
\<close>

datatype stage = Serving | Draining | Closing bool "vault list" "lock_error list" | Terminated int "lock_error list"

record ('w, 'l) process =
  proc_server :: "('w, 'l) server"
  proc_stage :: stage

definition at_stage :: "stage \<Rightarrow> ('w, 'l) hstate \<Rightarrow> ('w, 'l) process \<Rightarrow> ('w, 'l) process" where
  "at_stage g s p = p\<lparr>proc_server := (proc_server p)\<lparr>st := s\<rparr>, proc_stage := g\<rparr>"

text \<open>\<open>vault.LockAllUnlocked\<close>, first the list, then its loop, one round at a time.\<close>

definition begin_close :: "'w host \<Rightarrow> bool \<Rightarrow> ('w, 'l) process \<Rightarrow> ('w, 'l) process" where
  "begin_close H ok p =
     (case ListVaults H (st (proc_server p)) of
        (Inl e, s1) \<Rightarrow> at_stage (Closing ok [] [(''(list vaults)'', db_error_text e)]) s1 p
      | (Inr vs, s1) \<Rightarrow> at_stage (Closing ok vs []) s1 p)"

definition close_next :: "'w host \<Rightarrow> ('w, 'l) process \<Rightarrow> ('w, 'l) process" where
  "close_next H p =
     (let s = st (proc_server p) in
      case proc_stage p of
        Closing ok [] failures \<Rightarrow> at_stage (Terminated (if ok then 0 else 1) failures) s p
      | Closing ok (v # vs) failures \<Rightarrow>
          if \<not> IsUnlocked H v s then at_stage (Closing ok vs failures) s p
          else (case LockContext H v s of
            (None, s1) \<Rightarrow> at_stage (Closing ok vs failures) s1 p
          | (Some e, s1) \<Rightarrow> at_stage (Closing ok vs (failures @ [(v_name v, e)])) s1 p)
      | _ \<Rightarrow> p)"

text \<open>
  \<open>Shutdown\<close> returns once no connection is active, so no handler waits for \<open>opMu\<close>, or after its
  30 seconds. A second signal, or a listener that fails, ends the process at once.
\<close>

inductive life :: "'w host \<Rightarrow> 'l lib \<Rightarrow> decoders \<Rightarrow> config \<Rightarrow> ('w, 'l) process \<Rightarrow> ('w, 'l) process \<Rightarrow> bool"
  for H :: "'w host" and lib :: "'l lib" and D :: decoders and cfg :: config where
  Working: "\<nexists>c fs. proc_stage p = Terminated c fs \<Longrightarrow> step H lib D cfg l (proc_server p) \<sigma>' \<Longrightarrow>
    life H lib D cfg p (p\<lparr>proc_server := \<sigma>'\<rparr>)"
| ListenFailed: "proc_stage p = Serving \<Longrightarrow> life H lib D cfg p (p\<lparr>proc_stage := Terminated 1 []\<rparr>)"
| Signal: "proc_stage p = Serving \<Longrightarrow> life H lib D cfg p (p\<lparr>proc_stage := Draining\<rparr>)"
| Drained: "proc_stage p = Draining \<Longrightarrow> ops (proc_server p) = [] \<Longrightarrow> life H lib D cfg p (begin_close H True p)"
| DrainTimeout: "proc_stage p = Draining \<Longrightarrow> life H lib D cfg p (begin_close H False p)"
| CloseNext: "proc_stage p = Closing ok vs fs \<Longrightarrow> life H lib D cfg p (close_next H p)"
| SecondSignal: "proc_stage p \<noteq> Serving \<Longrightarrow> \<nexists>c fs. proc_stage p = Terminated c fs \<Longrightarrow>
    life H lib D cfg p (p\<lparr>proc_stage := Terminated 1 []\<rparr>)"

inductive_cases lifeE: "life H lib D cfg p p'"

section \<open>The rounds are the loop\<close>

lemma at_stage_simps [simp]:
  "proc_stage (at_stage g s p) = g" "st (proc_server (at_stage g s p)) = s" "at_stage g s (at_stage g' s' p) = at_stage g s p"
  "running (proc_server (at_stage g s p)) = running (proc_server p)" "ops (proc_server (at_stage g s p)) = ops (proc_server p)"
  by (simp_all add: at_stage_def)

lemma close_rounds:
  "proc_stage p = Closing ok vs fs \<Longrightarrow>
     (close_next H ^^ Suc (length vs)) p =
       (case lock_each H vs (st (proc_server p)) of
          (gs, s') \<Rightarrow> at_stage (Terminated (if ok then 0 else 1) (fs @ gs)) s' p)"
proof (induction vs arbitrary: p fs)
  case Nil
  then show ?case by (simp add: close_next_def)
next
  case (Cons v vs)
  let ?s = "st (proc_server p)"
  have unroll: "(close_next H ^^ Suc (length (v # vs))) p = (close_next H ^^ Suc (length vs)) (close_next H p)"
    by (simp only: funpow_swap1 funpow.simps list.size comp_def add_0_right add_Suc_right)
  show ?case
  proof (cases "IsUnlocked H v ?s")
    case False
    then have n: "close_next H p = at_stage (Closing ok vs fs) ?s p" using Cons.prems by (simp add: close_next_def Let_def)
    show ?thesis unfolding unroll n using Cons.IH [of "at_stage (Closing ok vs fs) ?s p" fs] False by (simp split: prod.split)
  next
    case True
    obtain e s1 where l: "LockContext H v ?s = (e, s1)" by fastforce
    let ?fs = "fs @ (case e of None \<Rightarrow> [] | Some x \<Rightarrow> [(v_name v, x)])"
    have n: "close_next H p = at_stage (Closing ok vs ?fs) s1 p"
      using Cons.prems True l by (cases e) (simp_all add: close_next_def Let_def)
    show ?thesis
      unfolding unroll n using Cons.IH [of "at_stage (Closing ok vs ?fs) s1 p" ?fs] True l
      by (cases e) (simp_all split: prod.split)
  qed
qed

text \<open>The locking as a whole, nothing else moving, is \<open>LockAllUnlocked\<close>.\<close>

lemma close_all:
  "\<exists>n. (close_next H ^^ n) (begin_close H ok p) =
     (case LockAllUnlocked H (st (proc_server p)) of
        (failures, s') \<Rightarrow> at_stage (Terminated (if ok then 0 else 1) failures) s' p)"
proof -
  obtain r s1 where l: "ListVaults H (st (proc_server p)) = (r, s1)" by fastforce
  show ?thesis
  proof (cases r)
    case (Inl e)
    then show ?thesis
      using close_rounds [of "begin_close H ok p" ok "[]" "[(''(list vaults)'', db_error_text e)]" H] l
      by (intro exI [of _ "Suc 0"]) (simp add: begin_close_def LockAllUnlocked_def)
  next
    case (Inr vs)
    then show ?thesis
      using close_rounds [of "begin_close H ok p" ok vs "[]" H] l
      by (intro exI [of _ "Suc (length vs)"]) (simp add: begin_close_def LockAllUnlocked_def split: prod.split)
  qed
qed

lemma life_closing:
  "life H lib D cfg p (close_next H p) \<or> close_next H p = p"
proof (cases "proc_stage p")
  case (Closing ok vs fs)
  then show ?thesis using life.CloseNext by blast
qed (simp_all add: close_next_def Let_def)

lemma life_close_rounds: "(life H lib D cfg)\<^sup>*\<^sup>* p ((close_next H ^^ n) p)"
proof (induction n)
  case (Suc n)
  then show ?case
    using life_closing [of H lib D cfg "(close_next H ^^ n) p"] by (auto intro: rtranclp.rtrancl_into_rtrancl)
qed simp

end
