(* ===== verification/LifecycleCorrect.thy ===== *)
theory LifecycleCorrect
  imports RunCorrect Lifecycle
begin

text \<open>The properties of the way to the exit of the process.\<close>




text \<open>
  C5: The shutdown does not see a creation that is still at work: its device is open but not yet
  on record, no handler waits for it and nothing waits for the goroutine. The process then reports
  that all vaults are locked and exits with 0, the device left open on the host.
\<close>
theorem shutdown_misses_creation:
  assumes "proc_stage p = Serving" and "ops (proc_server p) = []" and "j \<in> set (running (proc_server p))"
    and "ListVaults H (st (proc_server p)) = (Inr vs, s1)" and "\<forall>v \<in> set vs. \<not> IsUnlocked H v s1"
    and "exists H (mapper_path (job_name j)) s1"
  shows "\<exists>p'. (life H lib D cfg)\<^sup>*\<^sup>* p p' \<and> proc_stage p' = Terminated 0 [] \<and> j \<in> set (running (proc_server p'))
    \<and> exists H (mapper_path (job_name j)) (st (proc_server p'))"
proof -
  let ?d = "p\<lparr>proc_stage := Draining\<rparr>" and ?p' = "at_stage (Terminated 0 []) s1 p"
  have "lock_each H vs s1 = ([], s1)" using assms(5) by (induction vs) simp_all
  then have "LockAllUnlocked H (st (proc_server ?d)) = ([], s1)" using assms(4) by (simp add: LockAllUnlocked_def)
  then obtain n where "(close_next H ^^ n) (begin_close H True ?d) = at_stage (Terminated 0 []) s1 ?d"
    using close_all [of H True ?d] by auto
  also have "\<dots> = ?p'" by (simp add: at_stage_def)
  finally have rounds: "(life H lib D cfg)\<^sup>*\<^sup>* (begin_close H True ?d) ?p'" using life_close_rounds by metis
  have "life H lib D cfg p ?d" using assms(1) by (rule life.Signal)
  moreover have "life H lib D cfg ?d (begin_close H True ?d)" by (rule life.Drained) (use assms(2) in simp_all)
  ultimately have "(life H lib D cfg)\<^sup>*\<^sup>* p ?p'" using rounds by (meson converse_rtranclp_into_rtranclp)
  then show ?thesis using assms(3,6) by (intro exI [of _ ?p']) simp
qed

theorem shutdown_misses_creation_witness:
  "\<exists>\<sigma> p' j. reachable starts sim_step \<sigma> \<and> (life sim_host sim_lib create_decoders sim_config)\<^sup>*\<^sup>* \<lparr>proc_server = \<sigma>, proc_stage = Serving\<rparr> p'
     \<and> proc_stage p' = Terminated 0 [] \<and> exists sim_host (mapper_path ''b'') (st (proc_server p'))"
proof -
  obtain \<sigma>1 j where c: "sim_step (Goroutine (spawned sim_creation)) creating_server \<sigma>1" "running \<sigma>1 = [j]"
    "j_creation j = sim_creation" "ops \<sigma>1 = []" "sdb (st \<sigma>1) = sim_db"
    "exists sim_host (mapper_path ''b'') (st \<sigma>1)" "\<not> IsUnlocked sim_host sim_vault (st \<sigma>1)"
    by (rule creating_recorded) blast
  let ?p = "\<lparr>proc_server = \<sigma>1, proc_stage = Serving\<rparr>"
  have r: "reachable starts sim_step \<sigma>1" using reachable.Step [OF creating_reachable c(1)] .
  have l: "ListVaults sim_host (st \<sigma>1) = (Inr [sim_vault], st \<sigma>1)"
    using c(5) by (simp add: ListVaults_def sql_def sim_host_def select_vaults_def sim_db_def)
  have n: "job_name j = ''b''" using c(3) by (simp add: job_name_def sim_creation_def)
  have "\<exists>p'. (life sim_host sim_lib create_decoders sim_config)\<^sup>*\<^sup>* ?p p' \<and> proc_stage p' = Terminated 0 []
      \<and> j \<in> set (running (proc_server p')) \<and> exists sim_host (mapper_path (job_name j)) (st (proc_server p'))"
    by (rule shutdown_misses_creation [where vs = "[sim_vault]" and ?s1.0 = "st \<sigma>1"]) (use c l n in simp_all)
  then show ?thesis using r n by metis
qed

end
