(* ===== verification/Middleware.thy ===== *)
theory Middleware
  imports Server
begin

text \<open>
  \<open>internal/api/api.go\<close>: \<open>requestLogger\<close>, \<open>responseWriter\<close> and \<open>securityHeaders\<close>. A response of
  the model is written to the wire by the calls its handler makes on the response writer; the
  writer underneath is \<open>net/http\<close>'s, where the first \<open>WriteHeader\<close> fixes status and headers.
\<close>

section \<open>The writer of net/http\<close>

type_synonym headers = "string \<rightharpoonup> string"

record wire =
  w_header :: headers
  w_sent :: "(int \<times> headers) option"

definition fresh_wire :: wire where
  "fresh_wire = \<lparr>w_header = Map.empty, w_sent = None\<rparr>"

definition hdr_set :: "string \<Rightarrow> string \<Rightarrow> wire \<Rightarrow> wire" where
  "hdr_set k v w = w\<lparr>w_header := (w_header w)(k \<mapsto> v)\<rparr>"

definition send_header :: "int \<Rightarrow> wire \<Rightarrow> wire" where
  "send_header code w = (case w_sent w of None \<Rightarrow> w\<lparr>w_sent := Some (code, w_header w)\<rparr> | Some _ \<Rightarrow> w)"

text \<open>\<open>Write\<close>, \<open>Flush\<close> and the end of the handler send a 200 if nothing was sent before.\<close>

definition implicit_header :: "wire \<Rightarrow> wire" where
  "implicit_header = send_header 200"

section \<open>responseWriter\<close>

record responseWriter =
  rw_inner :: wire
  rw_status :: int

definition WriteHeader :: "int \<Rightarrow> responseWriter \<Rightarrow> responseWriter" where
  "WriteHeader code rw = rw\<lparr>rw_status := code, rw_inner := send_header code (rw_inner rw)\<rparr>"

text \<open>\<open>Flush\<close> is passed on if the inner writer can flush.\<close>

definition rw_flush :: "bool \<Rightarrow> responseWriter \<Rightarrow> responseWriter" where
  "rw_flush can_flush rw = (if can_flush then rw\<lparr>rw_inner := implicit_header (rw_inner rw)\<rparr> else rw)"

text \<open>The methods it inherits from the embedded writer.\<close>

definition rw_set :: "string \<Rightarrow> string \<Rightarrow> responseWriter \<Rightarrow> responseWriter" where
  "rw_set k v rw = rw\<lparr>rw_inner := hdr_set k v (rw_inner rw)\<rparr>"

definition rw_write :: "responseWriter \<Rightarrow> responseWriter" where
  "rw_write rw = rw\<lparr>rw_inner := implicit_header (rw_inner rw)\<rparr>"

section \<open>What a handler writes\<close>

datatype wcall = SetHeader string string | CallWriteHeader int | CallWrite | CallFlush

fun wstep :: "wcall \<Rightarrow> responseWriter \<Rightarrow> responseWriter" where
  "wstep (SetHeader k v) rw = rw_set k v rw"
| "wstep (CallWriteHeader code) rw = WriteHeader code rw"
| "wstep CallWrite rw = rw_write rw"
| "wstep CallFlush rw = rw_flush True rw"

text \<open>
  The calls behind each kind of body: \<open>jsonErr\<close>, \<open>jsonOK\<close> and the handlers that answer 201 or
  202, \<open>http.Error\<close> for the three plain texts, the pages, the event stream and the empty answers
  (204, and the redirect of \<open>auth\<close>). A 200 is never written explicitly.
\<close>

definition plain_text :: "api_msg \<Rightarrow> bool" where
  "plain_text m \<longleftrightarrow> m = NotFoundPage \<or> m = StreamingUnsupported \<or> m = Unauthorized"

definition code_calls :: "int \<Rightarrow> wcall list" where
  "code_calls code = (if code = 200 then [] else [CallWriteHeader code])"

definition body_headers :: "body \<Rightarrow> (string \<times> string) list" where
  "body_headers b =
     (case b of
        NoBody \<Rightarrow> []
      | ErrorBody m \<Rightarrow>
          if plain_text m
          then [(''Content-Type'', ''text/plain; charset=utf-8''), (''X-Content-Type-Options'', ''nosniff'')]
          else [(''Content-Type'', ''application/json'')]
      | PageBody _ \<Rightarrow> [(''Content-Type'', ''text/html; charset=utf-8'')]
      | EventStream _ \<Rightarrow>
          [(''Content-Type'', ''text/event-stream''), (''Cache-Control'', ''no-cache''), (''Connection'', ''keep-alive''),
           (''X-Accel-Buffering'', ''no'')]
      | _ \<Rightarrow> [(''Content-Type'', ''application/json'')])"

definition body_writes :: "body \<Rightarrow> wcall list" where
  "body_writes b =
     (case b of
        NoBody \<Rightarrow> []
      | EventStream ps \<Rightarrow> List.maps (\<lambda>_. [CallWrite, CallFlush]) ps
      | _ \<Rightarrow> [CallWrite])"

text \<open>\<open>http.SetCookie\<close>, with the attributes the two handlers give it.\<close>

definition cookie_header :: "cookie \<Rightarrow> string" where
  "cookie_header c = sessionCookieName @ ''='' @ ck_value c @ ''; Path=/''
     @ (if 0 < ck_max_age c then ''; Max-Age='' @ itoa (ck_max_age c)
        else if ck_max_age c < 0 then ''; Max-Age=0'' else [])
     @ ''; HttpOnly'' @ (if ck_secure c then ''; Secure'' else []) @ ''; SameSite=Strict''"

definition response_headers :: "response \<Rightarrow> (string \<times> string) list" where
  "response_headers resp =
     (case set_cookie resp of None \<Rightarrow> [] | Some c \<Rightarrow> [(''Set-Cookie'', cookie_header c)])
     @ (if location resp = [] then [] else [(''Location'', location resp)])
     @ (if challenge resp then [(''Www-Authenticate'', ''Basic realm=\"lukscrypt\"'')] else [])
     @ body_headers (payload resp)"

definition response_calls :: "response \<Rightarrow> wcall list" where
  "response_calls resp =
     map (\<lambda>(k, v). SetHeader k v) (response_headers resp) @ code_calls (status resp) @ body_writes (payload resp)"

section \<open>securityHeaders and requestLogger\<close>

definition single_quoted :: "string \<Rightarrow> string" where
  "single_quoted s = CHR 0x27 # s @ [CHR 0x27]"

definition csp :: string where
  "csp = ''default-src '' @ single_quoted ''self'' @ ''; '' @
     ''script-src '' @ single_quoted ''self'' @ '' '' @ single_quoted ''unsafe-inline'' @ ''; '' @
     ''style-src '' @ single_quoted ''self'' @ '' '' @ single_quoted ''unsafe-inline'' @ ''; '' @
     ''connect-src '' @ single_quoted ''self'' @ ''; '' @
     ''img-src '' @ single_quoted ''self'' @ '' data:; '' @
     ''frame-ancestors '' @ single_quoted ''none'' @ ''; '' @
     ''base-uri '' @ single_quoted ''self'' @ ''; '' @
     ''form-action '' @ single_quoted ''self''"

definition security_header_list :: "(string \<times> string) list" where
  "security_header_list =
     [(''X-Content-Type-Options'', ''nosniff''), (''X-Frame-Options'', ''DENY''),
      (''Referrer-Policy'', ''strict-origin-when-cross-origin''),
      (''Permissions-Policy'', ''camera=(), microphone=(), geolocation=()''),
      (''Content-Security-Policy'', csp)]"

definition securityHeaders :: "(responseWriter \<Rightarrow> responseWriter) \<Rightarrow> responseWriter \<Rightarrow> responseWriter" where
  "securityHeaders next_handler rw = next_handler (fold (\<lambda>(k, v). rw_set k v) security_header_list rw)"

record log_entry =
  le_method :: string
  le_path :: "string list"
  le_status :: int
  le_duration_ms :: int
  le_ip :: string

text \<open>\<open>began\<close> and \<open>ended\<close> are the clock before and after the handler.\<close>

definition requestLogger :: "config \<Rightarrow> request \<Rightarrow> int \<Rightarrow> int \<Rightarrow> (responseWriter \<Rightarrow> responseWriter) \<Rightarrow> wire \<Rightarrow>
    wire \<times> log_entry" where
  "requestLogger cfg r began ended next_handler w =
     (let rw = next_handler \<lparr>rw_inner = w, rw_status = 200\<rparr> in
      (rw_inner rw,
       \<lparr>le_method = r_method r, le_path = r_path r, le_status = rw_status rw,
        le_duration_ms = go_div (ended - began) 1000000, le_ip = clientIP r (c_proxy cfg)\<rparr>))"

text \<open>An answer of a handler behind the middleware: what reaches the client, and the log line.\<close>

definition transmit :: "config \<Rightarrow> request \<Rightarrow> int \<Rightarrow> int \<Rightarrow> response \<Rightarrow> wire \<times> log_entry" where
  "transmit cfg r began ended resp =
     (case requestLogger cfg r began ended (securityHeaders (fold wstep (response_calls resp))) fresh_wire of
        (w, entry) \<Rightarrow> (implicit_header w, entry))"

text \<open>
  \<open>NewMux\<close>: the health check and the redirect of a path that is not clean stay outside of it.
\<close>

definition wrapped :: "request \<Rightarrow> bool" where
  "wrapped r \<longleftrightarrow> clean_segments (r_path r) \<and> top_route (r_method r) (r_path r) \<noteq> Healthz"

definition deliver :: "config \<Rightarrow> request \<Rightarrow> int \<Rightarrow> int \<Rightarrow> response \<Rightarrow> wire \<times> log_entry option" where
  "deliver cfg r began ended resp =
     (if wrapped r then map_prod id Some (transmit cfg r began ended resp)
      else (implicit_header (rw_inner (fold wstep (response_calls resp) \<lparr>rw_inner = fresh_wire, rw_status = 200\<rparr>)), None))"

section \<open>What reaches the client\<close>

lemma sets_keep:
  "w_sent (rw_inner (fold wstep (map (\<lambda>(k, v). SetHeader k v) hs) rw)) = w_sent (rw_inner rw)
     \<and> rw_status (fold wstep (map (\<lambda>(k, v). SetHeader k v) hs) rw) = rw_status rw"
  by (induction hs arbitrary: rw) (auto simp: rw_set_def hdr_set_def)

lemma write_keeps:
  "c = CallWrite \<or> c = CallFlush \<Longrightarrow> rw_status (wstep c rw) = rw_status rw
     \<and> implicit_header (rw_inner (wstep c rw)) = implicit_header (rw_inner rw)"
  by (auto simp: rw_write_def rw_flush_def implicit_header_def send_header_def split: option.splits)

lemma writes_keep:
  "set ws \<subseteq> {CallWrite, CallFlush} \<Longrightarrow> rw_status (fold wstep ws rw) = rw_status rw
     \<and> implicit_header (rw_inner (fold wstep ws rw)) = implicit_header (rw_inner rw)"
  by (induction ws arbitrary: rw) (use write_keeps in \<open>simp_all del: wstep.simps\<close>)

lemma body_writes_only: "set (body_writes b) \<subseteq> {CallWrite, CallFlush}"
  by (cases b) (auto simp: body_writes_def List.maps_eq)

text \<open>No answer replaces a security header by something else.\<close>

definition guarded :: "headers \<Rightarrow> bool" where
  "guarded h \<longleftrightarrow> list_all (\<lambda>(k, v). h k = Some v) security_header_list"

definition harmless :: "string \<times> string \<Rightarrow> bool" where
  "harmless h \<longleftrightarrow> h \<in> set security_header_list \<or> fst h \<notin> fst ` set security_header_list"

lemma response_headers_harmless: "list_all harmless (response_headers resp)"
  by (cases "payload resp")
    (auto simp: response_headers_def body_headers_def harmless_def security_header_list_def split: option.splits)

lemma guarded_set: "guarded h \<Longrightarrow> harmless (k, v) \<Longrightarrow> guarded (h(k \<mapsto> v))"
  by (auto simp: guarded_def harmless_def security_header_list_def)

definition guarded_writer :: "responseWriter \<Rightarrow> bool" where
  "guarded_writer rw \<longleftrightarrow> guarded (w_header (rw_inner rw)) \<and> (\<forall>c h. w_sent (rw_inner rw) = Some (c, h) \<longrightarrow> guarded h)"

lemma guarded_wstep:
  "guarded_writer rw \<Longrightarrow> (\<And>k v. c = SetHeader k v \<Longrightarrow> harmless (k, v)) \<Longrightarrow> guarded_writer (wstep c rw)"
  by (cases c) (auto simp: guarded_writer_def rw_set_def hdr_set_def WriteHeader_def rw_write_def rw_flush_def
      implicit_header_def send_header_def intro: guarded_set split: option.splits)

lemma guarded_fold:
  "guarded_writer rw \<Longrightarrow> (\<And>k v. SetHeader k v \<in> set cs \<Longrightarrow> harmless (k, v)) \<Longrightarrow> guarded_writer (fold wstep cs rw)"
  by (induction cs arbitrary: rw) (simp_all add: guarded_wstep del: wstep.simps)

lemma response_calls_set:
  assumes "SetHeader k v \<in> set (response_calls resp)"
  shows "harmless (k, v)"
proof -
  have "(k, v) \<in> set (response_headers resp)"
    using assms body_writes_only [of "payload resp"] by (auto simp: response_calls_def code_calls_def split: if_splits)
  then show ?thesis using response_headers_harmless by (auto simp: list_all_iff)
qed

lemma transmit_guarded:
  "\<exists>h. w_sent (fst (transmit cfg r began ended resp)) = Some (status resp, h)
    \<and> list_all (\<lambda>(k, v). h k = Some v) security_header_list
    \<and> le_status (snd (transmit cfg r began ended resp)) = status resp
    \<and> le_ip (snd (transmit cfg r began ended resp)) = clientIP r (c_proxy cfg)"
proof -
  let ?start = "fold (\<lambda>(k, v). rw_set k v) security_header_list \<lparr>rw_inner = fresh_wire, rw_status = 200\<rparr>"
  let ?rw = "fold wstep (response_calls resp) ?start"
  have start: "w_sent (rw_inner ?start) = None" "rw_status ?start = 200" "guarded_writer ?start"
    by (simp_all add: security_header_list_def rw_set_def hdr_set_def fresh_wire_def guarded_writer_def guarded_def)
  let ?mid = "fold wstep (code_calls (status resp)) (fold wstep (map (\<lambda>(k, v). SetHeader k v) (response_headers resp)) ?start)"
  have "rw_status ?mid = status resp" "\<exists>h. w_sent (implicit_header (rw_inner ?mid)) = Some (status resp, h)"
    using sets_keep [of "response_headers resp" ?start] start
    by (auto simp: code_calls_def WriteHeader_def implicit_header_def send_header_def)
  then obtain h where sent: "rw_status ?rw = status resp" "w_sent (implicit_header (rw_inner ?rw)) = Some (status resp, h)"
    using writes_keep [OF body_writes_only, of "payload resp" ?mid] by (auto simp: response_calls_def)
  have "guarded_writer ?rw" by (rule guarded_fold [OF start(3)]) (rule response_calls_set)
  then have "guarded_writer (wstep CallWrite ?rw)" using guarded_wstep by blast
  then have "guarded h" using sent(2) by (simp add: guarded_writer_def rw_write_def)
  then show ?thesis
    using sent by (simp add: transmit_def requestLogger_def securityHeaders_def guarded_def Let_def)
qed

lemma unwrapped_status:
  "\<exists>h. w_sent (implicit_header (rw_inner (fold wstep (response_calls resp) \<lparr>rw_inner = fresh_wire, rw_status = 200\<rparr>))) = Some (status resp, h)"
proof -
  let ?s = "\<lparr>rw_inner = fresh_wire, rw_status = 200\<rparr>"
  let ?mid = "fold wstep (code_calls (status resp)) (fold wstep (map (\<lambda>(k, v). SetHeader k v) (response_headers resp)) ?s)"
  have "\<exists>h. w_sent (implicit_header (rw_inner ?mid)) = Some (status resp, h)"
    using sets_keep [of "response_headers resp" ?s]
    by (auto simp: code_calls_def WriteHeader_def implicit_header_def send_header_def fresh_wire_def)
  then show ?thesis
    using writes_keep [OF body_writes_only, of "payload resp" ?mid] by (auto simp: response_calls_def)
qed

text \<open>
  C35: The status a handler decides on is the status that is sent. Every answer behind the
  middleware, the refusals of the guards included, goes out with all five security headers at
  their fixed values, whatever headers its handler sets, and leaves one log line with that status
  and the address the limits count; the health check and the mux's redirects leave none.
\<close>
theorem answers_guarded:
  "\<exists>h. w_sent (fst (deliver cfg r began ended resp)) = Some (status resp, h)
    \<and> (if wrapped r
        then h ''X-Content-Type-Options'' = Some ''nosniff'' \<and> h ''X-Frame-Options'' = Some ''DENY''
          \<and> h ''Referrer-Policy'' = Some ''strict-origin-when-cross-origin''
          \<and> h ''Permissions-Policy'' = Some ''camera=(), microphone=(), geolocation=()''
          \<and> h ''Content-Security-Policy'' = Some csp
          \<and> (\<exists>entry. snd (deliver cfg r began ended resp) = Some entry
                \<and> le_status entry = status resp \<and> le_ip entry = clientIP r (c_proxy cfg))
        else snd (deliver cfg r began ended resp) = None)"
  using transmit_guarded [of cfg r began ended resp] unwrapped_status [of resp]
  by (auto simp: deliver_def security_header_list_def)

end
