(* ===== verification/Spec2Isabelle.thy ===== *)
theory Spec2Isabelle
  imports LifecycleCorrect Middleware
begin

text \<open>
  lukscrypt: a web service that creates, unlocks, locks, grows, imports and deletes
  LUKS-encrypted, image-backed vaults. The program is \<open>src/main.go\<close> (configuration, startup,
  shutdown), \<open>src/internal/api\<close> (HTTP routes, authentication, handlers, auto-lock),
  \<open>src/internal/vault\<close> (the pipelines around \<open>cryptsetup\<close>, \<open>mount\<close> and \<open>mkfs\<close>) and
  \<open>src/internal/db\<close> (SQLite records). The handlers call \<open>vault\<close> and \<open>db\<close>; \<open>vault.Create\<close> and
  \<open>vault.LockAllUnlocked\<close> call \<open>db\<close> themselves. The operations that change vaults share one
  mutex, \<open>opMu\<close>; creations run in goroutines of their own and only reserve their name and image
  under it.

  \<^bold>\<open>How the program is modelled.\<close> A Go function is a function on an explicit state with the
  result first; an \<open>error\<close> is \<open>Some\<close> or \<open>Inl\<close> of its text, an early return of a handler the
  \<open>Inl\<close> of its response. \<open>int\<close> and \<open>int64\<close> are unbounded integers wrapped to 64 bits where the
  source can overflow (\<open>GoLib\<close>); floats are exact rationals with the two infinities and
  \<open>NaN\<close>, so the rounding of a float operation is not modelled (it can move a progress
  percentage by one and a duration by a nanosecond or less per hour). Whatever lies outside the repository (kernel,
  subprocesses, SQLite's engine, clock, random source, the reader of a progress channel) is the
  parameter \<open>H\<close>, a record of functions over an abstract world \<open>'w\<close>; the limiter of
  \<open>golang.org/x/time/rate\<close>, SHA-256, URL parsing and the JSON decoders are the parameters
  \<open>lib\<close> and \<open>D\<close>. Nothing is assumed of them except where a theorem says so. The state of a run
  carries a log of the calls with an effect, a history variable that no definition reads;
  theorems about order and balance are stated over it.

  \<^bold>\<open>The theories and the code.\<close>
    \<^item> \<open>Prelude\<close>, \<open>GoLib\<close>, \<open>GoPath\<close>, \<open>GoFloat\<close>: lists, and the parts of Go's library the
      source uses (\<open>strings\<close>, \<open>strconv\<close>, \<open>filepath\<close>, \<open>hex\<close>, \<open>base64\<close>, floats).
    \<^item> \<open>Store\<close>, \<open>Host\<close>, \<open>Database\<close>: the two tables with the contract \<open>keyed_table\<close> both keep,
      the world outside, and the methods of \<open>db.go\<close>.
    \<^item> \<open>Mounts\<close>, \<open>LuksDump\<close>, \<open>Keys\<close>, \<open>Resize\<close>, \<open>Create\<close>, \<open>VaultOps\<close>: the files of
      \<open>internal/vault\<close>. \<open>Create\<close> is cut at the points where another operation can run.
    \<^item> \<open>Api\<close>, \<open>Auth\<close>, \<open>AutoLock\<close>, \<open>Handlers\<close>, \<open>Server\<close>: \<open>api.go\<close>. A handler that takes \<open>opMu\<close>
      is a part before the lock and a part under it; \<open>Server\<close> has the routes, the middleware and
      the labelled step relation of the whole server: requests, waiting operations, creation
      goroutines in five stages, the auto-lock goroutine and the three clean-up tickers,
      interleaved in any order with changes of the world.
    \<^item> \<open>Middleware\<close>: the response writer, the log line and the security headers of \<open>api.go\<close>; what
      a response of the model becomes on the wire.
    \<^item> \<open>Config\<close>, \<open>Lifecycle\<close>: \<open>main.go\<close>, the environment and the start, then the process around the
      server as a step relation: signals, drain, the locking of the vaults, exit status.
    \<^item> \<open>SimHost\<close>: a small executable host on which the witnesses run.

  \<^bold>\<open>What the lemmas show.\<close> The destruction lemmas named after an operation with a final \<open>D\<close> say
  what it logs, what it leaves alone and what its result means; proofs about callers use only
  them. \<open>HandlerEffects\<close> bounds what a request or an operation may do to the server's tables and
  to the records, \<open>Reservations\<close> lifts that to an invariant of all reachable states (an
  interpretation of \<open>invariant_of\<close>), \<open>Windows\<close> does the same for the table of auto-lock windows.
  \<open>Registry\<close> states what records and reservations promise together as a small abstract machine,
  proves that the server refines it (\<open>simulation_of\<close>) and draws from it that ids are given out
  once; \<open>RowTypes\<close> carries the validation of the handlers through to the records.
  \<open>CreateView\<close> shows that no credential influences what a creation runs, \<open>CreateStream\<close> which
  events its channel carries and what the client reads of them. The properties are in
  \<open>VaultCorrect\<close> (resources, order of commands, keyslots, parsing, sizes, credentials),
  \<open>ApiCorrect\<close> (authentication, sessions, tokens), \<open>RequestCorrect\<close> (limits, imports, keyslot
  removal, deletion), \<open>PolicyCorrect\<close> (auto-lock), \<open>ServerCorrect\<close> (the gate, reservations
  over all interleavings, termination, configuration), \<open>RunCorrect\<close> (refinement, identity of
  what waits, shape of the records, progress under fairness, what the client of a creation is told),
  \<open>LifecycleCorrect\<close> (shutdown) and
  \<open>Middleware\<close> (headers and log). \<open>swept_table\<close> is the contract of the
  tables with periodic removal (sessions, jobs, limiters).

  \<^bold>\<open>Bounds.\<close> No definition needs fuel: every loop of the source is a recursion over a list (records,
  keyslots, ticks of \<open>dd\<close>, what an event stream sees), and the unbounded behaviour, the order of
  events, is the step relation. That creations end is a theorem about that relation.

  \<^bold>\<open>Not modelled.\<close> Log lines other than the one per request, the cancellation of a context (a call
  it interrupts is a call that fails), panics in a creation goroutine, the encoding of responses as
  JSON text, the browser pages, and the stubs for other platforms. A statement of SQL is atomic; the
  database file itself is not modelled.
\<close>

end
